(* ===== verification/JS_Prelude.thy ===== *)
theory JS_Prelude
  imports Main "HOL-Library.Sublist" "HOL-Library.Extended_Nat" "HOL-Library.Multiset"
begin

text \<open>
  The shared prelude of the development: the ECMAScript string and array primitives that
  the components under \<^verbatim>\<open>src/src\<close> call, as executable HOL functions, with the lemmas
  the component theories share.

  A JavaScript string is a sequence of UTF-16 code units. The model keeps the code units
  below U+0100, for which Isabelle's \<^typ>\<open>char\<close> (one byte) is an exact carrier, so a
  \<open>js_string\<close> is a \<^typ>\<open>string\<close>. On that range \<^verbatim>\<open>toLowerCase\<close> maps single code
  units to single code units (\<open>A\<close>--\<open>Z\<close> and U+00C0--U+00DE without U+00D7 move up by
  32), and the white space of \<^verbatim>\<open>trim\<close> and of the regular expression class
  \<^verbatim>\<open>\s\<close> is TAB, LF, VT, FF, CR, SPACE and NBSP.

  Collections: \<open>js_eval\<close> holds the rewrite rules that evaluate the primitives on closed
  terms (the witnesses use it); \<open>js_simps\<close> holds the algebraic facts about them that the
  component proofs pass to the simplifier.
\<close>

named_theorems js_eval "evaluation of the string primitives on closed terms"
named_theorems js_simps "shared facts about the string and array primitives"

type_synonym js_string = string

section \<open>Truthiness\<close>

text \<open>A string is falsy exactly when it is empty (\<^verbatim>\<open>!s\<close>, \<^verbatim>\<open>Boolean(s)\<close>, \<^verbatim>\<open>s && ...\<close>).\<close>

definition truthy :: "js_string \<Rightarrow> bool" where
  "truthy s \<longleftrightarrow> s \<noteq> []"

section \<open>Case mapping and white space\<close>

definition lower_char :: "char \<Rightarrow> char" where
  "lower_char c =
     (let n = (of_char c :: nat)
      in if (65 \<le> n \<and> n \<le> 90) \<or> (192 \<le> n \<and> n \<le> 222 \<and> n \<noteq> 215)
         then char_of (n + 32) else c)"

definition toLowerCase :: "js_string \<Rightarrow> js_string" where
  "toLowerCase s = map lower_char s"

definition isWhiteSpace :: "char \<Rightarrow> bool" where
  "isWhiteSpace c \<longleftrightarrow> (of_char c :: nat) \<in> {9, 10, 11, 12, 13, 32, 160}"

definition trimStart :: "js_string \<Rightarrow> js_string" where
  "trimStart s = dropWhile isWhiteSpace s"

definition trimEnd :: "js_string \<Rightarrow> js_string" where
  "trimEnd s = rev (dropWhile isWhiteSpace (rev s))"

definition trim :: "js_string \<Rightarrow> js_string" where
  "trim s = trimEnd (trimStart s)"

section \<open>Prefixes, suffixes and replacement\<close>

text \<open>
  \<^verbatim>\<open>s.startsWith(p)\<close> and \<^verbatim>\<open>s.endsWith(p)\<close> compare the code units of \<open>p\<close> with
  those at the start and at the end of \<open>s\<close>. \<^verbatim>\<open>s.replace(pat, rep)\<close> with a string
  pattern replaces the first occurrence only; the replacement used by the sources is the
  empty string, which holds no \<^verbatim>\<open>$\<close> pattern.
\<close>

definition startsWith :: "js_string \<Rightarrow> js_string \<Rightarrow> bool" where
  "startsWith s p \<longleftrightarrow> take (length p) s = p"

definition endsWith :: "js_string \<Rightarrow> js_string \<Rightarrow> bool" where
  "endsWith s p \<longleftrightarrow> length p \<le> length s \<and> drop (length s - length p) s = p"

fun replace_first :: "js_string \<Rightarrow> js_string \<Rightarrow> js_string \<Rightarrow> js_string" where
  "replace_first pat rep [] = (if pat = [] then rep else [])"
| "replace_first pat rep (c # cs) =
     (if startsWith (c # cs) pat then rep @ drop (length pat) (c # cs)
      else c # replace_first pat rep cs)"

section \<open>Splitting and joining\<close>

text \<open>
  \<^verbatim>\<open>s.split(sep)\<close> for a separator of one code unit: the pieces between the
  separators, in order; the empty string splits into one empty piece. \<open>join\<close> is
  \<^verbatim>\<open>Array.prototype.join\<close> for the same separator.
\<close>

fun split :: "char \<Rightarrow> js_string \<Rightarrow> js_string list" where
  "split sep [] = [[]]"
| "split sep (c # cs) =
     (if c = sep then [] # split sep cs
      else (case split sep cs of [] \<Rightarrow> [[c]] | w # ws \<Rightarrow> (c # w) # ws))"

fun join :: "char \<Rightarrow> js_string list \<Rightarrow> js_string" where
  "join sep [] = []"
| "join sep [s] = s"
| "join sep (s # t # ts) = s @ sep # join sep (t # ts)"

section \<open>Numbers as text\<close>

text \<open>
  The decimal numeral of a natural number, as a template literal or \<^verbatim>\<open>String(n)\<close>
  prints an integer below \<open>10\<^sup>2\<^sup>1\<close>.
\<close>

definition digit_char :: "nat \<Rightarrow> char" where
  "digit_char d = char_of (48 + d)"

fun show_nat :: "nat \<Rightarrow> js_string" where
  "show_nat n = (if n < 10 then [digit_char n] else show_nat (n div 10) @ [digit_char (n mod 10)])"

declare show_nat.simps [simp del]

section \<open>Evaluation rules\<close>

lemma char_of_eval [js_eval]: "char_of (n::nat) = c \<longleftrightarrow> n mod 256 = of_char c"
  by (simp add: char_of_eq_iff take_bit_eq_mod)

lemmas [js_eval] =
  truthy_def lower_char_def toLowerCase_def isWhiteSpace_def trimStart_def trimEnd_def
  trim_def startsWith_def endsWith_def digit_char_def Let_def

lemma show_nat_digit [js_eval]: "n < 10 \<Longrightarrow> show_nat n = [digit_char n]"
  by (simp add: show_nat.simps)

lemma show_nat_step [js_eval]:
  "10 \<le> n \<Longrightarrow> show_nat n = show_nat (n div 10) @ [digit_char (n mod 10)]"
  by (subst show_nat.simps) simp

section \<open>Case mapping\<close>

lemma of_char_lower_char:
  "(of_char (lower_char c) :: nat) =
     (let n = of_char c
      in if (65 \<le> n \<and> n \<le> 90) \<or> (192 \<le> n \<and> n \<le> 222 \<and> n \<noteq> 215) then n + 32 else n)"
  by (auto simp: lower_char_def Let_def of_char_of)

lemma lower_char_idem [js_simps, simp]: "lower_char (lower_char c) = lower_char c"
  by (auto simp: lower_char_def Let_def of_char_of)

lemma toLowerCase_idem [js_simps, simp]: "toLowerCase (toLowerCase s) = toLowerCase s"
  by (simp add: toLowerCase_def)

lemma length_toLowerCase [js_simps, simp]: "length (toLowerCase s) = length s"
  by (simp add: toLowerCase_def)

lemma toLowerCase_append [js_simps, simp]:
  "toLowerCase (s @ t) = toLowerCase s @ toLowerCase t"
  by (simp add: toLowerCase_def)

lemma toLowerCase_Nil [js_simps, simp]: "toLowerCase [] = []"
  by (simp add: toLowerCase_def)

lemma toLowerCase_Cons [js_simps, simp]:
  "toLowerCase (c # s) = lower_char c # toLowerCase s"
  by (simp add: toLowerCase_def)

lemma toLowerCase_eq_Nil_iff [js_simps, simp]: "toLowerCase s = [] \<longleftrightarrow> s = []"
  by (simp add: toLowerCase_def)

section \<open>Prefixes and suffixes against the library's orders\<close>

lemma startsWith_iff_prefix [js_simps]: "startsWith s p \<longleftrightarrow> prefix p s"
  unfolding startsWith_def prefix_def
  by (metis append_eq_conv_conj)

lemma endsWith_iff_suffix [js_simps]: "endsWith s p \<longleftrightarrow> suffix p s"
proof
  assume "endsWith s p"
  then have "s = take (length s - length p) s @ p"
    by (metis append_take_drop_id endsWith_def)
  then show "suffix p s"
    by (metis suffixI)
next
  assume "suffix p s"
  then obtain q where "s = q @ p"
    by (auto simp: suffix_def)
  then show "endsWith s p"
    by (simp add: endsWith_def)
qed

lemma startsWith_Nil [js_simps, simp]: "startsWith s []"
  by (simp add: startsWith_def)

lemma endsWith_Nil [js_simps, simp]: "endsWith s []"
  by (simp add: endsWith_def)

lemma startsWith_append [js_simps, simp]: "startsWith (p @ s) p"
  by (simp add: startsWith_def)

lemma endsWith_append [js_simps, simp]: "endsWith (s @ p) p"
  by (simp add: endsWith_def)

lemma startsWith_Cons_Cons [js_simps, simp]:
  "startsWith (c # s) (d # p) \<longleftrightarrow> c = d \<and> startsWith s p"
  by (auto simp: startsWith_def)

lemma startsWith_Nil_left [js_simps, simp]: "startsWith [] p \<longleftrightarrow> p = []"
  by (auto simp: startsWith_def)

lemma startsWith_trans: "startsWith s p \<Longrightarrow> startsWith p q \<Longrightarrow> startsWith s q"
  by (auto simp: startsWith_iff_prefix)

lemma endsWith_toLowerCase_mono:
  "endsWith s p \<Longrightarrow> endsWith (toLowerCase s) (toLowerCase p)"
  by (auto simp: endsWith_iff_suffix suffix_def)

section \<open>Replacement of the first occurrence\<close>

lemma replace_first_absent:
  "\<not> (\<exists>u v. s = u @ pat @ v) \<Longrightarrow> replace_first pat rep s = s"
proof (induction s)
  case Nil
  then show ?case by auto
next
  case (Cons c cs)
  have "\<not> startsWith (c # cs) pat"
    using Cons.prems by (metis append_Nil prefix_def startsWith_iff_prefix)
  moreover have "\<not> (\<exists>u v. cs = u @ pat @ v)"
    using Cons.prems by (metis append_Cons)
  ultimately show ?case
    using Cons.IH by simp
qed

lemma replace_first_at:
  assumes "\<not> (\<exists>u' v'. u @ butlast pat = u' @ pat @ v')" and "pat \<noteq> []"
  shows "replace_first pat rep (u @ pat @ v) = u @ rep @ v"
  using assms
proof (induction u)
  case Nil
  then show ?case
    by (cases pat) (simp_all add: startsWith_def)
next
  case (Cons c u)
  have no_start: "\<not> startsWith (c # u @ pat @ v) pat"
  proof
    assume "startsWith (c # u @ pat @ v) pat"
    then have p: "prefix pat ((c # u) @ pat @ v)"
      by (simp add: startsWith_iff_prefix)
    have "length pat \<le> length ((c # u) @ butlast pat)"
      using Cons.prems(2) by (cases pat rule: rev_cases) auto
    moreover have "prefix ((c # u) @ butlast pat) ((c # u) @ pat @ v)"
      using Cons.prems(2) by (cases pat rule: rev_cases) auto
    ultimately have "prefix pat ((c # u) @ butlast pat)"
      using p by (metis prefix_length_prefix)
    then obtain zs where "(c # u) @ butlast pat = [] @ pat @ zs"
      by (auto simp: prefix_def)
    then show False
      using Cons.prems(1) by blast
  qed
  have "\<not> (\<exists>u' v'. u @ butlast pat = u' @ pat @ v')"
    using Cons.prems(1) by (metis append_Cons)
  then show ?case
    using Cons.IH Cons.prems(2) no_start by simp
qed

section \<open>Splitting\<close>

lemma split_not_Nil [js_simps, simp]: "split sep s \<noteq> []"
  by (induction s) (auto split: list.splits)

lemma join_Cons [js_simps]: "ts \<noteq> [] \<Longrightarrow> join sep (s # ts) = s @ sep # join sep ts"
  by (cases ts) auto

lemma join_split [js_simps, simp]: "join sep (split sep s) = s"
proof (induction s)
  case Nil
  show ?case by simp
next
  case (Cons c cs)
  obtain w ws where w: "split sep cs = w # ws"
    by (cases "split sep cs") auto
  with Cons show ?case
    by (cases ws) (auto simp: join_Cons)
qed

lemma split_no_sep: "w \<in> set (split sep s) \<Longrightarrow> sep \<notin> set w"
proof (induction s arbitrary: w)
  case Nil
  then show ?case by simp
next
  case (Cons c cs)
  obtain v vs where v: "split sep cs = v # vs"
    by (cases "split sep cs") auto
  with Cons show ?case
    by (auto split: if_splits)
qed

lemma length_split: "length (split sep s) = Suc (count_list s sep)"
proof (induction s)
  case Nil
  show ?case by simp
next
  case (Cons c cs)
  obtain v vs where v: "split sep cs = v # vs"
    by (cases "split sep cs") auto
  with Cons show ?case by auto
qed

section \<open>Trimming\<close>

lemma trim_Nil [js_simps, simp]: "trim [] = []"
  by (simp add: trim_def trimStart_def trimEnd_def)

lemma set_trimStart_subset: "set (trimStart s) \<subseteq> set s"
  unfolding trimStart_def by (auto dest: set_dropWhileD)

lemma set_trimEnd_subset: "set (trimEnd s) \<subseteq> set s"
  unfolding trimEnd_def using set_dropWhileD [of _ isWhiteSpace "rev s"] by auto

lemma set_trim_subset [js_simps]: "set (trim s) \<subseteq> set s"
  unfolding trim_def using set_trimStart_subset set_trimEnd_subset by blast

lemma trimStart_hd: "trimStart s \<noteq> [] \<Longrightarrow> \<not> isWhiteSpace (hd (trimStart s))"
  unfolding trimStart_def by (metis hd_dropWhile)

lemma trimEnd_last: "trimEnd s \<noteq> [] \<Longrightarrow> \<not> isWhiteSpace (last (trimEnd s))"
  unfolding trimEnd_def by (metis Nil_is_rev_conv hd_dropWhile last_rev)

lemma trimEnd_keeps_hd: "trimEnd s \<noteq> [] \<Longrightarrow> hd (trimEnd s) = hd s"
proof (induction s rule: rev_induct)
  case Nil
  then show ?case by (simp add: trimEnd_def)
next
  case (snoc c s)
  show ?case
  proof (cases "isWhiteSpace c")
    case True
    with snoc have "trimEnd s \<noteq> []" and "trimEnd (s @ [c]) = trimEnd s"
      by (auto simp: trimEnd_def)
    moreover from this have "s \<noteq> []"
      by (auto simp: trimEnd_def)
    ultimately show ?thesis
      using snoc.IH by simp
  next
    case False
    then show ?thesis by (simp add: trimEnd_def)
  qed
qed

lemma trim_no_outer_space:
  assumes "trim s \<noteq> []"
  shows "\<not> isWhiteSpace (hd (trim s)) \<and> \<not> isWhiteSpace (last (trim s))"
proof -
  have ne: "trimStart s \<noteq> []"
    using assms by (auto simp: trim_def trimEnd_def)
  have "hd (trim s) = hd (trimStart s)"
    using assms by (simp add: trim_def trimEnd_keeps_hd)
  then show ?thesis
    using assms trimStart_hd [OF ne] trimEnd_last [of "trimStart s"] by (simp add: trim_def)
qed

lemma trim_idem [js_simps, simp]: "trim (trim s) = trim s"
proof (cases "trim s = []")
  case True
  then show ?thesis by simp
next
  case False
  then obtain c t where t: "trim s = c # t"
    by (cases "trim s") auto
  from trim_no_outer_space [OF False] t have c: "\<not> isWhiteSpace c"
    by simp
  from trim_no_outer_space [OF False] t have l: "\<not> isWhiteSpace (last (c # t))"
    by simp
  have "trimStart (c # t) = c # t"
    using c by (simp add: trimStart_def)
  moreover have "trimEnd (c # t) = c # t"
    using l by (cases "c # t" rule: rev_cases) (auto simp: trimEnd_def)
  ultimately have "trim (c # t) = c # t"
    by (simp add: trim_def)
  then show ?thesis
    by (simp add: t)
qed

lemma trim_no_space: "\<forall>c \<in> set s. \<not> isWhiteSpace c \<Longrightarrow> trim s = s"
proof -
  assume a: "\<forall>c \<in> set s. \<not> isWhiteSpace c"
  then have "trimStart s = s"
    by (cases s) (auto simp: trimStart_def)
  moreover have "trimEnd s = s"
    using a by (cases s rule: rev_cases) (auto simp: trimEnd_def)
  ultimately show ?thesis
    by (simp add: trim_def)
qed

section \<open>Decimal numerals\<close>

lemma show_nat_not_Nil [js_simps, simp]: "show_nat n \<noteq> []"
  by (subst show_nat.simps) simp

lemma digit_char_inj: "a < 10 \<Longrightarrow> b < 10 \<Longrightarrow> digit_char a = digit_char b \<longleftrightarrow> a = b"
  by (auto simp: digit_char_def char_of_eq_iff take_bit_eq_mod)

end
