(* ===== verification/Decimal.thy ===== *)
theory Decimal
  imports JS_Prelude
begin

text \<open>
  Decimal numerals as the components print them into keys: \<open>show_nat\<close> of the prelude
  is the conversion of a non-negative integer to a string that a template literal applies
  (the message keys of \<^verbatim>\<open>src/src/components/ChatWindow.jsx\<close>, line 58, and the preview keys
  of \<^verbatim>\<open>src/src/components/UploadButton.jsx\<close>, line 183). This theory holds the reader
  \<open>read_nat\<close> that takes a numeral back to its number, and the facts that let an index be read
  back from a key: a numeral holds only digits, it is read back to the number it prints,
  and it ends at the first hyphen that follows it.
\<close>

section \<open>Reading a numeral\<close>

definition is_digit :: "char \<Rightarrow> bool" where
  "is_digit c \<longleftrightarrow> 48 \<le> (of_char c :: nat) \<and> (of_char c :: nat) \<le> 57"

definition read_nat :: "js_string \<Rightarrow> nat" where
  "read_nat s = foldl (\<lambda>a c. 10 * a + (of_char c - 48)) 0 s"

section \<open>Printing and reading\<close>

lemma of_char_digit_char: "d < 10 \<Longrightarrow> (of_char (digit_char d) :: nat) = 48 + d"
  by (simp add: digit_char_def of_char_of)

lemma read_nat_snoc [simp]: "read_nat (s @ [c]) = 10 * read_nat s + (of_char c - 48)"
  by (simp add: read_nat_def)

lemma read_show_nat: "read_nat (show_nat n) = n"
proof (induction n rule: show_nat.induct)
  case (1 n)
  show ?case
  proof (cases "n < 10")
    case True
    then show ?thesis
      using read_nat_snoc [of "[]" "digit_char n"]
      by (simp add: show_nat_digit of_char_digit_char) (simp add: read_nat_def)
  next
    case False
    with 1 show ?thesis
      by (simp add: show_nat_step of_char_digit_char)
  qed
qed

lemma show_nat_inj: "show_nat n = show_nat m \<Longrightarrow> n = m"
  by (metis read_show_nat)

lemma show_nat_digits: "c \<in> set (show_nat n) \<Longrightarrow> is_digit c"
proof (induction n rule: show_nat.induct)
  case (1 n)
  show ?case
  proof (cases "n < 10")
    case True
    with 1(2) show ?thesis
      by (simp add: show_nat_digit is_digit_def of_char_digit_char)
  next
    case False
    with 1 show ?thesis
      by (auto simp: show_nat_step is_digit_def of_char_digit_char)
  qed
qed

lemma takeWhile_digits: "takeWhile is_digit (show_nat n @ CHR ''-'' # rest) = show_nat n"
  by (simp add: takeWhile_append2 show_nat_digits) (simp add: is_digit_def)

lemma takeWhile_digits_rev:
  "takeWhile is_digit (rev (pre @ CHR ''-'' # show_nat n)) = rev (show_nat n)"
proof -
  have "is_digit x" if "x \<in> set (rev (show_nat n))" for x
    using that by (simp add: show_nat_digits)
  then have "takeWhile is_digit (rev (show_nat n) @ CHR ''-'' # rev pre) =
      rev (show_nat n) @ takeWhile is_digit (CHR ''-'' # rev pre)"
    by (rule takeWhile_append2)
  then show ?thesis
    by (simp add: is_digit_def)
qed

end
