(* ===== verification/Accept_Filter.thy ===== *)
theory Accept_Filter
  imports JS_Prelude
begin

text \<open>
  The file acceptance filter of \<^verbatim>\<open>src/src/components/UploadButton.jsx\<close>:
  \<^verbatim>\<open>matchesAccept(file, accept)\<close> decides whether a file matches a comma-separated accept
  specification. A browser \<^verbatim>\<open>File\<close> is the record \<open>js_file\<close> of the three
  properties the component reads. The \<^verbatim>\<open>for\<close> loop with its early \<^verbatim>\<open>return true\<close> is
  the recursion \<open>matchesLoop\<close>; its body is \<open>acceptsPattern\<close>. The lemmas relate the loop
  to an existential over the pattern list, describe the three kinds of pattern, and
  record where the filter is wider or narrower than its description.
\<close>

section \<open>Files and patterns\<close>

record js_file =
  file_name :: js_string
  file_type :: js_string
  file_size :: nat

definition acceptList :: "js_string \<Rightarrow> js_string list" where
  "acceptList accept = filter truthy (map trim (split CHR '','' accept))"

definition acceptsPattern :: "js_file \<Rightarrow> js_string \<Rightarrow> bool" where
  "acceptsPattern file a =
     (if startsWith a ''.'' then endsWith (toLowerCase (file_name file)) (toLowerCase a)
      else if endsWith a ''/*'' then startsWith (file_type file) (replace_first ''/*'' [] a)
      else file_type file = a)"

primrec matchesLoop :: "js_file \<Rightarrow> js_string list \<Rightarrow> bool" where
  "matchesLoop file [] = False"
| "matchesLoop file (a # as) = (if acceptsPattern file a then True else matchesLoop file as)"

definition matchesAccept :: "js_file \<Rightarrow> js_string \<Rightarrow> bool" where
  "matchesAccept file accept =
     (if \<not> truthy accept then True else matchesLoop file (acceptList accept))"

lemmas accept_eval [js_eval] = acceptList_def acceptsPattern_def matchesAccept_def

section \<open>The loop against its specification\<close>

lemma matchesLoop_iff: "matchesLoop file as \<longleftrightarrow> (\<exists>a \<in> set as. acceptsPattern file a)"
  by (induction as) auto

lemma matchesLoop_append [simp]:
  "matchesLoop file (as @ bs) \<longleftrightarrow> matchesLoop file as \<or> matchesLoop file bs"
  by (auto simp: matchesLoop_iff)

text \<open>
  C3. A file matches an accept specification exactly when the specification is empty or
  one of its patterns (the trimmed, non-empty pieces between the commas) accepts the
  file: the loop with its early return is a disjunction over the pattern list.
\<close>

theorem matchesAccept_iff:
  "matchesAccept file accept \<longleftrightarrow>
     accept = [] \<or> (\<exists>a \<in> set (acceptList accept). acceptsPattern file a)"
  by (simp add: matchesAccept_def matchesLoop_iff truthy_def)

section \<open>The pattern list\<close>

lemma split_append_sep: "split sep (s @ sep # t) = split sep s @ split sep t"
proof (induction s)
  case Nil
  show ?case by simp
next
  case (Cons c s)
  obtain w ws where "split sep s = w # ws"
    by (cases "split sep s") auto
  with Cons show ?case by auto
qed

lemma acceptList_append:
  "acceptList (s @ CHR '','' # t) = acceptList s @ acceptList t"
  by (simp add: acceptList_def split_append_sep)

lemma acceptList_Nil [simp]: "acceptList [] = []"
  by (simp add: acceptList_def truthy_def)

text \<open>
  Every pattern of the list is non-empty, has no white space at either end and holds
  no comma.
\<close>

theorem acceptList_wellformed:
  assumes "a \<in> set (acceptList accept)"
  shows "a \<noteq> [] \<and> \<not> isWhiteSpace (hd a) \<and> \<not> isWhiteSpace (last a) \<and> CHR '','' \<notin> set a"
proof -
  from assms obtain w where w: "w \<in> set (split CHR '','' accept)" and a: "a = trim w" and ne: "a \<noteq> []"
    by (auto simp: acceptList_def truthy_def)
  from w have "CHR '','' \<notin> set w"
    by (rule split_no_sep)
  moreover have "set (trim w) \<subseteq> set w"
    by (rule set_trim_subset)
  ultimately have "CHR '','' \<notin> set a"
    using a by auto
  with trim_no_outer_space [of w] a ne show ?thesis
    by simp
qed

theorem acceptList_wellformed_witness:
  "''.txt'' \<in> set (acceptList '' .pdf , .txt'') \<and>
   (''.txt'' \<noteq> [] \<and> \<not> isWhiteSpace (hd ''.txt'') \<and> \<not> isWhiteSpace (last ''.txt'') \<and>
    CHR '','' \<notin> set ''.txt'')"
proof -
  have h: "''.txt'' \<in> set (acceptList '' .pdf , .txt'')"
    by (simp add: js_eval)
  from acceptList_wellformed [OF h] h show ?thesis
    by simp
qed

section \<open>The three kinds of pattern\<close>

lemma acceptsPattern_extension:
  "acceptsPattern file (CHR ''.'' # e) \<longleftrightarrow>
     endsWith (toLowerCase (file_name file)) (CHR ''.'' # toLowerCase e)"
  by (simp add: acceptsPattern_def lower_char_def)

lemma replace_wildcard:
  assumes "\<not> (\<exists>u v. p @ ''/'' = u @ ''/*'' @ v)"
  shows "replace_first ''/*'' [] (p @ ''/*'') = p"
  using replace_first_at [of p "''/*''" "[]" "[]"] assms by simp

lemma acceptsPattern_wildcard:
  assumes "\<not> startsWith p ''.''" and "\<not> (\<exists>u v. p @ ''/'' = u @ ''/*'' @ v)"
  shows "acceptsPattern file (p @ ''/*'') \<longleftrightarrow> startsWith (file_type file) p"
proof -
  have "\<not> startsWith (p @ ''/*'') ''.''"
    using assms(1) by (cases p) auto
  then show ?thesis
    using replace_wildcard [OF assms(2)] by (simp add: acceptsPattern_def)
qed

lemma acceptsPattern_exact:
  assumes "\<not> startsWith a ''.''" and "\<not> endsWith a ''/*''"
  shows "acceptsPattern file a \<longleftrightarrow> file_type file = a"
  using assms by (simp add: acceptsPattern_def)

text \<open>
  A pattern that starts with a dot accepts a file whose name ends in the pattern,
  whatever the case of either: \<^verbatim>\<open>doc.PDF\<close> matches \<^verbatim>\<open>.pdf,.txt\<close>.
\<close>

theorem matchesAccept_extension:
  assumes "CHR ''.'' # e \<in> set (acceptList accept)"
    and "endsWith (toLowerCase (file_name file)) (toLowerCase (CHR ''.'' # e))"
  shows "matchesAccept file accept"
proof -
  have "acceptsPattern file (CHR ''.'' # e)"
    using assms(2) by (simp add: acceptsPattern_def)
  with assms(1) show ?thesis
    by (auto simp: matchesAccept_iff)
qed

theorem matchesAccept_extension_witness:
  "CHR ''.'' # ''pdf'' \<in> set (acceptList ''.pdf,.txt'') \<and>
   endsWith (toLowerCase (file_name \<lparr>file_name = ''doc.PDF'', file_type = ''application/pdf'',
       file_size = 10\<rparr>)) (toLowerCase (CHR ''.'' # ''pdf'')) \<and>
   matchesAccept \<lparr>file_name = ''doc.PDF'', file_type = ''application/pdf'', file_size = 10\<rparr>
     ''.pdf,.txt''"
proof -
  have h1: "CHR ''.'' # ''pdf'' \<in> set (acceptList ''.pdf,.txt'')"
    by (simp add: js_eval)
  have h2: "endsWith (toLowerCase (file_name \<lparr>file_name = ''doc.PDF'',
      file_type = ''application/pdf'', file_size = 10\<rparr>)) (toLowerCase (CHR ''.'' # ''pdf''))"
    by (simp add: js_eval)
  from matchesAccept_extension [OF h1 h2] h1 h2 show ?thesis
    by simp
qed

text \<open>
  C33. A specification that consists of one wildcard pattern \<^verbatim>\<open>p/*\<close> (with \<^verbatim>\<open>/*\<close>
  occurring only at its end) accepts exactly the files whose MIME type starts with \<open>p\<close>.
  The slash is not part of the prefix that is compared, so \<^verbatim>\<open>image/*\<close> also accepts a
  type whose first part merely begins with \<^verbatim>\<open>image\<close>, and the pattern \<^verbatim>\<open>/*\<close> alone
  accepts every file.
\<close>

theorem matchesAccept_wildcard:
  assumes "acceptList accept = [p @ ''/*'']" and "accept \<noteq> []"
    and "\<not> startsWith p ''.''" and "\<not> (\<exists>u v. p @ ''/'' = u @ ''/*'' @ v)"
  shows "matchesAccept file accept \<longleftrightarrow> startsWith (file_type file) p"
  using assms by (simp add: matchesAccept_iff acceptsPattern_wildcard)

lemma no_wildcard_in_image: "\<not> (\<exists>u v. ''image'' @ ''/'' = u @ ''/*'' @ v)"
proof
  assume "\<exists>u v. ''image'' @ ''/'' = u @ ''/*'' @ v"
  then obtain u v where e: "''image/'' = u @ ''/*'' @ v"
    by auto
  have "CHR ''*'' \<in> set (u @ ''/*'' @ v)"
    by simp
  then have "CHR ''*'' \<in> set ''image/''"
    using e by simp
  then show False
    by simp
qed

lemma no_wildcard_in_slash: "\<not> (\<exists>u v. [] @ ''/'' = u @ ''/*'' @ v)"
proof
  assume "\<exists>u v. [] @ ''/'' = u @ ''/*'' @ v"
  then obtain u v where e: "''/'' = u @ ''/*'' @ v"
    by auto
  have "CHR ''*'' \<in> set (u @ ''/*'' @ v)"
    by simp
  then have "CHR ''*'' \<in> set ''/''"
    using e by simp
  then show False
    by simp
qed

theorem matchesAccept_wildcard_witness:
  "acceptList ''image/*'' = [''image'' @ ''/*''] \<and>
   matchesAccept \<lparr>file_name = ''a.png'', file_type = ''image/png'', file_size = 500\<rparr> ''image/*'' \<and>
   matchesAccept \<lparr>file_name = ''x'', file_type = ''imagery/x-fake'', file_size = 1\<rparr> ''image/*'' \<and>
   \<not> matchesAccept \<lparr>file_name = ''a.png'', file_type = ''text/plain'', file_size = 1\<rparr> ''image/*'' \<and>
   matchesAccept \<lparr>file_name = ''a.txt'', file_type = ''text/plain'', file_size = 1\<rparr> ''/*''"
proof -
  have h1: "acceptList ''image/*'' = [''image'' @ ''/*'']"
    and g1: "acceptList ''/*'' = [[] @ ''/*'']"
    by (simp_all add: js_eval)
  have h2: "''image/*'' \<noteq> []" and h3: "\<not> startsWith ''image'' ''.''"
    and g2: "''/*'' \<noteq> []" and g3: "\<not> startsWith [] ''.''"
    by simp_all
  note w = matchesAccept_wildcard [OF h1 h2 h3 no_wildcard_in_image]
  from w [of "\<lparr>file_name = ''a.png'', file_type = ''image/png'', file_size = 500\<rparr>"]
    w [of "\<lparr>file_name = ''x'', file_type = ''imagery/x-fake'', file_size = 1\<rparr>"]
    w [of "\<lparr>file_name = ''a.png'', file_type = ''text/plain'', file_size = 1\<rparr>"]
    matchesAccept_wildcard [OF g1 g2 g3 no_wildcard_in_slash,
      of "\<lparr>file_name = ''a.txt'', file_type = ''text/plain'', file_size = 1\<rparr>"]
    h1
  show ?thesis by simp
qed

section \<open>A specification without patterns\<close>

text \<open>
  A specification that is not empty but yields no pattern, such as one of white space
  or commas only, rejects every file: the guard of line 13 only lets the empty
  specification through.
\<close>

lemma matchesAccept_no_pattern:
  "accept \<noteq> [] \<Longrightarrow> acceptList accept = [] \<Longrightarrow> \<not> matchesAccept file accept"
  by (simp add: matchesAccept_def truthy_def)

text \<open>
  Adding patterns to a non-empty specification never turns an accepted file into a
  rejected one.
\<close>

theorem matchesAccept_mono:
  assumes "matchesAccept file accept" and "accept \<noteq> []"
  shows "matchesAccept file (accept @ CHR '','' # rest)"
  using assms by (simp add: matchesAccept_def acceptList_append truthy_def)

theorem matchesAccept_mono_witness:
  "matchesAccept \<lparr>file_name = ''a.txt'', file_type = ''text/plain'', file_size = 1\<rparr> ''.txt'' \<and>
   ''.txt'' \<noteq> [] \<and>
   matchesAccept \<lparr>file_name = ''a.txt'', file_type = ''text/plain'', file_size = 1\<rparr>
     (''.txt'' @ CHR '','' # ''image/*'')"
proof -
  have h1: "matchesAccept \<lparr>file_name = ''a.txt'', file_type = ''text/plain'', file_size = 1\<rparr> ''.txt''"
    by (simp add: js_eval)
  have h2: "''.txt'' \<noteq> []"
    by simp
  from matchesAccept_mono [OF h1 h2] h1 show ?thesis
    by simp
qed

end
