(* ===== verification/Human_Size.thy ===== *)
theory Human_Size
  imports JS_Prelude
begin

text \<open>
  The size formatter \<^verbatim>\<open>humanFileSize(bytes)\<close> of
  \<^verbatim>\<open>src/src/components/UploadButton.jsx\<close> (lines 5 to 10). Its argument is a file size
  or the \<^verbatim>\<open>maxSize\<close> prop, a number whose default is \<^verbatim>\<open>Infinity\<close>: sizes are \<^typ>\<open>nat\<close>,
  the limit is \<^typ>\<open>enat\<close>. A limit that is negative, fractional or \<^verbatim>\<open>NaN\<close> has no value in
  the model.

  The source computes with IEEE doubles. The model computes with natural numbers and
  follows the doubles for every size below \<open>2\<^sup>5\<^sup>3\<close>, the range on which a size is a
  double; it makes no statement about larger sizes.
  \<^item> \<open>logIndex\<close> is the value of \<^verbatim>\<open>Math.floor(Math.log(bytes) / Math.log(1024))\<close>. The
    two logarithms are rounded and so is their quotient, and the quotient is what is
    floored. For the three sizes \<open>2\<^sup>5\<^sup>0 - 3\<close>, \<open>2\<^sup>5\<^sup>0 - 2\<close> and \<open>2\<^sup>5\<^sup>0 - 1\<close> the exact
    quotient is less than half a unit in the last place below 5, the rounded quotient
    is 5, and the index is 5 although the size is below \<open>1024\<^sup>5\<close>. For every other
    size below \<open>2\<^sup>5\<^sup>3\<close> the rounded quotient has the floor of the exact one, which is
    the integer logarithm \<open>floor_log1024\<close> (repeated division): below \<open>1024\<^sup>4\<close> the exact
    quotient stays more than two hundred units in the last place away from the next
    integer, and for the sizes next to a power of 1024 the double computation was evaluated,
    with the logarithm of fdlibm, which V8 and SpiderMonkey use, and with that of the C
    library; both give the same index on every size.
  \<^item> \<^verbatim>\<open>bytes / Math.pow(1024, i)\<close> divides by a power of two and is exact for a size
    below \<open>2\<^sup>5\<^sup>3\<close>; \<^verbatim>\<open>toFixed(2)\<close> picks the integer \<open>n\<close> with \<open>n / 100\<close> nearest to
    the exact quotient, the larger one on a tie. \<open>toFixed2 num den\<close> is that numeral for
    the quotient \<open>num / den\<close>.
  \<^item> \<^verbatim>\<open>units[i]\<close> beyond the table is \<^verbatim>\<open>undefined\<close>, which a template literal prints
    as the word.
\<close>

section \<open>Definitions\<close>

fun floor_log1024 :: "nat \<Rightarrow> nat" where
  "floor_log1024 n = (if n < 1024 then 0 else Suc (floor_log1024 (n div 1024)))"

declare floor_log1024.simps [simp del]

definition logIndex :: "nat \<Rightarrow> nat" where
  "logIndex bytes =
     (if 1024 ^ 5 - 3 \<le> bytes \<and> bytes < 1024 ^ 5 then 5 else floor_log1024 bytes)"

definition units :: "js_string list" where
  "units = [''B'', ''KB'', ''MB'', ''GB'', ''TB'']"

definition unit_at :: "nat \<Rightarrow> js_string" where
  "unit_at i = (if i < length units then units ! i else ''undefined'')"

definition scaled2 :: "nat \<Rightarrow> nat \<Rightarrow> nat" where
  "scaled2 num den = (200 * num + den) div (2 * den)"

definition pad2 :: "nat \<Rightarrow> js_string" where
  "pad2 k = [digit_char (k div 10), digit_char (k mod 10)]"

definition toFixed2 :: "nat \<Rightarrow> nat \<Rightarrow> js_string" where
  "toFixed2 num den =
     (let n = scaled2 num den in show_nat (n div 100) @ ''.'' @ pad2 (n mod 100))"

definition humanFileSize :: "nat \<Rightarrow> js_string" where
  "humanFileSize bytes =
     (if bytes = 0 then ''0 B''
      else let i = logIndex bytes
           in toFixed2 bytes (1024 ^ i) @ '' '' @ unit_at i)"

definition humanFileSize_ext :: "enat \<Rightarrow> js_string" where
  "humanFileSize_ext m = (case m of enat n \<Rightarrow> humanFileSize n | \<infinity> \<Rightarrow> ''NaN undefined'')"

section \<open>Evaluation\<close>

lemma floor_log1024_small [js_eval]: "n < 1024 \<Longrightarrow> floor_log1024 n = 0"
  by (simp add: floor_log1024.simps)

lemma floor_log1024_step [js_eval]:
  "1024 \<le> n \<Longrightarrow> floor_log1024 n = Suc (floor_log1024 (n div 1024))"
  by (subst floor_log1024.simps) simp

lemmas human_size_eval [js_eval] =
  logIndex_def units_def unit_at_def scaled2_def pad2_def toFixed2_def humanFileSize_def humanFileSize_ext_def

section \<open>The index of the unit\<close>

lemma floor_log1024_bounds:
  "0 < n \<Longrightarrow> 1024 ^ floor_log1024 n \<le> n \<and> n < 1024 ^ Suc (floor_log1024 n)"
proof (induction n rule: floor_log1024.induct)
  case (1 n)
  show ?case
  proof (cases "n < 1024")
    case True
    with "1.prems" show ?thesis
      by (simp add: floor_log1024_small)
  next
    case False
    then have pos: "0 < n div 1024"
      by (simp add: div_greater_zero_iff)
    from "1.IH" [OF False pos]
    have lo: "1024 ^ floor_log1024 (n div 1024) \<le> n div 1024"
      and hi: "n div 1024 < 1024 ^ Suc (floor_log1024 (n div 1024))"
      by simp_all
    from lo have "1024 * 1024 ^ floor_log1024 (n div 1024) \<le> 1024 * (n div 1024)"
      by simp
    also have "\<dots> \<le> n"
      by simp
    finally have a: "1024 ^ Suc (floor_log1024 (n div 1024)) \<le> n"
      by simp
    from hi have "n < 1024 * 1024 ^ Suc (floor_log1024 (n div 1024))"
      by (simp add: less_mult_imp_div_less mult.commute)
    with a False show ?thesis
      by (simp add: floor_log1024_step)
  qed
qed

lemma floor_log1024_unique:
  assumes "1024 ^ k \<le> n" and "n < 1024 ^ Suc k"
  shows "floor_log1024 n = k"
proof -
  have pos: "0 < n"
    using assms(1) by (metis gr0I not_less zero_less_numeral zero_less_power)
  from floor_log1024_bounds [OF pos]
  have lo: "(1024::nat) ^ floor_log1024 n \<le> n" and hi: "n < 1024 ^ Suc (floor_log1024 n)"
    by simp_all
  have "(1024::nat) ^ k < 1024 ^ Suc (floor_log1024 n)"
    using assms(1) hi by (rule le_less_trans)
  then have a: "k < Suc (floor_log1024 n)"
    by (rule power_less_imp_less_exp [rotated]) simp
  have "(1024::nat) ^ floor_log1024 n < 1024 ^ Suc k"
    using lo assms(2) by (rule le_less_trans)
  then have "floor_log1024 n < Suc k"
    by (rule power_less_imp_less_exp [rotated]) simp
  with a show ?thesis
    by simp
qed

lemma logIndex_exact:
  "bytes < 1024 ^ 5 - 3 \<or> 1024 ^ 5 \<le> bytes \<Longrightarrow> logIndex bytes = floor_log1024 bytes"
  by (auto simp: logIndex_def)

lemma logIndex_rounded:
  "1024 ^ 5 - 3 \<le> bytes \<Longrightarrow> bytes < 1024 ^ 5 \<Longrightarrow> logIndex bytes = 5"
  by (simp add: logIndex_def)

lemma floor_log1024_less:
  assumes "0 < bytes"
  shows "floor_log1024 bytes < k \<longleftrightarrow> bytes < 1024 ^ k"
proof
  assume "floor_log1024 bytes < k"
  then have "Suc (floor_log1024 bytes) \<le> k" by simp
  then have "(1024::nat) ^ Suc (floor_log1024 bytes) \<le> 1024 ^ k"
    by (intro power_increasing) simp_all
  with floor_log1024_bounds [OF assms] show "bytes < 1024 ^ k" by simp
next
  assume "bytes < 1024 ^ k"
  moreover from floor_log1024_bounds [OF assms] have "(1024::nat) ^ floor_log1024 bytes \<le> bytes"
    by simp
  ultimately have "(1024::nat) ^ floor_log1024 bytes < 1024 ^ k"
    by (rule le_less_trans [rotated])
  then show "floor_log1024 bytes < k"
    by (rule power_less_imp_less_exp [rotated]) simp
qed

section \<open>Rounding to two decimals\<close>

lemma scaled2_nearest:
  assumes "0 < den"
  shows "2 * den * scaled2 num den \<le> 200 * num + den \<and>
         200 * num + den < 2 * den * Suc (scaled2 num den)"
proof -
  have "2 * den * ((200 * num + den) div (2 * den)) \<le> 200 * num + den"
    by simp
  moreover have "200 * num + den < 2 * den * Suc ((200 * num + den) div (2 * den))"
    using assms by (metis dividend_less_times_div mult_Suc_right add.commute mult_pos_pos zero_less_numeral)
  ultimately show ?thesis
    by (simp add: scaled2_def)
qed

lemma scaled2_range:
  assumes "0 < den" and "den \<le> num" and "num < 1024 * den"
  shows "100 \<le> scaled2 num den \<and> scaled2 num den \<le> 102400"
proof -
  have "100 * (2 * den) \<le> 200 * num + den"
    using assms(2) by simp
  then have lo: "100 \<le> scaled2 num den"
    unfolding scaled2_def using assms(1) by (simp add: less_eq_div_iff_mult_less_eq)
  have "200 * num + den < 102401 * (2 * den)"
    using assms(3) by simp
  then have "scaled2 num den < 102401"
    unfolding scaled2_def using assms(1) by (simp add: div_less_iff_less_mult)
  with lo show ?thesis
    by simp
qed

lemma length_pad2 [simp]: "length (pad2 k) = 2"
  by (simp add: pad2_def)

lemma toFixed2_shape:
  "toFixed2 num den = show_nat (scaled2 num den div 100) @ CHR ''.'' # pad2 (scaled2 num den mod 100)"
  by (simp add: toFixed2_def Let_def)

section \<open>The formatted size\<close>

lemma humanFileSize_pos:
  "0 < bytes \<Longrightarrow>
   humanFileSize bytes = toFixed2 bytes (1024 ^ logIndex bytes) @ '' '' @ unit_at (logIndex bytes)"
  by (simp add: humanFileSize_def Let_def)

lemma humanFileSize_not_Nil [simp]: "humanFileSize bytes \<noteq> []"
  by (simp add: humanFileSize_def Let_def)

lemma humanFileSize_rounded:
  assumes "1024 ^ 5 - 3 \<le> bytes" and "bytes < 1024 ^ 5"
  shows "humanFileSize bytes = ''1.00 undefined''"
proof -
  from assms have "bytes = 1024 ^ 5 - 3 \<or> bytes = 1024 ^ 5 - 2 \<or> bytes = 1024 ^ 5 - 1"
    by auto
  then show ?thesis
    by (elim disjE) (simp_all add: js_eval)
qed

text \<open>
  C31. For a positive size below \<open>1024\<^sup>5 - 3\<close> the number printed is the size divided by
  \<open>1024\<^sup>i\<close>, where \<open>i\<close> is the integer logarithm of the size, rounded to the nearest
  hundredth (half up), and it lies between 1.00 and 1024.00: the scaled value \<open>n\<close>
  satisfies \<open>|n / 100 - bytes / 1024\<^sup>i| \<le> 1 / 200\<close> and \<open>100 \<le> n \<le> 102400\<close>. The upper
  end is reached: a size just below a power of 1024 prints as 1024.00 of the smaller unit.
\<close>

theorem humanFileSize_mantissa:
  assumes "0 < bytes" and "bytes < 1024 ^ 5 - 3"
  shows "\<exists>n. humanFileSize bytes =
            show_nat (n div 100) @ CHR ''.'' # pad2 (n mod 100) @ '' '' @ unit_at (floor_log1024 bytes) \<and>
          2 * 1024 ^ floor_log1024 bytes * n \<le> 200 * bytes + 1024 ^ floor_log1024 bytes \<and>
          200 * bytes + 1024 ^ floor_log1024 bytes < 2 * 1024 ^ floor_log1024 bytes * Suc n \<and>
          100 \<le> n \<and> n \<le> 102400"
proof -
  let ?d = "(1024::nat) ^ floor_log1024 bytes"
  have d: "0 < ?d"
    by simp
  from floor_log1024_bounds [OF assms(1)] have b: "?d \<le> bytes" "bytes < 1024 * ?d"
    by simp_all
  from assms(2) have i: "logIndex bytes = floor_log1024 bytes"
    by (simp add: logIndex_exact)
  show ?thesis
    using scaled2_nearest [OF d, of bytes] scaled2_range [OF d b]
    by (intro exI [of _ "scaled2 bytes ?d"]) (simp add: humanFileSize_pos [OF assms(1)] i toFixed2_shape)
qed

theorem humanFileSize_mantissa_witness:
  "(0::nat) < 1048575 \<and> (1048575::nat) < 1024 ^ 5 - 3 \<and> humanFileSize 1048575 = ''1024.00 KB'' \<and>
   humanFileSize 1536 = ''1.50 KB'' \<and> humanFileSize 500 = ''500.00 B'' \<and>
   humanFileSize 0 = ''0 B'' \<and> humanFileSize 1048576 = ''1.00 MB'' \<and>
   humanFileSize (1024 ^ 5 - 4) = ''1024.00 TB''"
proof -
  have h: "(0::nat) < 1048575" "(1048575::nat) < 1024 ^ 5 - 3"
    by simp_all
  from humanFileSize_mantissa [OF h] show ?thesis
    by (simp add: js_eval)
qed

text \<open>
  C32. A positive size below \<open>1024\<^sup>5 - 3\<close> is printed with one of the five units of the
  table. From \<open>1024\<^sup>5 - 3\<close> on the unit printed is the word \<^verbatim>\<open>undefined\<close>: the table ends
  at TB, and for the three sizes just below \<open>1024\<^sup>5\<close> the rounded quotient of the
  logarithms is already 5, so that they print as \<^verbatim>\<open>1.00 undefined\<close>.
\<close>

theorem humanFileSize_unit:
  assumes "0 < bytes"
  shows "(bytes < 1024 ^ 5 - 3 \<longrightarrow>
            unit_at (logIndex bytes) \<in> set units \<and>
            humanFileSize bytes = toFixed2 bytes (1024 ^ floor_log1024 bytes) @ '' '' @
              units ! floor_log1024 bytes) \<and>
         (1024 ^ 5 - 3 \<le> bytes \<longrightarrow>
            unit_at (logIndex bytes) = ''undefined'' \<and>
            humanFileSize bytes = toFixed2 bytes (1024 ^ logIndex bytes) @ '' undefined'') \<and>
         (1024 ^ 5 - 3 \<le> bytes \<and> bytes < 1024 ^ 5 \<longrightarrow> humanFileSize bytes = ''1.00 undefined'')"
proof (intro conjI impI)
  assume lt: "bytes < 1024 ^ 5 - 3"
  then have i: "logIndex bytes = floor_log1024 bytes"
    by (simp add: logIndex_exact)
  from lt have "bytes < 1024 ^ 5" by simp
  with floor_log1024_less [OF assms, of 5] have f: "floor_log1024 bytes < 5" by simp
  then have l: "floor_log1024 bytes < length units"
    by (simp add: units_def)
  then show "unit_at (logIndex bytes) \<in> set units"
    by (simp add: i unit_at_def)
  from l show "humanFileSize bytes =
      toFixed2 bytes (1024 ^ floor_log1024 bytes) @ '' '' @ units ! floor_log1024 bytes"
    by (simp add: humanFileSize_pos [OF assms] i unit_at_def)
next
  assume ge: "1024 ^ 5 - 3 \<le> bytes"
  have f: "5 \<le> logIndex bytes"
  proof (cases "bytes < 1024 ^ 5")
    case True
    with ge show ?thesis by (simp add: logIndex_rounded)
  next
    case False
    with floor_log1024_less [OF assms, of 5] show ?thesis
      by (simp add: logIndex_exact)
  qed
  then show "unit_at (logIndex bytes) = ''undefined''"
    by (simp add: unit_at_def units_def)
  with humanFileSize_pos [OF assms]
  show "humanFileSize bytes = toFixed2 bytes (1024 ^ logIndex bytes) @ '' undefined''"
    by simp
next
  assume "1024 ^ 5 - 3 \<le> bytes \<and> bytes < 1024 ^ 5"
  then show "humanFileSize bytes = ''1.00 undefined''"
    by (simp add: humanFileSize_rounded)
qed

theorem humanFileSize_unit_witness:
  "(0::nat) < 1024 ^ 5 - 1 \<and> humanFileSize (1024 ^ 5 - 1) = ''1.00 undefined'' \<and>
   humanFileSize (1024 ^ 5 - 3) = ''1.00 undefined'' \<and>
   humanFileSize (1024 ^ 5 - 4) = ''1024.00 TB'' \<and>
   humanFileSize (1024 ^ 5) = ''1.00 undefined'' \<and>
   humanFileSize (2 ^ 53 - 1) = ''8.00 undefined''"
proof -
  have h: "(0::nat) < 1024 ^ 5 - 1"
    by simp
  from humanFileSize_unit [OF h] show ?thesis
    by (simp add: js_eval)
qed

lemma humanFileSize_ext_enat [simp]: "humanFileSize_ext (enat n) = humanFileSize n"
  by (simp add: humanFileSize_ext_def)

lemma humanFileSize_ext_infinity [simp]: "humanFileSize_ext \<infinity> = ''NaN undefined''"
  by (simp add: humanFileSize_ext_def)

end
