(* ===== verification/Object_URLs.thy ===== *)
theory Object_URLs
  imports JS_Prelude
begin

text \<open>
  The browser's table of object URLs, as far as the upload component can observe it.
  \<^verbatim>\<open>URL.createObjectURL(file)\<close> returns a URL that no earlier call returned and keeps
  the file alive until \<^verbatim>\<open>URL.revokeObjectURL(url)\<close> is called; revoking a URL that is
  not live has no effect. A URL is identified by a number; the table records the next
  number to hand out, the live URLs, and every call of \<^verbatim>\<open>revokeObjectURL\<close> with its
  multiplicity, so that "released exactly once" is a statement about \<open>count\<close>.
  This is the interface between the browser and \<open>Upload_Button\<close>: the component's
  lemmas use only the facts proved here.
\<close>

section \<open>The table and its two operations\<close>

type_synonym url = nat

record url_store =
  fresh :: url
  live :: "url set"
  revoked :: "url multiset"

definition empty_store :: url_store where
  "empty_store = \<lparr>fresh = 0, live = {}, revoked = {#}\<rparr>"

definition createObjectURL :: "url_store \<Rightarrow> url \<times> url_store" where
  "createObjectURL st = (fresh st, st\<lparr>fresh := Suc (fresh st), live := insert (fresh st) (live st)\<rparr>)"

definition revokeObjectURL :: "url \<Rightarrow> url_store \<Rightarrow> url_store" where
  "revokeObjectURL u st = st\<lparr>live := live st - {u}, revoked := add_mset u (revoked st)\<rparr>"

definition store_ok :: "url_store \<Rightarrow> bool" where
  "store_ok st \<longleftrightarrow> finite (live st) \<and> (\<forall>u \<in> live st. u < fresh st) \<and> (\<forall>u \<in># revoked st. u < fresh st)"

lemmas url_eval [js_eval] = empty_store_def createObjectURL_def revokeObjectURL_def

section \<open>Facts for the clients\<close>

lemma store_ok_empty [simp]: "store_ok empty_store"
  by (simp add: store_ok_def empty_store_def)

lemma create_fields [simp]:
  "fst (createObjectURL st) = fresh st"
  "fresh (snd (createObjectURL st)) = Suc (fresh st)"
  "live (snd (createObjectURL st)) = insert (fresh st) (live st)"
  "revoked (snd (createObjectURL st)) = revoked st"
  by (simp_all add: createObjectURL_def)

lemma revoke_fields [simp]:
  "fresh (revokeObjectURL u st) = fresh st"
  "live (revokeObjectURL u st) = live st - {u}"
  "revoked (revokeObjectURL u st) = add_mset u (revoked st)"
  by (simp_all add: revokeObjectURL_def)

lemma store_ok_create: "store_ok st \<Longrightarrow> store_ok (snd (createObjectURL st))"
  by (auto simp: store_ok_def less_Suc_eq)

lemma store_ok_revoke: "store_ok st \<Longrightarrow> u < fresh st \<Longrightarrow> store_ok (revokeObjectURL u st)"
  by (auto simp: store_ok_def)

lemma create_is_fresh: "store_ok st \<Longrightarrow> fst (createObjectURL st) \<notin> live st"
  by (auto simp: store_ok_def)

lemma create_never_revoked: "store_ok st \<Longrightarrow> count (revoked st) (fst (createObjectURL st)) = 0"
  by (auto simp: store_ok_def count_eq_zero_iff)

lemma revoke_create_roundtrip:
  "store_ok st \<Longrightarrow> live (revokeObjectURL (fst (createObjectURL st)) (snd (createObjectURL st))) = live st"
  by (auto simp: store_ok_def)

end
