(* ===== verification/Upload_Button.thy ===== *)
theory Upload_Button
  imports Accept_Filter Human_Size Object_URLs
begin

text \<open>
  The upload component of \<^verbatim>\<open>src/src/components/UploadButton.jsx\<close> (lines 29 to 132):
  its props, its three state variables and every handler that changes them.

  \<^item> \<open>upload_props\<close> are the props a handler reads (\<^verbatim>\<open>onUpload\<close> is the output
    \<open>upload_call\<close> of a handler, the labels and the class name are presentation);
    \<open>default_props\<close> are the defaults of the destructuring pattern.
  \<^item> \<open>upload_state\<close> is \<^verbatim>\<open>dragActive\<close>, \<^verbatim>\<open>selected\<close> and \<^verbatim>\<open>errors\<close>; a handler
    runs on the state of the render that created it, which is the current state, and
    on the browser's URL table (\<open>Object_URLs\<close>). A configuration \<open>upload_conf\<close> is
    the pair of both.
  \<^item> \<^verbatim>\<open>handleFiles\<close> is composed as in the source: the \<^verbatim>\<open>forEach\<close> that fills
    \<^verbatim>\<open>validFiles\<close> and \<^verbatim>\<open>errs\<close> (\<open>partitionFiles\<close> over \<open>validate\<close>), the \<^verbatim>\<open>map\<close>
    that creates the preview URLs (\<open>makePreviews\<close>), the \<^verbatim>\<open>slice\<close>, the \<^verbatim>\<open>forEach\<close>
    that revokes the previous URLs (\<open>revokeAll\<close>), and the callback.
  \<^item> \<open>upload_step\<close> dispatches the events of the component; \<open>upload_run\<close> runs a
    list of them; \<open>upload_reachable\<close> are the configurations a user can reach, with the
    guards under which the elements that raise the events are rendered and enabled.
  The hidden input's own value (reset by \<^verbatim>\<open>clearSelection\<close>) belongs to the DOM and is
  not part of the state.
\<close>

section \<open>Props and state\<close>

record upload_props =
  multiple :: bool
  accept :: js_string
  maxSize :: enat
  showPreviews :: bool
  disabled :: bool

definition default_props :: upload_props where
  "default_props =
     \<lparr>multiple = False, accept = [], maxSize = \<infinity>, showPreviews = True, disabled = False\<rparr>"

record preview_item =
  item_file :: js_file
  previewUrl :: "url option"

record upload_state =
  dragActive :: bool
  selected :: "preview_item list"
  errors :: "js_string list"

definition init_upload :: upload_state where
  "init_upload = \<lparr>dragActive = False, selected = [], errors = []\<rparr>"

type_synonym upload_conf = "upload_state \<times> url_store"

datatype upload_call = NoCall | CallOne js_file | CallMany "js_file list"

section \<open>Validation of one file and of a file list\<close>

definition validate :: "upload_props \<Rightarrow> js_file \<Rightarrow> js_string option" where
  "validate p file =
     (if \<not> matchesAccept file (accept p) then Some (file_name file @ '': unsupported file type'')
      else if maxSize p < enat (file_size file)
      then Some (file_name file @ '': too large ('' @ humanFileSize (file_size file) @ '' > '' @
                 humanFileSize_ext (maxSize p) @ '')'')
      else None)"

primrec partitionFiles :: "upload_props \<Rightarrow> js_file list \<Rightarrow> js_file list \<times> js_string list" where
  "partitionFiles p [] = ([], [])"
| "partitionFiles p (file # files) =
     (case validate p file of
        None \<Rightarrow> (file # fst (partitionFiles p files), snd (partitionFiles p files))
      | Some err \<Rightarrow> (fst (partitionFiles p files), err # snd (partitionFiles p files)))"

section \<open>Preview URLs\<close>

definition isImage :: "js_file \<Rightarrow> bool" where
  "isImage f \<longleftrightarrow> startsWith (file_type f) ''image/''"

primrec makePreviews :: "bool \<Rightarrow> js_file list \<Rightarrow> url_store \<Rightarrow> preview_item list \<times> url_store" where
  "makePreviews sp [] st = ([], st)"
| "makePreviews sp (f # fs) st =
     (if sp \<and> isImage f
      then (\<lparr>item_file = f, previewUrl = Some (fst (createObjectURL st))\<rparr>
              # fst (makePreviews sp fs (snd (createObjectURL st))),
            snd (makePreviews sp fs (snd (createObjectURL st))))
      else (\<lparr>item_file = f, previewUrl = None\<rparr> # fst (makePreviews sp fs st),
            snd (makePreviews sp fs st)))"

primrec revokeAll :: "preview_item list \<Rightarrow> url_store \<Rightarrow> url_store" where
  "revokeAll [] st = st"
| "revokeAll (s # ss) st =
     revokeAll ss (case previewUrl s of None \<Rightarrow> st | Some u \<Rightarrow> revokeObjectURL u st)"

definition urls :: "preview_item list \<Rightarrow> url list" where
  "urls items = List.map_filter previewUrl items"

section \<open>The handlers\<close>

definition clearSelection :: "upload_conf \<Rightarrow> upload_conf" where
  "clearSelection c =
     (fst c\<lparr>selected := [], errors := []\<rparr>, revokeAll (selected (fst c)) (snd c))"

definition upload_callback :: "upload_props \<Rightarrow> js_file list \<Rightarrow> upload_call" where
  "upload_callback p validFiles =
     (if validFiles \<noteq> []
      then (if multiple p then CallMany validFiles else CallOne (hd validFiles))
      else NoCall)"

definition handleFiles :: "upload_props \<Rightarrow> js_file list \<Rightarrow> upload_conf \<Rightarrow> upload_conf \<times> upload_call" where
  "handleFiles p fileList c =
     (if fileList = [] then (c, NoCall)
      else
        let validFiles = fst (partitionFiles p fileList);
            errs = snd (partitionFiles p fileList);
            previews = makePreviews (showPreviews p) validFiles (snd c);
            finalSelection = (if multiple p then fst previews else take 1 (fst previews))
        in ((fst c\<lparr>errors := errs, selected := finalSelection\<rparr>,
             revokeAll (selected (fst c)) (snd previews)),
            upload_callback p validFiles))"

definition onInputChange :: "upload_props \<Rightarrow> js_file list \<Rightarrow> upload_conf \<Rightarrow> upload_conf \<times> upload_call" where
  "onInputChange p files c = handleFiles p files c"

definition onDrop :: "upload_props \<Rightarrow> js_file list \<Rightarrow> upload_conf \<Rightarrow> upload_conf \<times> upload_call" where
  "onDrop p files c =
     (if disabled p then ((fst c\<lparr>dragActive := False\<rparr>, snd c), NoCall)
      else handleFiles p files (fst c\<lparr>dragActive := False\<rparr>, snd c))"

definition onDragOver :: "upload_props \<Rightarrow> upload_conf \<Rightarrow> upload_conf" where
  "onDragOver p c = (if disabled p then c else (fst c\<lparr>dragActive := True\<rparr>, snd c))"

definition onDragLeave :: "upload_conf \<Rightarrow> upload_conf" where
  "onDragLeave c = (fst c\<lparr>dragActive := False\<rparr>, snd c)"

definition openFilePicker :: "upload_props \<Rightarrow> bool" where
  "openFilePicker p \<longleftrightarrow> \<not> disabled p"

section \<open>Events, steps and runs\<close>

datatype upload_event =
    InputChange "js_file list"
  | Drop "js_file list"
  | DragOver
  | DragLeave
  | ClickClear

fun upload_step :: "upload_props \<Rightarrow> upload_event \<Rightarrow> upload_conf \<Rightarrow> upload_conf \<times> upload_call" where
  "upload_step p (InputChange files) c = onInputChange p files c"
| "upload_step p (Drop files) c = onDrop p files c"
| "upload_step p DragOver c = (onDragOver p c, NoCall)"
| "upload_step p DragLeave c = (onDragLeave c, NoCall)"
| "upload_step p ClickClear c = (clearSelection c, NoCall)"

fun upload_run :: "upload_props \<Rightarrow> upload_event list \<Rightarrow> upload_conf \<Rightarrow> upload_conf" where
  "upload_run p [] c = c"
| "upload_run p (e # es) c = upload_run p es (fst (upload_step p e c))"

definition enabled :: "upload_props \<Rightarrow> upload_event \<Rightarrow> upload_conf \<Rightarrow> bool" where
  "enabled p e c =
     (case e of
        InputChange files \<Rightarrow> \<not> disabled p
      | ClickClear \<Rightarrow> selected (fst c) \<noteq> []
      | _ \<Rightarrow> True)"

inductive upload_reachable :: "upload_props \<Rightarrow> upload_conf \<Rightarrow> bool" for p where
  start: "upload_reachable p (init_upload, empty_store)"
| step: "upload_reachable p c \<Longrightarrow> enabled p e c \<Longrightarrow> upload_reachable p (fst (upload_step p e c))"

section \<open>Invariants\<close>

definition owned_ok :: "upload_conf \<Rightarrow> bool" where
  "owned_ok c \<longleftrightarrow>
     store_ok (snd c) \<and> distinct (urls (selected (fst c))) \<and>
     set (urls (selected (fst c))) \<subseteq> live (snd c)"

definition no_leak :: "upload_conf \<Rightarrow> bool" where
  "no_leak c \<longleftrightarrow> live (snd c) = set (urls (selected (fst c)))"

text \<open>
  Two derived quantities the lemmas speak about: the files that pass validation, and the
  number of preview URLs that \<open>makePreviews\<close> creates for a list of files.
\<close>

definition validOf :: "upload_props \<Rightarrow> js_file list \<Rightarrow> js_file list" where
  "validOf p files = filter (\<lambda>f. validate p f = None) files"

definition n_images :: "bool \<Rightarrow> js_file list \<Rightarrow> nat" where
  "n_images sp fs = length (filter (\<lambda>f. sp \<and> isImage f) fs)"

text \<open>
  The staging contract the component is meant to implement: partition the files, keep
  only the first accepted one unless several are allowed, create a preview URL for each
  kept image, release the URLs of the previous selection, install the new selection.
\<close>

definition stage :: "upload_props \<Rightarrow> js_file list \<Rightarrow> upload_conf \<Rightarrow> upload_conf" where
  "stage p files c =
     (let kept = (if multiple p then validOf p files else take 1 (validOf p files));
          previews = makePreviews (showPreviews p) kept (snd c)
      in (fst c\<lparr>errors := List.map_filter (validate p) files, selected := fst previews\<rparr>,
          revokeAll (selected (fst c)) (snd previews)))"

lemmas upload_eval [js_eval] =
  default_props_def init_upload_def validate_def isImage_def urls_def clearSelection_def
  upload_callback_def handleFiles_def onInputChange_def onDrop_def onDragOver_def
  onDragLeave_def openFilePicker_def enabled_def owned_ok_def no_leak_def List.map_filter_def

lemmas handler_defs =
  clearSelection_def handleFiles_def onInputChange_def onDrop_def onDragOver_def onDragLeave_def

section \<open>The validation loop against filter and map\<close>

lemma fst_partitionFiles:
  "fst (partitionFiles p files) = filter (\<lambda>f. validate p f = None) files"
  by (induction files) (auto split: option.splits)

lemma snd_partitionFiles:
  "snd (partitionFiles p files) = List.map_filter (validate p) files"
  by (induction files) (auto simp: List.map_filter_simps split: option.splits)

lemma length_partitionFiles:
  "length (fst (partitionFiles p files)) + length (snd (partitionFiles p files)) = length files"
  by (induction files) (auto split: option.splits)

lemma validate_None_iff:
  "validate p f = None \<longleftrightarrow> matchesAccept f (accept p) \<and> enat (file_size f) \<le> maxSize p"
  by (auto simp: validate_def not_less)

section \<open>The URL table under the two loops\<close>

lemma n_images_simps [simp]:
  "n_images sp [] = 0"
  "n_images sp (f # fs) = (if sp \<and> isImage f then Suc (n_images sp fs) else n_images sp fs)"
  by (simp_all add: n_images_def)

lemma urls_simps [simp]:
  "urls [] = []"
  "urls (s # ss) = (case previewUrl s of None \<Rightarrow> urls ss | Some u \<Rightarrow> u # urls ss)"
  by (simp_all add: urls_def List.map_filter_simps split: option.splits)

lemma urls_append [simp]: "urls (xs @ ys) = urls xs @ urls ys"
  by (induction xs) (auto split: option.splits)

lemma makePreviews_files [simp]: "map item_file (fst (makePreviews sp fs st)) = fs"
  by (induction fs arbitrary: st) auto

lemma length_makePreviews [simp]: "length (fst (makePreviews sp fs st)) = length fs"
  by (induction fs arbitrary: st) auto

lemma makePreviews_urls:
  "urls (fst (makePreviews sp fs st)) = [fresh st ..< fresh st + n_images sp fs]"
proof (induction fs arbitrary: st)
  case Nil
  show ?case by simp
next
  case (Cons f fs)
  show ?case
  proof (cases "sp \<and> isImage f")
    case True
    have "[fresh st ..< fresh st + Suc (n_images sp fs)] =
          fresh st # [Suc (fresh st) ..< Suc (fresh st) + n_images sp fs]"
      by (simp add: upt_conv_Cons del: upt_Suc)
    with True Cons.IH [of "snd (createObjectURL st)"] show ?thesis
      by (simp del: upt_Suc)
  next
    case False
    with Cons.IH [of st] show ?thesis
      by auto
  qed
qed

lemma makePreviews_store:
  "fresh (snd (makePreviews sp fs st)) = fresh st + n_images sp fs"
  "live (snd (makePreviews sp fs st)) = live st \<union> {fresh st ..< fresh st + n_images sp fs}"
  "revoked (snd (makePreviews sp fs st)) = revoked st"
  by (induction fs arbitrary: st) (auto simp: less_Suc_eq_le)

lemma makePreviews_item:
  "s \<in> set (fst (makePreviews sp fs st)) \<Longrightarrow>
   (previewUrl s \<noteq> None) = (sp \<and> isImage (item_file s))"
  by (induction fs arbitrary: st) (auto split: if_splits)

lemma revokeAll_store:
  "fresh (revokeAll items st) = fresh st"
  "live (revokeAll items st) = live st - set (urls items)"
  "revoked (revokeAll items st) = revoked st + mset (urls items)"
  by (induction items arbitrary: st) (auto split: option.splits)

lemmas store_simps = makePreviews_store revokeAll_store makePreviews_urls

lemma urls_take1_subset: "set (urls (take (Suc 0) items)) \<subseteq> set (urls items)"
  by (cases items) (auto split: option.splits)

lemma distinct_urls_take1:
  "distinct (urls items) \<Longrightarrow> distinct (urls (take (Suc 0) items))"
  by (cases items) (auto split: option.splits)

section \<open>What handleFiles and clearSelection leave behind\<close>

lemma handleFiles_Nil [simp]: "handleFiles p [] c = (c, NoCall)"
  by (simp add: handleFiles_def)

lemma handleFiles_fields:
  assumes "fileList \<noteq> []"
  shows "dragActive (fst (fst (handleFiles p fileList c))) = dragActive (fst c)"
    and "errors (fst (fst (handleFiles p fileList c))) = List.map_filter (validate p) fileList"
    and "selected (fst (fst (handleFiles p fileList c))) =
           (if multiple p then fst (makePreviews (showPreviews p) (validOf p fileList) (snd c))
            else take 1 (fst (makePreviews (showPreviews p) (validOf p fileList) (snd c))))"
    and "snd (fst (handleFiles p fileList c)) =
           revokeAll (selected (fst c)) (snd (makePreviews (showPreviews p) (validOf p fileList) (snd c)))"
    and "snd (handleFiles p fileList c) = upload_callback p (validOf p fileList)"
  using assms
  by (simp_all add: handleFiles_def Let_def fst_partitionFiles snd_partitionFiles validOf_def)

lemma handleFiles_store:
  assumes "fileList \<noteq> []"
  shows "fresh (snd (fst (handleFiles p fileList c))) =
           fresh (snd c) + n_images (showPreviews p) (validOf p fileList)"
    and "live (snd (fst (handleFiles p fileList c))) =
           (live (snd c) \<union> {fresh (snd c) ..< fresh (snd c) + n_images (showPreviews p) (validOf p fileList)})
            - set (urls (selected (fst c)))"
    and "revoked (snd (fst (handleFiles p fileList c))) =
           revoked (snd c) + mset (urls (selected (fst c)))"
  by (simp_all add: handleFiles_fields [OF assms] store_simps)

lemma handleFiles_urls:
  assumes "fileList \<noteq> []"
  shows "set (urls (selected (fst (fst (handleFiles p fileList c))))) \<subseteq>
           {fresh (snd c) ..< fresh (snd c) + n_images (showPreviews p) (validOf p fileList)}"
    and "distinct (urls (selected (fst (fst (handleFiles p fileList c)))))"
proof -
  let ?items = "fst (makePreviews (showPreviews p) (validOf p fileList) (snd c))"
  have u: "set (urls ?items) = {fresh (snd c) ..< fresh (snd c) + n_images (showPreviews p) (validOf p fileList)}"
    and d: "distinct (urls ?items)"
    by (simp_all add: makePreviews_urls)
  show "set (urls (selected (fst (fst (handleFiles p fileList c))))) \<subseteq>
           {fresh (snd c) ..< fresh (snd c) + n_images (showPreviews p) (validOf p fileList)}"
    using u urls_take1_subset [of ?items] by (auto simp: handleFiles_fields [OF assms])
  show "distinct (urls (selected (fst (fst (handleFiles p fileList c)))))"
    using d distinct_urls_take1 [of ?items] by (auto simp: handleFiles_fields [OF assms])
qed

lemma clearSelection_fields [simp]:
  "selected (fst (clearSelection c)) = []"
  "errors (fst (clearSelection c)) = []"
  "dragActive (fst (clearSelection c)) = dragActive (fst c)"
  "fresh (snd (clearSelection c)) = fresh (snd c)"
  "live (snd (clearSelection c)) = live (snd c) - set (urls (selected (fst c)))"
  "revoked (snd (clearSelection c)) = revoked (snd c) + mset (urls (selected (fst c)))"
  by (simp_all add: clearSelection_def revokeAll_store)

lemma owned_old_urls: "owned_ok c \<Longrightarrow> u \<in> set (urls (selected (fst c))) \<Longrightarrow> u < fresh (snd c)"
  by (auto simp: owned_ok_def store_ok_def)

section \<open>The ownership invariant\<close>

lemma owned_ok_init [simp]: "owned_ok (init_upload, empty_store)"
  by (simp add: owned_ok_def init_upload_def)

lemma owned_ok_dragActive [simp]: "owned_ok (fst c\<lparr>dragActive := b\<rparr>, snd c) = owned_ok c"
  by (simp add: owned_ok_def)

lemma owned_ok_clearSelection: "owned_ok c \<Longrightarrow> owned_ok (clearSelection c)"
  by (auto simp: owned_ok_def store_ok_def)

lemma owned_ok_handleFiles:
  assumes "owned_ok c"
  shows "owned_ok (fst (handleFiles p fileList c))"
proof (cases "fileList = []")
  case True
  with assms show ?thesis by simp
next
  case False
  note st = handleFiles_store [OF False, of p c] and us = handleFiles_urls [OF False, of p c]
  have old: "\<forall>u \<in> set (urls (selected (fst c))). u < fresh (snd c)"
    using assms by (auto dest: owned_old_urls)
  have "store_ok (snd (fst (handleFiles p fileList c)))"
    using assms old unfolding store_ok_def owned_ok_def st by auto
  moreover have "set (urls (selected (fst (fst (handleFiles p fileList c))))) \<subseteq>
      live (snd (fst (handleFiles p fileList c)))"
    using us(1) old unfolding st by fastforce
  ultimately show ?thesis
    using us(2) by (simp add: owned_ok_def)
qed

lemma owned_ok_step: "owned_ok c \<Longrightarrow> owned_ok (fst (upload_step p e c))"
  by (cases e)
     (auto simp: onInputChange_def onDrop_def onDragOver_def onDragLeave_def
        owned_ok_handleFiles owned_ok_clearSelection)

lemma owned_ok_run: "owned_ok c \<Longrightarrow> owned_ok (upload_run p es c)"
  by (induction es arbitrary: c) (auto simp: owned_ok_step)

text \<open>
  C12. In every configuration a user can reach, the browser's table is consistent, the
  preview URLs of the current selection are pairwise distinct and every one of them is
  live: no selected preview refers to a revoked URL.
\<close>

theorem reachable_owned_ok:
  assumes "upload_reachable p c"
  shows "owned_ok c"
  using assms by (induction rule: upload_reachable.induct) (auto simp: owned_ok_step)

theorem reachable_owned_ok_witness:
  "upload_reachable default_props
     (fst (upload_step default_props
        (Drop [\<lparr>file_name = ''a.png'', file_type = ''image/png'', file_size = 500\<rparr>])
        (init_upload, empty_store))) \<and>
   owned_ok (fst (upload_step default_props
        (Drop [\<lparr>file_name = ''a.png'', file_type = ''image/png'', file_size = 500\<rparr>])
        (init_upload, empty_store)))"
proof -
  have h: "upload_reachable default_props
     (fst (upload_step default_props
        (Drop [\<lparr>file_name = ''a.png'', file_type = ''image/png'', file_size = 500\<rparr>])
        (init_upload, empty_store)))"
    by (rule upload_reachable.step [OF upload_reachable.start]) (simp add: enabled_def)
  from reachable_owned_ok [OF h] h show ?thesis
    by simp
qed

section \<open>Release of the previous preview URLs\<close>

text \<open>
  C1. Selecting files (a non-empty list) releases every preview URL of the previous
  selection exactly once: the calls of \<^verbatim>\<open>revokeObjectURL\<close> made by the handler are the
  previous URLs, each with multiplicity one, and none of them is live afterwards.
\<close>

theorem handleFiles_releases_previous:
  assumes "fileList \<noteq> []" and "owned_ok c"
  shows "revoked (snd (fst (handleFiles p fileList c))) =
           revoked (snd c) + mset (urls (selected (fst c))) \<and>
         (\<forall>u \<in> set (urls (selected (fst c))).
            count (revoked (snd (fst (handleFiles p fileList c)))) u = Suc (count (revoked (snd c)) u) \<and>
            u \<notin> live (snd (fst (handleFiles p fileList c))))"
proof -
  have "distinct (urls (selected (fst c)))"
    using assms(2) by (simp add: owned_ok_def)
  then have "\<forall>u \<in> set (urls (selected (fst c))). count (mset (urls (selected (fst c)))) u = 1"
    by (simp add: distinct_count_atmost_1)
  then show ?thesis
    by (simp add: handleFiles_store [OF assms(1)])
qed

theorem handleFiles_releases_previous_witness:
  "[\<lparr>file_name = ''b.txt'', file_type = ''text/plain'', file_size = 7\<rparr>] \<noteq> [] \<and>
   owned_ok (\<lparr>dragActive = False,
              selected = [\<lparr>item_file = \<lparr>file_name = ''a.png'', file_type = ''image/png'', file_size = 5\<rparr>,
                          previewUrl = Some 0\<rparr>],
              errors = []\<rparr>,
             \<lparr>fresh = 1, live = {0}, revoked = {#}\<rparr>) \<and>
   revoked (snd (fst (handleFiles default_props
       [\<lparr>file_name = ''b.txt'', file_type = ''text/plain'', file_size = 7\<rparr>]
       (\<lparr>dragActive = False,
          selected = [\<lparr>item_file = \<lparr>file_name = ''a.png'', file_type = ''image/png'', file_size = 5\<rparr>,
                      previewUrl = Some 0\<rparr>],
          errors = []\<rparr>,
        \<lparr>fresh = 1, live = {0}, revoked = {#}\<rparr>)))) = {#0#}"
proof -
  let ?c = "(\<lparr>dragActive = False,
              selected = [\<lparr>item_file = \<lparr>file_name = ''a.png'', file_type = ''image/png'', file_size = 5\<rparr>,
                          previewUrl = Some 0\<rparr>],
              errors = []\<rparr>,
             \<lparr>fresh = 1, live = {0}, revoked = {#}\<rparr>)"
  have h1: "[\<lparr>file_name = ''b.txt'', file_type = ''text/plain'', file_size = 7\<rparr>] \<noteq> []"
    by simp
  have h2: "owned_ok ?c"
    by (simp add: owned_ok_def store_ok_def)
  from handleFiles_releases_previous [OF h1 h2, of default_props] h2 show ?thesis
    by simp
qed

text \<open>
  C34. Clearing the selection empties the selection and the error list and releases
  every preview URL of the selection exactly once; if the selection owned every live URL
  before, no URL is live afterwards.
\<close>

theorem clearSelection_releases:
  assumes "owned_ok c"
  shows "selected (fst (clearSelection c)) = [] \<and> errors (fst (clearSelection c)) = [] \<and>
         revoked (snd (clearSelection c)) = revoked (snd c) + mset (urls (selected (fst c))) \<and>
         distinct (urls (selected (fst c))) \<and>
         (no_leak c \<longrightarrow> live (snd (clearSelection c)) = {})"
  using assms by (auto simp: owned_ok_def no_leak_def)

theorem clearSelection_releases_witness:
  "owned_ok (fst (handleFiles default_props
       [\<lparr>file_name = ''a.png'', file_type = ''image/png'', file_size = 5\<rparr>] (init_upload, empty_store))) \<and>
   live (snd (clearSelection (fst (handleFiles default_props
       [\<lparr>file_name = ''a.png'', file_type = ''image/png'', file_size = 5\<rparr>] (init_upload, empty_store))))) = {} \<and>
   revoked (snd (clearSelection (fst (handleFiles default_props
       [\<lparr>file_name = ''a.png'', file_type = ''image/png'', file_size = 5\<rparr>] (init_upload, empty_store))))) = {#0#}"
proof -
  let ?c = "fst (handleFiles default_props
       [\<lparr>file_name = ''a.png'', file_type = ''image/png'', file_size = 5\<rparr>] (init_upload, empty_store))"
  have h: "owned_ok ?c"
    by (rule owned_ok_handleFiles) simp
  have n: "no_leak ?c"
    by (simp add: js_eval)
  from clearSelection_releases [OF h] n show ?thesis
    by (simp add: h) (simp add: js_eval)
qed

section \<open>Validation outcomes\<close>

text \<open>
  C9. Validation partitions the file list: the accepted files are exactly those that
  match the accept specification and do not exceed the size limit, in their order; every
  other file contributes exactly one message, in order; nothing is lost or duplicated.
\<close>

theorem partitionFiles_spec:
  "fst (partitionFiles p files) =
     filter (\<lambda>f. matchesAccept f (accept p) \<and> enat (file_size f) \<le> maxSize p) files \<and>
   snd (partitionFiles p files) = List.map_filter (validate p) files \<and>
   length (fst (partitionFiles p files)) + length (snd (partitionFiles p files)) = length files"
proof -
  have "fst (partitionFiles p files) =
      filter (\<lambda>f. matchesAccept f (accept p) \<and> enat (file_size f) \<le> maxSize p) files"
    by (simp add: fst_partitionFiles validate_None_iff)
  then show ?thesis
    using snd_partitionFiles [of p files] length_partitionFiles [of p files] by (simp only:)
qed

text \<open>
  A file that matches the accept specification and is larger than the limit is
  rejected with the message \<^verbatim>\<open>name: too large (size > limit)\<close>, where both sizes are
  printed by \<^verbatim>\<open>humanFileSize\<close>; a file that does not match is rejected as an unsupported
  type, whatever its size.
\<close>

theorem validate_rejections:
  "(matchesAccept f (accept p) \<and> maxSize p = enat m \<and> m < file_size f \<longrightarrow>
      validate p f = Some (file_name f @ '': too large ('' @ humanFileSize (file_size f) @ '' > '' @
                           humanFileSize m @ '')'')) \<and>
   (\<not> matchesAccept f (accept p) \<longrightarrow>
      validate p f = Some (file_name f @ '': unsupported file type''))"
  by (simp add: validate_def)

theorem validate_rejections_witness:
  "validate (default_props\<lparr>maxSize := enat 1000\<rparr>)
     \<lparr>file_name = ''big.bin'', file_type = ''application/octet-stream'', file_size = 1536\<rparr> =
     Some ''big.bin: too large (1.50 KB > 1000.00 B)'' \<and>
   validate (default_props\<lparr>accept := ''.pdf''\<rparr>)
     \<lparr>file_name = ''notes.txt'', file_type = ''text/plain'', file_size = 3\<rparr> =
     Some ''notes.txt: unsupported file type''"
  using validate_rejections [of "\<lparr>file_name = ''big.bin'', file_type = ''application/octet-stream'',
      file_size = 1536\<rparr>" "default_props\<lparr>maxSize := enat 1000\<rparr>" 1000]
    validate_rejections [of "\<lparr>file_name = ''notes.txt'', file_type = ''text/plain'', file_size = 3\<rparr>"
      "default_props\<lparr>accept := ''.pdf''\<rparr>" 0]
  by (simp add: js_eval)

text \<open>
  With the default limit \<^verbatim>\<open>Infinity\<close> no file is rejected for its size, so the
  formatter is never applied to \<^verbatim>\<open>Infinity\<close>: no message mentions \<^verbatim>\<open>NaN\<close>.
\<close>

theorem validate_infinite_limit:
  "validate (p\<lparr>maxSize := \<infinity>\<rparr>) f =
     (if matchesAccept f (accept p) then None else Some (file_name f @ '': unsupported file type''))"
  by (simp add: validate_def)

section \<open>The selection\<close>

lemma makePreviews_take1:
  "fst (makePreviews sp (take (Suc 0) fs) st) = take (Suc 0) (fst (makePreviews sp fs st))"
  by (cases fs) auto

lemma take1_tl: "take (Suc 0) xs @ tl xs = xs"
  by (cases xs) auto

lemma n_images_append [simp]: "n_images sp (xs @ ys) = n_images sp xs + n_images sp ys"
  by (simp add: n_images_def)

lemma n_images_take1_tl:
  "n_images sp (take (Suc 0) fs) + n_images sp (tl fs) = n_images sp fs"
  by (cases fs) auto

lemma urls_take1_makePreviews:
  "urls (take (Suc 0) (fst (makePreviews sp fs st))) =
     [fresh st ..< fresh st + n_images sp (take (Suc 0) fs)]"
  using makePreviews_urls [of sp "take (Suc 0) fs" st] by (simp only: makePreviews_take1)

text \<open>
  The selection installed by \<^verbatim>\<open>handleFiles\<close> consists of the accepted files (only
  the first one unless \<^verbatim>\<open>multiple\<close> is set), and an item carries a preview URL exactly
  when previews are shown and its MIME type starts with \<^verbatim>\<open>image/\<close>.
\<close>

theorem handleFiles_selection:
  assumes "fileList \<noteq> []"
  shows "map item_file (selected (fst (fst (handleFiles p fileList c)))) =
           (if multiple p then validOf p fileList else take 1 (validOf p fileList)) \<and>
         (\<forall>s \<in> set (selected (fst (fst (handleFiles p fileList c)))).
            (previewUrl s \<noteq> None) = (showPreviews p \<and> isImage (item_file s)))"
proof -
  have "s \<in> set (take 1 xs) \<Longrightarrow> s \<in> set xs" for s :: preview_item and xs
    by (rule in_set_takeD)
  then show ?thesis
    by (auto simp: handleFiles_fields [OF assms] take_map [symmetric] dest!: makePreviews_item)
qed

theorem handleFiles_selection_witness:
  "[\<lparr>file_name = ''a.png'', file_type = ''image/png'', file_size = 500\<rparr>] \<noteq> [] \<and>
   selected (fst (fst (handleFiles (default_props\<lparr>accept := ''image/*'', maxSize := enat 1000\<rparr>)
     [\<lparr>file_name = ''a.png'', file_type = ''image/png'', file_size = 500\<rparr>]
     (init_upload, empty_store)))) =
     [\<lparr>item_file = \<lparr>file_name = ''a.png'', file_type = ''image/png'', file_size = 500\<rparr>,
       previewUrl = Some 0\<rparr>] \<and>
   errors (fst (fst (handleFiles (default_props\<lparr>accept := ''image/*'', maxSize := enat 1000\<rparr>)
     [\<lparr>file_name = ''a.png'', file_type = ''image/png'', file_size = 500\<rparr>]
     (init_upload, empty_store)))) = []"
proof -
  have h: "[\<lparr>file_name = ''a.png'', file_type = ''image/png'', file_size = 500\<rparr>] \<noteq> []"
    by simp
  from handleFiles_selection [OF h, of "default_props\<lparr>accept := ''image/*'', maxSize := enat 1000\<rparr>"
      "(init_upload, empty_store)"]
  show ?thesis
    by (simp add: js_eval fst_partitionFiles snd_partitionFiles)
qed

text \<open>
  C35. When \<^verbatim>\<open>multiple\<close> is not set, no reachable configuration holds more than one
  selected file.
\<close>

theorem reachable_single_selection:
  assumes "upload_reachable p c" and "\<not> multiple p"
  shows "length (selected (fst c)) \<le> 1"
  using assms
proof (induction rule: upload_reachable.induct)
  case start
  show ?case by (simp add: init_upload_def)
next
  case (step c e)
  have "length (selected (fst (fst (handleFiles p files d)))) \<le> 1"
    if "length (selected (fst d)) \<le> 1" for files d
    using that step.prems by (cases "files = []") (simp_all add: handleFiles_fields)
  with step show ?case
    by (cases e) (auto simp: onInputChange_def onDrop_def onDragOver_def onDragLeave_def)
qed

theorem reachable_single_selection_witness:
  "upload_reachable default_props
     (fst (upload_step default_props
        (Drop [\<lparr>file_name = ''a.png'', file_type = ''image/png'', file_size = 500\<rparr>,
               \<lparr>file_name = ''b.png'', file_type = ''image/png'', file_size = 600\<rparr>])
        (init_upload, empty_store))) \<and>
   \<not> multiple default_props \<and>
   length (selected (fst (fst (upload_step default_props
        (Drop [\<lparr>file_name = ''a.png'', file_type = ''image/png'', file_size = 500\<rparr>,
               \<lparr>file_name = ''b.png'', file_type = ''image/png'', file_size = 600\<rparr>])
        (init_upload, empty_store))))) \<le> 1"
proof -
  have h: "upload_reachable default_props
     (fst (upload_step default_props
        (Drop [\<lparr>file_name = ''a.png'', file_type = ''image/png'', file_size = 500\<rparr>,
               \<lparr>file_name = ''b.png'', file_type = ''image/png'', file_size = 600\<rparr>])
        (init_upload, empty_store)))"
    by (rule upload_reachable.step [OF upload_reachable.start]) (simp add: enabled_def)
  have m: "\<not> multiple default_props"
    by (simp add: default_props_def)
  from reachable_single_selection [OF h m] h m show ?thesis
    by simp
qed

section \<open>Leaks\<close>

lemma interval_eq_iff: "{f ..< f + a} = {f ..< f + b} \<longleftrightarrow> a = b" for f a b :: nat
proof
  assume "{f ..< f + a} = {f ..< f + b}"
  then have "card {f ..< f + a} = card {f ..< f + b}"
    by simp
  then show "a = b"
    by simp
qed simp

lemma handleFiles_live_fresh:
  assumes "fileList \<noteq> []" and "owned_ok c" and "no_leak c"
  shows "live (snd (fst (handleFiles p fileList c))) =
           {fresh (snd c) ..< fresh (snd c) + n_images (showPreviews p) (validOf p fileList)}"
proof -
  have "\<forall>u \<in> live (snd c). u < fresh (snd c)"
    using assms(2) by (simp add: owned_ok_def store_ok_def)
  then show ?thesis
    using assms(3) by (fastforce simp: handleFiles_store [OF assms(1)] no_leak_def)
qed

text \<open>
  C6. Starting from a configuration without leaked URLs, \<^verbatim>\<open>handleFiles\<close> leaves no
  leaked URL exactly when \<^verbatim>\<open>multiple\<close> is set or no accepted file after the first is an
  image shown as a preview: the URLs are created for all accepted images before the list
  is cut to its first element, and the URLs of the cut elements are never released.
\<close>

theorem handleFiles_no_leak_iff:
  assumes "fileList \<noteq> []" and "owned_ok c" and "no_leak c"
  shows "no_leak (fst (handleFiles p fileList c)) \<longleftrightarrow>
           multiple p \<or> n_images (showPreviews p) (tl (validOf p fileList)) = 0"
proof (cases "multiple p")
  case True
  then show ?thesis
    using handleFiles_live_fresh [OF assms, of p]
    by (simp add: no_leak_def handleFiles_fields [OF assms(1)] makePreviews_urls)
next
  case False
  let ?v = "validOf p fileList" and ?sp = "showPreviews p" and ?f = "fresh (snd c)"
  have "{?f ..< ?f + n_images ?sp ?v} = {?f ..< ?f + n_images ?sp (take 1 ?v)} \<longleftrightarrow>
        n_images ?sp (tl ?v) = 0"
    using n_images_take1_tl [of ?sp ?v] interval_eq_iff [of ?f "n_images ?sp ?v"] by auto
  with False show ?thesis
    using handleFiles_live_fresh [OF assms, of p]
    by (simp add: no_leak_def handleFiles_fields [OF assms(1)]
        urls_take1_makePreviews)
qed

theorem handleFiles_no_leak_iff_witness:
  "[\<lparr>file_name = ''a.png'', file_type = ''image/png'', file_size = 500\<rparr>,
    \<lparr>file_name = ''b.png'', file_type = ''image/png'', file_size = 600\<rparr>] \<noteq> [] \<and>
   owned_ok (init_upload, empty_store) \<and> no_leak (init_upload, empty_store) \<and>
   \<not> no_leak (fst (handleFiles default_props
     [\<lparr>file_name = ''a.png'', file_type = ''image/png'', file_size = 500\<rparr>,
      \<lparr>file_name = ''b.png'', file_type = ''image/png'', file_size = 600\<rparr>]
     (init_upload, empty_store)))"
proof -
  let ?fl = "[\<lparr>file_name = ''a.png'', file_type = ''image/png'', file_size = 500\<rparr>,
    \<lparr>file_name = ''b.png'', file_type = ''image/png'', file_size = 600\<rparr>]"
  have h1: "?fl \<noteq> []"
    by simp
  have h2: "owned_ok (init_upload, empty_store)"
    by simp
  have h3: "no_leak (init_upload, empty_store)"
    by (simp add: no_leak_def init_upload_def empty_store_def)
  from handleFiles_no_leak_iff [OF h1 h2 h3, of default_props] h2 h3 show ?thesis
    by (simp add: js_eval)
qed

lemma not_owned_step:
  assumes "owned_ok c" and "u \<in> live (snd c)" and "u \<notin> set (urls (selected (fst c)))"
  shows "u \<in> live (snd (fst (upload_step p e c))) \<and>
         u \<notin> set (urls (selected (fst (fst (upload_step p e c)))))"
proof -
  have lt: "u < fresh (snd c)"
    using assms(1,2) by (auto simp: owned_ok_def store_ok_def)
  have hf: "u \<in> live (snd (fst (handleFiles p files d))) \<and>
        u \<notin> set (urls (selected (fst (fst (handleFiles p files d)))))"
    if "snd d = snd c" and "selected (fst d) = selected (fst c)" for files d
  proof (cases "files = []")
    case True
    with that assms show ?thesis by simp
  next
    case False
    show ?thesis
      using handleFiles_urls(1) [OF False, of p d] lt assms(2,3) that
      by (auto simp: handleFiles_store [OF False])
  qed
  show ?thesis
    using assms(2,3) hf [of c] hf [of "(fst c\<lparr>dragActive := False\<rparr>, snd c)"]
    by (cases e) (auto simp: onInputChange_def onDrop_def onDragOver_def onDragLeave_def)
qed

lemma not_owned_run:
  assumes "owned_ok c" and "u \<in> live (snd c)" and "u \<notin> set (urls (selected (fst c)))"
  shows "u \<in> live (snd (upload_run p es c))"
  using assms
proof (induction es arbitrary: c)
  case Nil
  then show ?case by simp
next
  case (Cons e es)
  from not_owned_step [OF Cons.prems] owned_ok_step [OF Cons.prems(1)] show ?case
    by (simp add: Cons.IH)
qed

text \<open>
  C15. A leaked URL is never released: a live URL that no selected item refers to stays
  live through every later event of the component. With the default props, dropping two
  images on the fresh component leaves the URL of the second image live for ever.
\<close>

theorem leak_is_permanent:
  "1 \<in> live (snd (upload_run default_props
     (Drop [\<lparr>file_name = ''a.png'', file_type = ''image/png'', file_size = 500\<rparr>,
            \<lparr>file_name = ''b.png'', file_type = ''image/png'', file_size = 600\<rparr>] # es)
     (init_upload, empty_store)))"
proof -
  let ?c = "fst (upload_step default_props
     (Drop [\<lparr>file_name = ''a.png'', file_type = ''image/png'', file_size = 500\<rparr>,
            \<lparr>file_name = ''b.png'', file_type = ''image/png'', file_size = 600\<rparr>])
     (init_upload, empty_store))"
  have "owned_ok ?c"
    by (rule owned_ok_step) simp
  moreover have "1 \<in> live (snd ?c)" and "1 \<notin> set (urls (selected (fst ?c)))"
    by (simp_all add: js_eval)
  ultimately have "1 \<in> live (snd (upload_run default_props es ?c))"
    by (rule not_owned_run)
  then show ?thesis
    by simp
qed

text \<open>
  C16. With \<^verbatim>\<open>multiple\<close> set, every reachable configuration is free of leaks: the live
  URLs are exactly the preview URLs of the current selection.
\<close>

theorem reachable_no_leak:
  assumes "upload_reachable p c" and "multiple p"
  shows "owned_ok c \<and> no_leak c"
  using assms
proof (induction rule: upload_reachable.induct)
  case start
  have "no_leak (init_upload, empty_store)"
    by (simp add: no_leak_def init_upload_def empty_store_def)
  then show ?case by simp
next
  case (step c e)
  then have o: "owned_ok c" and n: "no_leak c"
    by simp_all
  have hf: "no_leak (fst (handleFiles p files d))"
    if "owned_ok d" and "no_leak d" for files d
    using that handleFiles_no_leak_iff [of files d p] step.prems by (cases "files = []") simp_all
  have "no_leak (fst (upload_step p e c))"
    using o n hf [of c] hf [of "(fst c\<lparr>dragActive := False\<rparr>, snd c)"]
    by (cases e)
       (auto simp: onInputChange_def onDrop_def onDragOver_def onDragLeave_def no_leak_def
          owned_ok_def)
  with o show ?case
    by (simp add: owned_ok_step)
qed

theorem reachable_no_leak_witness:
  "upload_reachable (default_props\<lparr>multiple := True\<rparr>)
     (fst (upload_step (default_props\<lparr>multiple := True\<rparr>)
        (Drop [\<lparr>file_name = ''a.png'', file_type = ''image/png'', file_size = 500\<rparr>,
               \<lparr>file_name = ''b.png'', file_type = ''image/png'', file_size = 600\<rparr>])
        (init_upload, empty_store))) \<and>
   multiple (default_props\<lparr>multiple := True\<rparr>) \<and>
   no_leak (fst (upload_step (default_props\<lparr>multiple := True\<rparr>)
        (Drop [\<lparr>file_name = ''a.png'', file_type = ''image/png'', file_size = 500\<rparr>,
               \<lparr>file_name = ''b.png'', file_type = ''image/png'', file_size = 600\<rparr>])
        (init_upload, empty_store)))"
proof -
  have h: "upload_reachable (default_props\<lparr>multiple := True\<rparr>)
     (fst (upload_step (default_props\<lparr>multiple := True\<rparr>)
        (Drop [\<lparr>file_name = ''a.png'', file_type = ''image/png'', file_size = 500\<rparr>,
               \<lparr>file_name = ''b.png'', file_type = ''image/png'', file_size = 600\<rparr>])
        (init_upload, empty_store)))"
    by (rule upload_reachable.step [OF upload_reachable.start]) (simp add: enabled_def)
  have m: "multiple (default_props\<lparr>multiple := True\<rparr>)"
    by simp
  from reachable_no_leak [OF h m] h show ?thesis
    by simp
qed

section \<open>The handlers against the staging contract\<close>

lemma stage_fields:
  "errors (fst (stage p files c)) = List.map_filter (validate p) files"
  "dragActive (fst (stage p files c)) = dragActive (fst c)"
  "selected (fst (stage p files c)) =
     fst (makePreviews (showPreviews p)
            (if multiple p then validOf p files else take 1 (validOf p files)) (snd c))"
  "fresh (snd (stage p files c)) =
     fresh (snd c) + n_images (showPreviews p)
       (if multiple p then validOf p files else take 1 (validOf p files))"
  "live (snd (stage p files c)) =
     (live (snd c) \<union> {fresh (snd c) ..< fresh (snd c) + n_images (showPreviews p)
        (if multiple p then validOf p files else take 1 (validOf p files))})
      - set (urls (selected (fst c)))"
  "revoked (snd (stage p files c)) = revoked (snd c) + mset (urls (selected (fst c)))"
  by (simp_all add: stage_def Let_def store_simps)

text \<open>
  C13. The component state that \<^verbatim>\<open>handleFiles\<close> installs for a non-empty file list is
  the state the staging contract prescribes: the same selection, with the same preview
  URLs, and the same error list.
\<close>

theorem handleFiles_refines_stage:
  assumes "fileList \<noteq> []"
  shows "fst (fst (handleFiles p fileList c)) = fst (stage p fileList c)"
proof -
  have "selected (fst (fst (handleFiles p fileList c))) = selected (fst (stage p fileList c))"
    by (simp add: handleFiles_fields [OF assms] stage_fields makePreviews_take1)
  then show ?thesis
    by (simp add: handleFiles_def stage_def Let_def assms snd_partitionFiles)
qed

theorem handleFiles_refines_stage_witness:
  "[\<lparr>file_name = ''a.png'', file_type = ''image/png'', file_size = 500\<rparr>,
    \<lparr>file_name = ''b.png'', file_type = ''image/png'', file_size = 600\<rparr>] \<noteq> [] \<and>
   fst (fst (handleFiles default_props
     [\<lparr>file_name = ''a.png'', file_type = ''image/png'', file_size = 500\<rparr>,
      \<lparr>file_name = ''b.png'', file_type = ''image/png'', file_size = 600\<rparr>]
     (init_upload, empty_store))) =
   fst (stage default_props
     [\<lparr>file_name = ''a.png'', file_type = ''image/png'', file_size = 500\<rparr>,
      \<lparr>file_name = ''b.png'', file_type = ''image/png'', file_size = 600\<rparr>]
     (init_upload, empty_store))"
proof -
  have h: "[\<lparr>file_name = ''a.png'', file_type = ''image/png'', file_size = 500\<rparr>,
    \<lparr>file_name = ''b.png'', file_type = ''image/png'', file_size = 600\<rparr>] \<noteq> []"
    by simp
  from handleFiles_refines_stage [OF h] h show ?thesis
    by blast
qed

text \<open>
  C14. The URL table differs from the contract's by exactly the URLs created for the
  accepted images that the cut removed: the live URLs after \<^verbatim>\<open>handleFiles\<close> are the
  contract's live URLs together with the interval of URLs numbered from the count of
  kept images to the count of all accepted images, and the released URLs agree.
\<close>

theorem handleFiles_store_vs_stage:
  assumes "fileList \<noteq> []" and "owned_ok c"
  shows "live (snd (fst (handleFiles p fileList c))) =
           live (snd (stage p fileList c)) \<union>
           {fresh (snd (stage p fileList c)) ..<
            fresh (snd c) + n_images (showPreviews p) (validOf p fileList)} \<and>
         revoked (snd (fst (handleFiles p fileList c))) = revoked (snd (stage p fileList c))"
proof -
  let ?v = "validOf p fileList" and ?sp = "showPreviews p" and ?f = "fresh (snd c)"
  have old: "\<forall>u \<in> set (urls (selected (fst c))). u < ?f"
    using assms(2) by (auto dest: owned_old_urls)
  have le: "n_images ?sp (take 1 ?v) \<le> n_images ?sp ?v"
    using n_images_take1_tl [of ?sp ?v] by simp
  have split: "{?f ..< ?f + n_images ?sp ?v} =
      {?f ..< ?f + n_images ?sp (take 1 ?v)} \<union> {?f + n_images ?sp (take 1 ?v) ..< ?f + n_images ?sp ?v}"
    using le by auto
  show ?thesis
  proof (cases "multiple p")
    case True
    then show ?thesis
      by (simp add: handleFiles_store [OF assms(1)] stage_fields)
  next
    case False
    have "live (snd (fst (handleFiles p fileList c))) =
        (live (snd c) \<union> {?f ..< ?f + n_images ?sp (take 1 ?v)}) - set (urls (selected (fst c))) \<union>
        {?f + n_images ?sp (take 1 ?v) ..< ?f + n_images ?sp ?v}"
      unfolding handleFiles_store [OF assms(1)] using old by (subst split) fastforce
    with False show ?thesis
      by (simp add: handleFiles_store [OF assms(1)] stage_fields)
  qed
qed

theorem handleFiles_store_vs_stage_witness:
  "live (snd (fst (handleFiles default_props
     [\<lparr>file_name = ''a.png'', file_type = ''image/png'', file_size = 500\<rparr>,
      \<lparr>file_name = ''b.png'', file_type = ''image/png'', file_size = 600\<rparr>]
     (init_upload, empty_store)))) = {0, 1} \<and>
   live (snd (stage default_props
     [\<lparr>file_name = ''a.png'', file_type = ''image/png'', file_size = 500\<rparr>,
      \<lparr>file_name = ''b.png'', file_type = ''image/png'', file_size = 600\<rparr>]
     (init_upload, empty_store))) = {0}"
proof -
  let ?fl = "[\<lparr>file_name = ''a.png'', file_type = ''image/png'', file_size = 500\<rparr>,
      \<lparr>file_name = ''b.png'', file_type = ''image/png'', file_size = 600\<rparr>]"
  have h1: "?fl \<noteq> []"
    by simp
  have h2: "owned_ok (init_upload, empty_store)"
    by simp
  have s: "live (snd (stage default_props ?fl (init_upload, empty_store))) = {0}"
    "fresh (snd (stage default_props ?fl (init_upload, empty_store))) = 1"
    by (simp_all add: stage_fields) (simp_all add: js_eval validOf_def)
  have n: "n_images (showPreviews default_props) (validOf default_props ?fl) = 2"
    by (simp add: js_eval validOf_def)
  from handleFiles_store_vs_stage [OF h1 h2, of default_props] show ?thesis
    unfolding s n by (auto simp: empty_store_def)
qed

section \<open>The callback and the remaining handlers\<close>

text \<open>
  \<^verbatim>\<open>onUpload\<close> is called exactly when some file was accepted: with the whole list
  of accepted files when \<^verbatim>\<open>multiple\<close> is set, with the first accepted file otherwise;
  rejected files never reach the callback.
\<close>

theorem handleFiles_callback:
  "snd (handleFiles p fileList c) =
     (case validOf p fileList of
        [] \<Rightarrow> NoCall
      | f # fs \<Rightarrow> if multiple p then CallMany (f # fs) else CallOne f)"
proof (cases "fileList = []")
  case True
  then show ?thesis by (simp add: validOf_def)
next
  case False
  then show ?thesis
    by (simp add: handleFiles_fields upload_callback_def split: list.splits)
qed

text \<open>
  A disabled component ignores dropped files: the drop only clears the drag
  highlight, the selection, the errors and the URL table are unchanged and the callback
  is not called; dragging over a disabled component does not highlight it.
\<close>

theorem disabled_ignores_drop:
  assumes "disabled p"
  shows "onDrop p files c = ((fst c\<lparr>dragActive := False\<rparr>, snd c), NoCall) \<and> onDragOver p c = c \<and>
         \<not> openFilePicker p"
  using assms by (simp add: onDrop_def onDragOver_def openFilePicker_def)

theorem disabled_ignores_drop_witness:
  "disabled (default_props\<lparr>disabled := True\<rparr>) \<and>
   onDrop (default_props\<lparr>disabled := True\<rparr>)
     [\<lparr>file_name = ''a.png'', file_type = ''image/png'', file_size = 500\<rparr>] (init_upload, empty_store) =
     ((init_upload, empty_store), NoCall)"
proof -
  have h: "disabled (default_props\<lparr>disabled := True\<rparr>)"
    by simp
  from disabled_ignores_drop [OF h, of _ "(init_upload, empty_store)"] h show ?thesis
    by (simp add: init_upload_def)
qed

text \<open>
  The drag highlight is set only by dragging over an enabled component and is
  cleared by leaving and by dropping; the file handlers do not touch it.
\<close>

theorem dragActive_step:
  "dragActive (fst (fst (upload_step p e c))) =
     (case e of
        DragOver \<Rightarrow> dragActive (fst c) \<or> \<not> disabled p
      | DragLeave \<Rightarrow> False
      | Drop files \<Rightarrow> False
      | _ \<Rightarrow> dragActive (fst c))"
proof -
  have "dragActive (fst (fst (handleFiles p files d))) = dragActive (fst d)" for files d
    by (cases "files = []") (simp_all add: handleFiles_fields)
  then show ?thesis
    by (cases e) (auto simp: onInputChange_def onDrop_def onDragOver_def onDragLeave_def)
qed

end
