(* ===== verification/Upload_View.thy ===== *)
theory Upload_View
  imports Upload_Button Decimal
begin

text \<open>
  What the upload component of \<^verbatim>\<open>src/src/components/UploadButton.jsx\<close> returns for a state
  (lines 133 to 213), as data: the hidden file input with the three props it passes on, the
  drop zone with its class and its labels, the select button, the list of previews with a
  key, and an image or a name and size for each selected file, the Clear button, and the
  list of validation errors. The two handlers that are written inline in the markup, the
  key handler of the drop zone and the click handler of the select button, are
  \<open>onDropzoneKeyDown\<close> and \<open>onButtonClick\<close>. The lemmas show that the keys of the
  previews are pairwise distinct, and that the elements that raise an event are present
  exactly when the state machine of \<open>Upload_Button\<close> enables the event.
\<close>

section \<open>Labels\<close>

record upload_labels =
  className :: js_string
  buttonLabel :: js_string
  dropzoneLabel :: js_string

definition default_labels :: upload_labels where
  "default_labels =
     \<lparr>className = [], buttonLabel = ''Choose file(s)'',
      dropzoneLabel = ''Drag & drop files here, or click to select''\<rparr>"

section \<open>The rendered elements\<close>

datatype item_body = Img url js_string | FileMeta js_string js_string

record item_view =
  iv_key :: js_string
  iv_body :: item_body

record input_view =
  in_multiple :: bool
  in_accept :: js_string
  in_disabled :: bool

record upload_view =
  uv_class :: js_string
  uv_input :: input_view
  uv_dropzone_class :: js_string
  uv_aria_disabled :: bool
  uv_aria_label :: js_string
  uv_span :: js_string
  uv_button_disabled :: bool
  uv_button :: js_string
  uv_previews :: "item_view list option"
  uv_errors :: "(nat \<times> js_string) list option"

definition preview_key :: "nat \<Rightarrow> preview_item \<Rightarrow> js_string" where
  "preview_key idx s =
     file_name (item_file s) @ ''-'' @ show_nat (file_size (item_file s)) @ ''-'' @ show_nat idx"

definition preview_body :: "preview_item \<Rightarrow> item_body" where
  "preview_body s =
     (case previewUrl s of
        Some u \<Rightarrow> Img u (file_name (item_file s))
      | None \<Rightarrow> FileMeta (file_name (item_file s)) (humanFileSize (file_size (item_file s))))"

definition render_previews :: "preview_item list \<Rightarrow> item_view list option" where
  "render_previews sel =
     (if length sel > 0
      then Some (map (\<lambda>(idx, s). \<lparr>iv_key = preview_key idx s, iv_body = preview_body s\<rparr>)
                  (List.enumerate 0 sel))
      else None)"

definition render_errors :: "js_string list \<Rightarrow> (nat \<times> js_string) list option" where
  "render_errors errs = (if length errs > 0 then Some (List.enumerate 0 errs) else None)"

definition dropzone_class :: "upload_props \<Rightarrow> upload_state \<Rightarrow> js_string" where
  "dropzone_class p s =
     ''upload-dropzone '' @ (if dragActive s then ''drag-active'' else []) @ '' '' @
     (if disabled p then ''disabled'' else [])"

definition render_upload :: "upload_props \<Rightarrow> upload_labels \<Rightarrow> upload_state \<Rightarrow> upload_view" where
  "render_upload p l s =
     \<lparr>uv_class = ''upload-btn '' @ className l,
      uv_input = \<lparr>in_multiple = multiple p, in_accept = accept p, in_disabled = disabled p\<rparr>,
      uv_dropzone_class = dropzone_class p s,
      uv_aria_disabled = disabled p,
      uv_aria_label = dropzoneLabel l,
      uv_span = dropzoneLabel l,
      uv_button_disabled = disabled p,
      uv_button = buttonLabel l,
      uv_previews = render_previews (selected s),
      uv_errors = render_errors (errors s)\<rparr>"

section \<open>The inline handlers\<close>

record handled =
  preventDefault :: bool
  stopPropagation :: bool
  pickerOpened :: bool

definition onDropzoneKeyDown :: "upload_props \<Rightarrow> js_string \<Rightarrow> handled" where
  "onDropzoneKeyDown p k =
     (if k = ''Enter'' \<or> k = '' ''
      then \<lparr>preventDefault = True, stopPropagation = False, pickerOpened = openFilePicker p\<rparr>
      else \<lparr>preventDefault = False, stopPropagation = False, pickerOpened = False\<rparr>)"

definition onButtonClick :: "upload_props \<Rightarrow> handled" where
  "onButtonClick p =
     \<lparr>preventDefault = False, stopPropagation = True, pickerOpened = openFilePicker p\<rparr>"

section \<open>Reading the view\<close>

definition preview_keys :: "upload_view \<Rightarrow> js_string list" where
  "preview_keys v = (case uv_previews v of None \<Rightarrow> [] | Some items \<Rightarrow> map iv_key items)"

definition preview_index :: "js_string \<Rightarrow> nat" where
  "preview_index k = read_nat (rev (takeWhile is_digit (rev k)))"

lemmas upload_view_eval [js_eval] =
  default_labels_def preview_key_def preview_body_def render_previews_def render_errors_def
  dropzone_class_def render_upload_def onDropzoneKeyDown_def onButtonClick_def
  preview_keys_def preview_index_def

section \<open>Keys of the previews\<close>

lemma preview_index_key: "preview_index (preview_key idx s) = idx"
proof -
  have "preview_key idx s =
      (file_name (item_file s) @ ''-'' @ show_nat (file_size (item_file s))) @ CHR ''-'' # show_nat idx"
    by (simp add: preview_key_def)
  then show ?thesis
    by (simp only: preview_index_def takeWhile_digits_rev rev_rev_ident read_show_nat)
qed

lemma preview_keys_render:
  "preview_keys (render_upload p l s) =
     map (\<lambda>(idx, s). preview_key idx s) (List.enumerate 0 (selected s))"
  by (simp add: preview_keys_def render_upload_def render_previews_def case_prod_unfold)

text \<open>
  C26. The keys of the rendered previews are pairwise distinct, whatever files are
  selected, also when the same file is selected twice: the index of a preview can be read
  back from the end of its key.
\<close>

theorem preview_keys_distinct: "distinct (preview_keys (render_upload p l s))"
proof -
  have "inj_on (\<lambda>(idx, s). preview_key idx s) (set (List.enumerate 0 (selected s)))"
  proof (rule inj_onI, clarify)
    fix i a j b
    assume m: "(i, a) \<in> set (List.enumerate 0 (selected s))"
        "(j, b) \<in> set (List.enumerate 0 (selected s))"
      and k: "preview_key i a = preview_key j b"
    from k preview_index_key [of i a] preview_index_key [of j b] have "i = j" by simp
    with m show "i = j \<and> a = b" by (auto simp: in_set_enumerate_eq)
  qed
  then show ?thesis
    by (simp add: preview_keys_render distinct_map)
qed

section \<open>The view and the events\<close>

text \<open>
  The elements that raise an event are on screen exactly when the state machine
  enables the event: the Clear button is rendered if and only if something is selected,
  the file input is enabled if and only if the component is, and the key handler of the
  drop zone opens the picker for Enter and for the space bar only, and never when the
  component is disabled.
\<close>

theorem view_matches_enabled:
  "enabled p ClickClear c = (uv_previews (render_upload p l (fst c)) \<noteq> None) \<and>
   enabled p (InputChange fs) c = (\<not> in_disabled (uv_input (render_upload p l (fst c)))) \<and>
   pickerOpened (onDropzoneKeyDown p k) = ((k = ''Enter'' \<or> k = '' '') \<and> \<not> disabled p) \<and>
   pickerOpened (onButtonClick p) = (\<not> uv_button_disabled (render_upload p l (fst c)))"
  by (simp add: enabled_def render_upload_def render_previews_def onDropzoneKeyDown_def
      onButtonClick_def openFilePicker_def)

end
