(* ===== verification/Gateway.thy ===== *)
theory Gateway
  imports JS_Prelude
begin

text \<open>
  The remote gateway of \<^verbatim>\<open>src/src/services/api.js\<close>: three functions that each send one
  HTTP request with \<^verbatim>\<open>axios\<close> and turn a failure into a fallback value, so that none of
  them ever throws.

  The promise returned by \<^verbatim>\<open>axios\<close> either resolves with a response whose \<^verbatim>\<open>data\<close> is
  the decoded body, or rejects (network failure, a status outside 2xx, a body that cannot
  be read): \<open>'a outcome\<close>. The data of a response is modelled by the fields the callers
  read: a missing, \<^verbatim>\<open>null\<close> or \<^verbatim>\<open>undefined\<close> field is \<open>None\<close>, and the \<^verbatim>\<open>files\<close>
  field of a listing is an array of names or some other truthy value. Each function of the
  model maps the outcome of its request to the value the source function returns; the
  URL and the payload of the request are separate definitions.
\<close>

section \<open>Outcomes and response data\<close>

datatype 'a outcome = Resolved 'a | Rejected

record chat_data =
  reply :: "js_string option"

record upload_data =
  ud_message :: "js_string option"
  ud_error :: "js_string option"

datatype files_value = FileArray "js_string list" | NotArray

type_synonym list_data = "files_value option"

section \<open>The requests\<close>

definition API_BASE_URL :: js_string where
  "API_BASE_URL = ''http://localhost:8000''"

definition chat_url :: js_string where
  "chat_url = API_BASE_URL @ ''/chat''"

definition upload_url :: "js_string \<Rightarrow> js_string" where
  "upload_url role = API_BASE_URL @ ''/upload/'' @ role"

definition list_url :: "js_string \<Rightarrow> js_string" where
  "list_url role = API_BASE_URL @ ''/list/'' @ role"

section \<open>The three calls\<close>

definition sendMessage :: "chat_data outcome \<Rightarrow> chat_data" where
  "sendMessage response =
     (case response of
        Resolved d \<Rightarrow> d
      | Rejected \<Rightarrow> \<lparr>reply = Some ''Failed to send message''\<rparr>)"

definition uploadFile :: "upload_data outcome \<Rightarrow> upload_data" where
  "uploadFile response =
     (case response of
        Resolved d \<Rightarrow> d
      | Rejected \<Rightarrow> \<lparr>ud_message = None, ud_error = Some ''Failed to upload file''\<rparr>)"

definition listFiles :: "list_data outcome \<Rightarrow> files_value" where
  "listFiles response =
     (case response of
        Resolved (Some files) \<Rightarrow> files
      | Resolved None \<Rightarrow> FileArray []
      | Rejected \<Rightarrow> FileArray [])"

lemmas gateway_eval [js_eval] =
  API_BASE_URL_def chat_url_def upload_url_def list_url_def sendMessage_def uploadFile_def
  listFiles_def

section \<open>Failure behaviour\<close>

lemma sendMessage_simps [simp]:
  "sendMessage (Resolved d) = d"
  "sendMessage Rejected = \<lparr>reply = Some ''Failed to send message''\<rparr>"
  by (simp_all add: sendMessage_def)

lemma uploadFile_simps [simp]:
  "uploadFile (Resolved d) = d"
  "uploadFile Rejected = \<lparr>ud_message = None, ud_error = Some ''Failed to upload file''\<rparr>"
  by (simp_all add: uploadFile_def)

lemma listFiles_simps [simp]:
  "listFiles (Resolved (Some files)) = files"
  "listFiles (Resolved None) = FileArray []"
  "listFiles Rejected = FileArray []"
  by (simp_all add: listFiles_def)

text \<open>
  A failed request never surfaces as an exception: each gateway function returns its
  fallback value (a reply text, an error object without a message, the empty list), and a
  successful request returns the data of the response unchanged.
\<close>

theorem gateway_fallbacks:
  "reply (sendMessage Rejected) = Some ''Failed to send message'' \<and>
   ud_message (uploadFile Rejected) = None \<and>
   ud_error (uploadFile Rejected) = Some ''Failed to upload file'' \<and>
   listFiles Rejected = FileArray [] \<and>
   sendMessage (Resolved c) = c \<and> uploadFile (Resolved u) = u \<and>
   listFiles (Resolved l) = (case l of None \<Rightarrow> FileArray [] | Some files \<Rightarrow> files)"
  by (simp split: option.splits)

text \<open>
  The three request URLs are built from the constant base
  \<^verbatim>\<open>http://localhost:8000\<close>, with the role appended unencoded.
\<close>

theorem gateway_urls:
  "chat_url = ''http://localhost:8000/chat'' \<and>
   upload_url role = ''http://localhost:8000/upload/'' @ role \<and>
   list_url role = ''http://localhost:8000/list/'' @ role"
  by (simp add: chat_url_def upload_url_def list_url_def API_BASE_URL_def)

end
