(* ===== verification/URI_Encode.thy ===== *)
theory URI_Encode
  imports JS_Prelude
begin

text \<open>
  \<^verbatim>\<open>encodeURIComponent\<close> on strings of code units below U+0100, as the page calls it on
  a file name before it builds a download URL (\<^verbatim>\<open>src/src/pages/Home.js\<close>, line 118).
  A code unit of the unreserved set (letters, digits and \<^verbatim>\<open>- _ . ! ~ * ' ( )\<close>) is kept;
  any other is replaced by the escapes of its UTF-8 bytes, one byte below U+0080 and two
  bytes from there on, each \<^verbatim>\<open>%\<close> followed by two upper-case hexadecimal digits.
\<close>

section \<open>Definitions\<close>

definition unreserved :: "char \<Rightarrow> bool" where
  "unreserved c =
     (let n = of_char c :: nat in
        (65 \<le> n \<and> n \<le> 90) \<or> (97 \<le> n \<and> n \<le> 122) \<or> (48 \<le> n \<and> n \<le> 57) \<or>
        n \<in> {45, 95, 46, 33, 126, 42, 39, 40, 41})"

definition hex_digit :: "nat \<Rightarrow> char" where
  "hex_digit n = ''0123456789ABCDEF'' ! (n mod 16)"

definition percent :: "nat \<Rightarrow> js_string" where
  "percent b = [CHR ''%'', hex_digit (b div 16), hex_digit b]"

definition utf8 :: "nat \<Rightarrow> nat list" where
  "utf8 n = (if n < 128 then [n] else [192 + n div 64, 128 + n mod 64])"

definition encodeChar :: "char \<Rightarrow> js_string" where
  "encodeChar c = (if unreserved c then [c] else concat (map percent (utf8 (of_char c))))"

definition encodeURIComponent :: "js_string \<Rightarrow> js_string" where
  "encodeURIComponent s = concat (map encodeChar s)"

lemmas uri_eval [js_eval] =
  unreserved_def hex_digit_def percent_def utf8_def encodeChar_def encodeURIComponent_def

section \<open>Structure of the encoding\<close>

lemma encodeURIComponent_simps [simp]:
  "encodeURIComponent [] = []"
  "encodeURIComponent (c # s) = encodeChar c @ encodeURIComponent s"
  "encodeURIComponent (s @ t) = encodeURIComponent s @ encodeURIComponent t"
  by (simp_all add: encodeURIComponent_def)

lemma encodeChar_unreserved [simp]: "unreserved c \<Longrightarrow> encodeChar c = [c]"
  by (simp add: encodeChar_def)

lemma encodeURIComponent_unreserved:
  "\<forall>c \<in> set s. unreserved c \<Longrightarrow> encodeURIComponent s = s"
  by (induction s) simp_all

lemma encodeChar_not_Nil [simp]: "encodeChar c \<noteq> []"
  by (simp add: encodeChar_def utf8_def percent_def)

lemma encodeURIComponent_Nil_iff [simp]: "encodeURIComponent s = [] \<longleftrightarrow> s = []"
  by (cases s) simp_all

section \<open>Suffixes under the encoding\<close>

lemma unreserved_lower_char [simp]: "unreserved (lower_char c) = unreserved c"
  by (auto simp: unreserved_def of_char_lower_char Let_def)

lemma lower_char_percent [simp]: "lower_char CHR ''%'' = CHR ''%''"
  by (simp add: lower_char_def)

lemma lower_hex_digit: "lower_char (hex_digit k) \<in> set ''0123456789abcdef''"
proof -
  have small: "m < 16 \<Longrightarrow> m \<in> {0, 1, 2, 3, 4, 5, 6, 7, 8, 9, 10, 11, 12, 13, 14, 15}" for m :: nat
    by (simp only: insert_iff empty_iff) arith
  have "k mod 16 \<in> {0, 1, 2, 3, 4, 5, 6, 7, 8, 9, 10, 11, 12, 13, 14, 15}"
    by (rule small) simp
  then show ?thesis
    by (auto simp: hex_digit_def lower_char_def char_of_eval)
qed

lemma encode_keeps_suffix:
  assumes "endsWith (toLowerCase fn) suf" and "\<forall>c \<in> set suf. unreserved c"
  shows "endsWith (toLowerCase (encodeURIComponent fn)) suf"
proof -
  from assms(1) obtain pre where pre: "toLowerCase fn = pre @ suf"
    by (auto simp: endsWith_iff_suffix suffix_def)
  define k where "k = length pre"
  from pre have low: "toLowerCase (drop k fn) = suf"
    by (simp add: toLowerCase_def k_def flip: drop_map)
  then have "\<forall>c \<in> set (drop k fn). unreserved (lower_char c)"
    using assms(2) by (auto simp: toLowerCase_def)
  then have "encodeURIComponent (drop k fn) = drop k fn"
    by (intro encodeURIComponent_unreserved) simp
  moreover have "encodeURIComponent (take k fn @ drop k fn) =
      encodeURIComponent (take k fn) @ encodeURIComponent (drop k fn)"
    by (simp only: encodeURIComponent_simps)
  ultimately have "toLowerCase (encodeURIComponent fn) =
      toLowerCase (encodeURIComponent (take k fn)) @ suf"
    using low by simp
  then show ?thesis
    by (simp add: endsWith_iff_suffix suffix_def)
qed

lemma escape_shape:
  assumes "\<not> unreserved c"
  shows "\<exists>pre h1 h2. toLowerCase (encodeChar c) = pre @ [CHR ''%'', h1, h2] \<and>
           h1 \<in> set ''0123456789abcdef'' \<and> h2 \<in> set ''0123456789abcdef''"
proof (cases "(of_char c :: nat) < 128")
  case True
  with assms have "toLowerCase (encodeChar c) =
      [] @ [CHR ''%'', lower_char (hex_digit (of_char c div 16)), lower_char (hex_digit (of_char c))]"
    by (simp add: encodeChar_def utf8_def percent_def)
  with lower_hex_digit show ?thesis by blast
next
  case False
  with assms have "toLowerCase (encodeChar c) =
      toLowerCase (percent (192 + of_char c div 64)) @
      [CHR ''%'', lower_char (hex_digit ((128 + of_char c mod 64) div 16)),
       lower_char (hex_digit (128 + of_char c mod 64))]"
    by (simp add: encodeChar_def utf8_def percent_def)
  with lower_hex_digit show ?thesis by blast
qed

lemma prefix_rev_encode_step:
  assumes pre: "prefix (x # q) (rev (toLowerCase (encodeURIComponent fn)))"
    and esc: "\<And>h1 h2 rest. h1 \<in> set ''0123456789abcdef'' \<Longrightarrow> h2 \<in> set ''0123456789abcdef'' \<Longrightarrow>
                \<not> prefix (x # q) (h2 # h1 # CHR ''%'' # rest)"
  shows "\<exists>fn' c. fn = fn' @ [c] \<and> unreserved c \<and> lower_char c = x \<and>
           prefix q (rev (toLowerCase (encodeURIComponent fn')))"
proof (cases fn rule: rev_cases)
  case Nil
  with pre show ?thesis by simp
next
  case (snoc fn' c)
  show ?thesis
  proof (cases "unreserved c")
    case True
    with pre snoc show ?thesis by simp
  next
    case False
    from escape_shape [OF False] obtain e h1 h2 where
      e: "toLowerCase (encodeChar c) = e @ [CHR ''%'', h1, h2]"
      and h: "h1 \<in> set ''0123456789abcdef''" "h2 \<in> set ''0123456789abcdef''"
      by blast
    from pre snoc e have "prefix (x # q)
        (h2 # h1 # CHR ''%'' # rev e @ rev (toLowerCase (encodeURIComponent fn')))"
      by simp
    with esc [OF h] show ?thesis by blast
  qed
qed

lemma pdf_suffix_reflect:
  assumes "endsWith (toLowerCase (encodeURIComponent fn)) ''.pdf''"
  shows "endsWith (toLowerCase fn) ''.pdf''"
proof -
  from assms have p4: "prefix ''fdp.'' (rev (toLowerCase (encodeURIComponent fn)))"
    by (simp add: endsWith_iff_suffix suffix_to_prefix)
  from prefix_rev_encode_step [OF p4] obtain f3 c4 where
    s4: "fn = f3 @ [c4]" "lower_char c4 = CHR ''f''"
    and p3: "prefix ''dp.'' (rev (toLowerCase (encodeURIComponent f3)))"
    by auto
  from prefix_rev_encode_step [OF p3] obtain f2 c3 where
    s3: "f3 = f2 @ [c3]" "lower_char c3 = CHR ''d''"
    and p2: "prefix ''p.'' (rev (toLowerCase (encodeURIComponent f2)))"
    by auto
  from prefix_rev_encode_step [OF p2] obtain f1 c2 where
    s2: "f2 = f1 @ [c2]" "lower_char c2 = CHR ''p''"
    and p1: "prefix ''.'' (rev (toLowerCase (encodeURIComponent f1)))"
    by auto
  from prefix_rev_encode_step [OF p1] obtain f0 c1 where
    s1: "f1 = f0 @ [c1]" "lower_char c1 = CHR ''.''"
    by auto
  from s1 s2 s3 s4 have "toLowerCase fn = toLowerCase f0 @ ''.pdf''" by simp
  then show ?thesis by (simp add: endsWith_iff_suffix suffix_def)
qed

end
