(* ===== verification/URI_Decode.thy ===== *)
theory URI_Decode
  imports URI_Encode
begin

text \<open>
  A reference decoder for the encoding of \<open>URI_Encode\<close>, as the server applies it to the
  path of a download request: \<open>unescape\<close> turns the literal code units and the
  \<^verbatim>\<open>%XY\<close> escapes back into bytes, \<open>utf8_decode\<close> turns one- and two-byte sequences back
  into code units below U+0100. Either returns \<open>None\<close> on input that is not well formed.
  The decoder is not code of the repository. Its lemmas (the decoder inverts the encoding,
  the encoding is injective and holds no slash) are the library that \<open>Download_Route\<close>
  uses to read the request URLs of \<^verbatim>\<open>handlePreview\<close> (\<^verbatim>\<open>src/src/pages/Home.js\<close>, lines 118
  to 140) back from the side of the service.
\<close>

section \<open>The decoder\<close>

definition hex_val :: "char \<Rightarrow> nat option" where
  "hex_val c =
     (let n = (of_char c :: nat)
      in if 48 \<le> n \<and> n \<le> 57 then Some (n - 48)
         else if 65 \<le> n \<and> n \<le> 70 then Some (n - 55)
         else if 97 \<le> n \<and> n \<le> 102 then Some (n - 87)
         else None)"

fun unescape :: "js_string \<Rightarrow> nat list option" where
  "unescape [] = Some []"
| "unescape (c # cs) =
     (if c = CHR ''%'' then
        (case cs of
           h1 # h2 # rest \<Rightarrow>
             (case (hex_val h1, hex_val h2, unescape rest) of
                (Some a, Some b, Some bytes) \<Rightarrow> Some ((16 * a + b) # bytes)
              | _ \<Rightarrow> None)
         | _ \<Rightarrow> None)
      else map_option (\<lambda>bytes. of_char c # bytes) (unescape cs))"

fun utf8_decode :: "nat list \<Rightarrow> js_string option" where
  "utf8_decode [] = Some []"
| "utf8_decode [b] = (if b < 128 then Some [char_of b] else None)"
| "utf8_decode (b # b2 # bs) =
     (if b < 128 then map_option (\<lambda>s. char_of b # s) (utf8_decode (b2 # bs))
      else if 194 \<le> b \<and> b \<le> 195 \<and> 128 \<le> b2 \<and> b2 < 192
      then map_option (\<lambda>s. char_of ((b - 192) * 64 + (b2 - 128)) # s) (utf8_decode bs)
      else None)"

definition decodeURIComponent :: "js_string \<Rightarrow> js_string option" where
  "decodeURIComponent s = (case unescape s of None \<Rightarrow> None | Some bytes \<Rightarrow> utf8_decode bytes)"

definition uri_char :: "char \<Rightarrow> bool" where
  "uri_char c \<longleftrightarrow> unreserved c \<or> c = CHR ''%''"

section \<open>Bytes of the encoding\<close>

lemma of_char_less_256: "(of_char c :: nat) < 256"
proof -
  have "(of_char c :: nat) mod 256 < 256" by simp
  then show ?thesis by (simp only: of_char_mod_256)
qed

lemma hex_val_hex_digit: "hex_val (hex_digit k) = Some (k mod 16)"
proof -
  have small: "m < 16 \<Longrightarrow> m \<in> {0, 1, 2, 3, 4, 5, 6, 7, 8, 9, 10, 11, 12, 13, 14, 15}" for m :: nat
    by (simp only: insert_iff empty_iff) arith
  have "k mod 16 \<in> {0, 1, 2, 3, 4, 5, 6, 7, 8, 9, 10, 11, 12, 13, 14, 15}"
    by (rule small) simp
  then show ?thesis
    by (auto simp: hex_digit_def hex_val_def)
qed

lemma unescape_percent:
  "b < 256 \<Longrightarrow> unescape (percent b @ rest) = map_option (\<lambda>bytes. b # bytes) (unescape rest)"
  by (cases "unescape rest") (simp_all add: percent_def hex_val_hex_digit)

lemma unreserved_not_percent: "unreserved c \<Longrightarrow> c \<noteq> CHR ''%''"
  by (auto simp: unreserved_def)

lemma unreserved_ascii: "unreserved c \<Longrightarrow> (of_char c :: nat) < 128"
  unfolding unreserved_def Let_def insert_iff empty_iff by (elim disjE conjE) simp_all

lemma unescape_literal:
  "c \<noteq> CHR ''%'' \<Longrightarrow> unescape (c # rest) = map_option (\<lambda>bytes. of_char c # bytes) (unescape rest)"
  by simp

lemma unescape_utf8:
  assumes "n < 256"
  shows "unescape (concat (map percent (utf8 n)) @ rest) =
           map_option (\<lambda>bytes. utf8 n @ bytes) (unescape rest)"
proof (cases "n < 128")
  case True
  with assms show ?thesis by (simp add: utf8_def unescape_percent)
next
  case False
  with assms have "192 + n div 64 < 256" "128 + n mod 64 < 256" by simp_all
  with False show ?thesis
    by (simp add: utf8_def unescape_percent option.map_comp comp_def)
qed

lemma unescape_encodeChar:
  "unescape (encodeChar c @ rest) =
     map_option (\<lambda>bytes. utf8 (of_char c) @ bytes) (unescape rest)"
proof (cases "unreserved c")
  case True
  with unreserved_ascii [OF True] show ?thesis
    by (simp add: unreserved_not_percent unescape_literal utf8_def del: unescape.simps)
next
  case False
  with unescape_utf8 [OF of_char_less_256] show ?thesis
    by (simp add: encodeChar_def)
qed

lemma unescape_encode:
  "unescape (encodeURIComponent s) = Some (concat (map (\<lambda>c. utf8 (of_char c)) s))"
proof (induction s)
  case Nil
  then show ?case by simp
next
  case (Cons c s)
  then show ?case by (simp add: unescape_encodeChar del: unescape.simps)
qed

lemma utf8_decode_bytes:
  assumes "n < 256"
  shows "utf8_decode (utf8 n @ bytes) = map_option (\<lambda>s. char_of n # s) (utf8_decode bytes)"
proof (cases "n < 128")
  case True
  then show ?thesis by (cases bytes) (simp_all add: utf8_def)
next
  case False
  with assms have "194 \<le> 192 + n div 64" "192 + n div 64 \<le> 195" by simp_all
  moreover have "n div 64 * 64 + n mod 64 = n" by simp
  ultimately show ?thesis using False by (simp add: utf8_def)
qed

lemma utf8_decode_utf8:
  "utf8_decode (utf8 (of_char c) @ bytes) = map_option (\<lambda>s. c # s) (utf8_decode bytes)"
  using utf8_decode_bytes [OF of_char_less_256, of c bytes] by simp

lemma utf8_decode_concat:
  "utf8_decode (concat (map (\<lambda>c. utf8 (of_char c)) s)) = Some s"
  by (induction s) (simp_all add: utf8_decode_utf8)

lemma decode_encode_eq: "decodeURIComponent (encodeURIComponent s) = Some s"
  by (simp add: decodeURIComponent_def unescape_encode utf8_decode_concat)

lemma encodeURIComponent_inj:
  assumes "encodeURIComponent s = encodeURIComponent t"
  shows "s = t"
proof -
  have "Some s = decodeURIComponent (encodeURIComponent s)"
    by (simp only: decode_encode_eq)
  also have "\<dots> = decodeURIComponent (encodeURIComponent t)"
    by (simp only: assms)
  also have "\<dots> = Some t"
    by (simp only: decode_encode_eq)
  finally show ?thesis by simp
qed

section \<open>The alphabet of the encoding\<close>

lemma unreserved_hex_digit: "unreserved (hex_digit k)"
proof -
  have small: "m < 16 \<Longrightarrow> m \<in> {0, 1, 2, 3, 4, 5, 6, 7, 8, 9, 10, 11, 12, 13, 14, 15}" for m :: nat
    by (simp only: insert_iff empty_iff) arith
  have "k mod 16 \<in> {0, 1, 2, 3, 4, 5, 6, 7, 8, 9, 10, 11, 12, 13, 14, 15}"
    by (rule small) simp
  then show ?thesis by (auto simp: hex_digit_def unreserved_def)
qed

lemma uri_char_encodeChar: "list_all uri_char (encodeChar c)"
  by (simp add: encodeChar_def utf8_def percent_def uri_char_def unreserved_hex_digit)

lemma uri_char_encode: "c \<in> set (encodeURIComponent s) \<Longrightarrow> uri_char c"
  using uri_char_encodeChar by (induction s) (auto simp: list_all_iff)

lemma encode_no_slash: "CHR ''/'' \<notin> set (encodeURIComponent f)"
  using uri_char_encode [of "CHR ''/''" f] by (auto simp: uri_char_def unreserved_def)

end
