(* ===== verification/Url_Match.thy ===== *)
theory Url_Match
  imports JS_Prelude
begin

text \<open>
  The regular expression \<^verbatim>\<open>/(https?:\/\/[^\s]+)/g\<close> of \<^verbatim>\<open>linkify\<close>
  (\<^verbatim>\<open>src/src/components/ChatWindow.jsx\<close>, line 8) and the search \<^verbatim>\<open>exec\<close> performs with
  it. A match at a position is \<^verbatim>\<open>http://\<close> or \<^verbatim>\<open>https://\<close> followed by the longest
  non-empty run of code units that are not white space: \<open>url_match\<close> gives the length of
  the match at the start of a string, if there is one. \<^verbatim>\<open>exec\<close> returns the first position
  at or after \<^verbatim>\<open>lastIndex\<close> that has a match: \<open>find_url\<close> gives its offset and length in
  the rest of the text.
\<close>

section \<open>Definitions\<close>

definition url_match :: "js_string \<Rightarrow> nat option" where
  "url_match s =
     (let scheme = (if startsWith s ''https://'' then 8 else if startsWith s ''http://'' then 7 else 0);
          rest = takeWhile (\<lambda>c. \<not> isWhiteSpace c) (drop scheme s)
      in if scheme = 0 \<or> rest = [] then None else Some (scheme + length rest))"

fun find_url :: "js_string \<Rightarrow> (nat \<times> nat) option" where
  "find_url [] = None"
| "find_url (c # cs) =
     (case url_match (c # cs) of
        Some n \<Rightarrow> Some (0, n)
      | None \<Rightarrow> (case find_url cs of None \<Rightarrow> None | Some (i, n) \<Rightarrow> Some (Suc i, n)))"

lemmas url_eval [js_eval] = url_match_def

section \<open>Bounds of a match\<close>

lemma startsWith_length: "startsWith s p \<Longrightarrow> length p \<le> length s"
  by (auto simp: startsWith_def dest: arg_cong [where f = length])

lemma takeWhile_drop_length: "k \<le> length s \<Longrightarrow> k + length (takeWhile P (drop k s)) \<le> length s"
  using length_takeWhile_le [of P "drop k s"] by simp

lemma url_match_bounds: "url_match s = Some n \<Longrightarrow> 7 < n \<and> n \<le> length s"
  using startsWith_length [of s "''https://''"] startsWith_length [of s "''http://''"]
    takeWhile_drop_length [of 8 s "\<lambda>c. \<not> isWhiteSpace c"]
    takeWhile_drop_length [of 7 s "\<lambda>c. \<not> isWhiteSpace c"]
  by (auto simp: url_match_def Let_def split: if_splits)

lemma find_url_bounds: "find_url s = Some (i, n) \<Longrightarrow> 7 < n \<and> i + n \<le> length s"
proof (induction s arbitrary: i)
  case Nil
  then show ?case by simp
next
  case (Cons c cs)
  show ?case
  proof (cases "url_match (c # cs)")
    case None
    with Cons show ?thesis by (auto split: option.splits)
  next
    case (Some m)
    with Cons.prems url_match_bounds [OF Some] show ?thesis by simp
  qed
qed

lemma find_url_match:
  "find_url s = Some (i, n) \<Longrightarrow> url_match (drop i s) = Some n \<and> (\<forall>j < i. url_match (drop j s) = None)"
proof (induction s arbitrary: i)
  case Nil
  then show ?case by simp
next
  case (Cons c cs)
  show ?case
  proof (cases "url_match (c # cs)")
    case None
    with Cons.prems obtain i' where i': "find_url cs = Some (i', n)" "i = Suc i'"
      by (auto split: option.splits)
    from Cons.IH [OF i'(1)] None i'(2) show ?thesis
      by (auto simp: less_Suc_eq_0_disj)
  next
    case (Some m)
    with Cons.prems show ?thesis by simp
  qed
qed

lemma find_url_None: "find_url s = None \<Longrightarrow> url_match (drop j s) = None"
proof (induction s arbitrary: j)
  case Nil
  then show ?case by (simp add: url_match_def startsWith_def)
next
  case (Cons c cs)
  then show ?case by (cases j) (auto split: option.splits)
qed

end
