(* ===== verification/Chat_Window.thy ===== *)
theory Chat_Window
  imports Url_Match
begin

text \<open>
  The chat window of \<^verbatim>\<open>src/src/components/ChatWindow.jsx\<close>: the messages it receives
  from the page, the key it gives each rendered message, the test that decides whether
  a new message scrolls the window, and \<^verbatim>\<open>linkify\<close>, which cuts the text of a message
  into plain segments and links.
\<close>

section \<open>Messages\<close>

record chat_message =
  msg_id :: "js_string option"
  sender :: "js_string option"
  msg_text :: js_string

definition message_key :: "nat \<Rightarrow> chat_message \<Rightarrow> js_string" where
  "message_key idx msg =
     (case msg_id msg of
        Some i \<Rightarrow> i
      | None \<Rightarrow>
          (case sender msg of Some s \<Rightarrow> s | None \<Rightarrow> ''unknown'') @ ''-'' @ show_nat idx @ ''-'' @
          take 24 (msg_text msg))"

definition message_keys :: "chat_message list \<Rightarrow> js_string list" where
  "message_keys msgs = map (\<lambda>(idx, msg). message_key idx msg) (List.enumerate 0 msgs)"

definition isNearBottom :: "(int \<times> int \<times> int) option \<Rightarrow> int \<Rightarrow> bool" where
  "isNearBottom el threshold =
     (case el of
        None \<Rightarrow> True
      | Some (scrollHeight, scrollTop, clientHeight) \<Rightarrow>
          scrollHeight - scrollTop - clientHeight \<le> threshold)"

section \<open>Links\<close>

text \<open>
  The loop of \<^verbatim>\<open>linkify\<close> with its variable \<^verbatim>\<open>lastIndex\<close>; a link keeps the index of its
  match, which is its key, and the matched text, which is both its target and its label.
  The loop ends because every match is at least eight code units long.
\<close>

datatype part = Plain js_string | Link nat js_string

function linkify_from :: "nat \<Rightarrow> js_string \<Rightarrow> part list" where
  "linkify_from lastIndex str =
     (case find_url (drop lastIndex str) of
        None \<Rightarrow> (if lastIndex < length str then [Plain (drop lastIndex str)] else [])
      | Some (off, n) \<Rightarrow>
          (if lastIndex + off > lastIndex then [Plain (take off (drop lastIndex str))] else []) @
          Link (lastIndex + off) (take n (drop (lastIndex + off) str)) #
          linkify_from (lastIndex + off + n) str)"
  by pat_completeness auto

termination
  by (relation "measure (\<lambda>(lastIndex, str). length str - lastIndex)")
    (auto dest!: find_url_bounds)

definition linkify :: "js_string \<Rightarrow> part list" where
  "linkify str = linkify_from 0 str"

primrec part_text :: "part \<Rightarrow> js_string" where
  "part_text (Plain s) = s"
| "part_text (Link k s) = s"

definition link_keys :: "part list \<Rightarrow> nat list" where
  "link_keys ps = concat (map (\<lambda>p. case p of Link k u \<Rightarrow> [k] | Plain t \<Rightarrow> []) ps)"

declare linkify_from.simps [simp del]

lemmas chat_eval [js_eval] = message_key_def message_keys_def isNearBottom_def linkify_def

section \<open>The scanner\<close>

lemma linkify_from_None:
  "find_url (drop i str) = None \<Longrightarrow>
   linkify_from i str = (if i < length str then [Plain (drop i str)] else [])"
  by (subst linkify_from.simps) simp

lemma linkify_from_Some:
  "find_url (drop i str) = Some (off, n) \<Longrightarrow>
   linkify_from i str =
     (if 0 < off then [Plain (take off (drop i str))] else []) @
     Link (i + off) (take n (drop (i + off) str)) # linkify_from (i + off + n) str"
  by (subst linkify_from.simps) simp

lemma concat_linkify_from: "concat (map part_text (linkify_from i str)) = drop i str"
proof (induction i str rule: linkify_from.induct)
  case (1 i str)
  show ?case
  proof (cases "find_url (drop i str)")
    case None
    then show ?thesis by (simp add: linkify_from_None)
  next
    case (Some m)
    obtain off n where m: "m = (off, n)" by (cases m)
    from 1 [OF Some m [symmetric]] have
      ih: "concat (map part_text (linkify_from (i + off + n) str)) = drop (i + off + n) str" .
    have "take off (drop i str) @ take n (drop (i + off) str) @ drop (i + off + n) str = drop i str"
      by (metis add.commute append_take_drop_id drop_drop)
    with Some m ih show ?thesis
      by (cases "off = 0") (simp_all add: linkify_from_Some)
  qed
qed

lemma url_match_shape:
  assumes "url_match s = Some n"
  shows "(startsWith s ''http://'' \<or> startsWith s ''https://'') \<and>
         (\<forall>c \<in> set (take n s). \<not> isWhiteSpace c) \<and>
         (n = length s \<or> isWhiteSpace (s ! n))"
proof -
  let ?P = "\<lambda>c. \<not> isWhiteSpace c"
  have stop: "k + length (takeWhile ?P (drop k s)) = length s \<or>
      isWhiteSpace (s ! (k + length (takeWhile ?P (drop k s))))" if "k \<le> length s" for k
  proof (cases "length (takeWhile ?P (drop k s)) < length (drop k s)")
    case True
    from nth_length_takeWhile [OF True] True show ?thesis by simp
  next
    case False
    with length_takeWhile_le [of ?P "drop k s"] that show ?thesis by simp
  qed
  have run: "take (k + length (takeWhile ?P (drop k s))) s = take k s @ takeWhile ?P (drop k s)" for k
    by (simp add: take_add flip: takeWhile_eq_take)
  have pre: "startsWith s p \<Longrightarrow> take (length p) s = p" for p
    by (simp add: startsWith_def)
  from assms consider
      (https) "startsWith s ''https://''" "n = 8 + length (takeWhile ?P (drop 8 s))"
    | (http) "startsWith s ''http://''" "n = 7 + length (takeWhile ?P (drop 7 s))"
    by (auto simp: url_match_def Let_def split: if_splits)
  then show ?thesis
  proof cases
    case https
    from pre [OF https(1)] have "take 8 s = ''https://''" by (simp add: eval_nat_numeral)
    with https run [of 8] stop [of 8] startsWith_length [OF https(1)] show ?thesis
      by (auto simp: isWhiteSpace_def dest: set_takeWhileD)
  next
    case http
    from pre [OF http(1)] have "take 7 s = ''http://''" by (simp add: eval_nat_numeral)
    with http run [of 7] stop [of 7] startsWith_length [OF http(1)] show ?thesis
      by (auto simp: isWhiteSpace_def dest: set_takeWhileD)
  qed
qed

lemma startsWith_take: "startsWith s p \<Longrightarrow> length p \<le> n \<Longrightarrow> startsWith (take n s) p"
  by (simp add: startsWith_def min_def)

lemma link_in_linkify_from:
  "Link k u \<in> set (linkify_from i str) \<Longrightarrow>
   i \<le> k \<and> url_match (drop k str) = Some (length u) \<and> u = take (length u) (drop k str)"
proof (induction i str rule: linkify_from.induct)
  case (1 i str)
  show ?case
  proof (cases "find_url (drop i str)")
    case None
    with 1(2) show ?thesis by (simp add: linkify_from_None split: if_splits)
  next
    case (Some m)
    obtain off n where m: "m = (off, n)" by (cases m)
    from find_url_bounds Some m have b: "off + n \<le> length (drop i str)" by blast
    from find_url_match Some m have u: "url_match (drop (i + off) str) = Some n"
      by (fastforce simp: add.commute)
    from 1(2) Some m consider
        (here) "k = i + off" "u = take n (drop (i + off) str)"
      | (later) "Link k u \<in> set (linkify_from (i + off + n) str)"
      by (auto simp: linkify_from_Some split: if_splits)
    then show ?thesis
    proof cases
      case here
      with b u show ?thesis by simp
    next
      case later
      from 1(1) [OF Some m [symmetric] later] show ?thesis by simp
    qed
  qed
qed

lemma plain_in_linkify_from: "Plain p \<in> set (linkify_from i str) \<Longrightarrow> p \<noteq> []"
proof (induction i str rule: linkify_from.induct)
  case (1 i str)
  show ?case
  proof (cases "find_url (drop i str)")
    case None
    with 1(2) show ?thesis by (simp add: linkify_from_None split: if_splits)
  next
    case (Some m)
    obtain off n where m: "m = (off, n)" by (cases m)
    from find_url_bounds Some m have b: "off + n \<le> length (drop i str)" "0 < n" by fastforce+
    from 1(2) Some m consider
        (here) "0 < off" "p = take off (drop i str)"
      | (later) "Plain p \<in> set (linkify_from (i + off + n) str)"
      by (auto simp: linkify_from_Some split: if_splits)
    then show ?thesis
    proof cases
      case here
      with b show ?thesis by auto
    next
      case later
      from 1(1) [OF Some m [symmetric] later] show ?thesis .
    qed
  qed
qed

lemma link_keys_simps [simp]:
  "link_keys [] = []"
  "link_keys (Plain t # ps) = link_keys ps"
  "link_keys (Link k u # ps) = k # link_keys ps"
  "link_keys (ps @ qs) = link_keys ps @ link_keys qs"
  by (simp_all add: link_keys_def)

lemma link_keys_from:
  "sorted_wrt (<) (link_keys (linkify_from i str)) \<and> (\<forall>k \<in> set (link_keys (linkify_from i str)). i \<le> k)"
proof (induction i str rule: linkify_from.induct)
  case (1 i str)
  show ?case
  proof (cases "find_url (drop i str)")
    case None
    then show ?thesis by (simp add: linkify_from_None)
  next
    case (Some m)
    obtain off n where m: "m = (off, n)" by (cases m)
    from find_url_bounds Some m have n: "0 < n" by fastforce
    from Some m have "link_keys (linkify_from i str) =
        (i + off) # link_keys (linkify_from (i + off + n) str)"
      by (simp add: linkify_from_Some)
    moreover from 1 [OF Some m [symmetric]] n
    have "\<forall>k \<in> set (link_keys (linkify_from (i + off + n) str)). i + off < k \<and> i \<le> k"
      by fastforce
    ultimately show ?thesis
      using 1 [OF Some m [symmetric]] by simp

  qed
qed

section \<open>Correctness of the link splitter\<close>

text \<open>
  C5. \<^verbatim>\<open>linkify\<close> loses nothing and adds nothing: the texts of the parts it returns, in
  order, concatenate to the text of the message. In particular the loop terminates on
  every text.
\<close>

theorem linkify_roundtrip: "concat (map part_text (linkify str)) = str"
  by (simp add: linkify_def concat_linkify_from)

text \<open>
  Every link of the result is a match of the regular expression at the position that
  is its key: it is the text at that position, it starts with \<^verbatim>\<open>http://\<close> or
  \<^verbatim>\<open>https://\<close>, it holds no white space, and it is maximal (it ends at the end of the
  text or in front of a white space).
\<close>

theorem linkify_links:
  assumes "Link k u \<in> set (linkify str)"
  shows "u = take (length u) (drop k str) \<and>
         (startsWith u ''http://'' \<or> startsWith u ''https://'') \<and>
         (\<forall>c \<in> set u. \<not> isWhiteSpace c) \<and>
         (k + length u = length str \<or> isWhiteSpace (str ! (k + length u)))"
proof -
  from assms link_in_linkify_from [of k u 0 str]
  have m: "url_match (drop k str) = Some (length u)" and u: "u = take (length u) (drop k str)"
    by (simp_all add: linkify_def)
  from u have u': "take (length u) (drop k str) = u" by simp
  from url_match_bounds [OF m] have len: "7 < length u" "k + length u \<le> length str" by auto
  have sw: "startsWith u p" if "startsWith (drop k str) p" "length p \<le> length u" for p
    using startsWith_take [OF that] by (simp only: u')
  from url_match_shape [OF m] len sw [of "''http://''"] sw [of "''https://''"] show ?thesis
    by (auto simp: u' add.commute)
qed

theorem linkify_links_witness:
  "Link 4 ''https://a.b/c'' \<in> set (linkify ''see https://a.b/c now'') \<and>
   linkify ''see https://a.b/c now'' = [Plain ''see '', Link 4 ''https://a.b/c'', Plain '' now''] \<and>
   startsWith ''https://a.b/c'' ''https://'' \<and>
   isWhiteSpace (''see https://a.b/c now'' ! (4 + length ''https://a.b/c''))"
proof -
  have e: "linkify ''see https://a.b/c now'' = [Plain ''see '', Link 4 ''https://a.b/c'', Plain '' now'']"
    by (simp add: linkify_def linkify_from.simps js_eval)
  then have h: "Link 4 ''https://a.b/c'' \<in> set (linkify ''see https://a.b/c now'')"
    by simp
  from e h linkify_links [OF h] show ?thesis
    by (simp add: js_eval)
qed

text \<open>
  The keys of the links of one message are strictly increasing, hence pairwise
  distinct, and no plain segment is empty.
\<close>

theorem linkify_keys:
  "sorted_wrt (<) (link_keys (linkify str)) \<and> distinct (link_keys (linkify str)) \<and>
   Plain [] \<notin> set (linkify str)"
proof -
  have "sorted_wrt (<) (link_keys (linkify str))"
    by (simp add: linkify_def link_keys_from)
  moreover from this have "distinct (link_keys (linkify str))"
    by (simp add: strict_sorted_iff)
  moreover have "Plain [] \<notin> set (linkify str)"
    using plain_in_linkify_from [of "[]" 0 str] by (auto simp: linkify_def)
  ultimately show ?thesis by simp
qed

text \<open>A text without a match is one plain segment, and the empty text has no part.\<close>

lemma linkify_no_url: "find_url str = None \<Longrightarrow> linkify str = (if str = [] then [] else [Plain str])"
  by (simp add: linkify_def linkify_from_None)

end
