(* ===== verification/Linkify_Loop.thy ===== *)
theory Linkify_Loop
  imports Chat_Window "HOL-Library.While_Combinator"
begin

text \<open>
  The loop of \<^verbatim>\<open>linkify\<close> as the source writes it
  (\<^verbatim>\<open>src/src/components/ChatWindow.jsx\<close>, lines 9 to 24): two variables, \<^verbatim>\<open>lastIndex\<close> and
  the array \<^verbatim>\<open>parts\<close> that grows by \<^verbatim>\<open>push\<close>, a \<^verbatim>\<open>while\<close> whose guard is the search for
  the next match, and the push of the rest of the text after the loop. The loop is kept as
  a loop (\<open>while_option\<close>), so that not returning is the value \<open>None\<close>; the theorems show
  that it always returns, and that it returns what the recursive definition \<open>linkify\<close> of
  \<open>Chat_Window\<close> computes.
\<close>

section \<open>The loop\<close>

type_synonym loop_state = "nat \<times> part list"

definition loop_guard :: "js_string \<Rightarrow> loop_state \<Rightarrow> bool" where
  "loop_guard str = (\<lambda>(lastIndex, parts). find_url (drop lastIndex str) \<noteq> None)"

definition loop_body :: "js_string \<Rightarrow> loop_state \<Rightarrow> loop_state" where
  "loop_body str =
     (\<lambda>(lastIndex, parts).
        case find_url (drop lastIndex str) of
          None \<Rightarrow> (lastIndex, parts)
        | Some (off, n) \<Rightarrow>
            (lastIndex + off + n,
             (if lastIndex + off > lastIndex then parts @ [Plain (take off (drop lastIndex str))]
              else parts) @
             [Link (lastIndex + off) (take n (drop (lastIndex + off) str))]))"

definition linkify_loop :: "js_string \<Rightarrow> loop_state option" where
  "linkify_loop str = while_option (loop_guard str) (loop_body str) (0, [])"

definition push_rest :: "js_string \<Rightarrow> loop_state \<Rightarrow> part list" where
  "push_rest str =
     (\<lambda>(lastIndex, parts).
        if lastIndex < length str then parts @ [Plain (drop lastIndex str)] else parts)"

definition linkify_imp :: "js_string \<Rightarrow> part list option" where
  "linkify_imp str = map_option (push_rest str) (linkify_loop str)"

lemmas loop_defs = loop_guard_def loop_body_def push_rest_def

section \<open>The loop against the recursion\<close>

lemma loop_from:
  "map_option (push_rest str) (while_option (loop_guard str) (loop_body str) (i, acc)) =
   Some (acc @ linkify_from i str)"
proof (induction i str arbitrary: acc rule: linkify_from.induct)
  case (1 i str)
  show ?case
  proof (cases "find_url (drop i str)")
    case None
    then have "while_option (loop_guard str) (loop_body str) (i, acc) = Some (i, acc)"
      by (subst while_option_unfold) (simp add: loop_guard_def)
    with None show ?thesis
      by (simp add: push_rest_def linkify_from_None)
  next
    case (Some m)
    obtain off n where m: "m = (off, n)" by (cases m)
    let ?acc = "(if 0 < off then acc @ [Plain (take off (drop i str))] else acc) @
        [Link (i + off) (take n (drop (i + off) str))]"
    from Some m have "while_option (loop_guard str) (loop_body str) (i, acc) =
        while_option (loop_guard str) (loop_body str) (i + off + n, ?acc)"
      by (subst while_option_unfold) (simp add: loop_guard_def loop_body_def)
    with 1 [OF Some m [symmetric], of ?acc] Some m show ?thesis
      by (cases "off = 0") (simp_all add: linkify_from_Some)
  qed
qed

lemma loop_progress:
  assumes "i \<le> length str" and "loop_guard str (i, ps)"
  shows "fst (loop_body str (i, ps)) \<le> length str \<and>
         length str - fst (loop_body str (i, ps)) < length str - i"
proof -
  from assms(2) obtain off n where f: "find_url (drop i str) = Some (off, n)"
    by (auto simp: loop_guard_def)
  from find_url_bounds [OF f] have "off + n \<le> length str - i" "0 < n"
    by simp_all
  with assms(1) have "i + off + n \<le> length str" "i < i + off + n"
    by arith+
  with f show ?thesis
    by (simp add: loop_body_def) arith
qed

text \<open>
  C17. The loop of \<^verbatim>\<open>linkify\<close> terminates on every text: each iteration moves
  \<^verbatim>\<open>lastIndex\<close> past a match of at least eight code units, and \<^verbatim>\<open>lastIndex\<close> never
  exceeds the length of the text.
\<close>

theorem linkify_loop_terminates:
  "\<exists>lastIndex parts. linkify_loop str = Some (lastIndex, parts) \<and> lastIndex \<le> length str \<and>
     find_url (drop lastIndex str) = None"
proof -
  have "\<exists>st. while_option (loop_guard str) (loop_body str) (0, []) = Some st"
  proof (rule measure_while_option_Some [where P = "\<lambda>(i, ps). i \<le> length str"
          and f = "\<lambda>(i, ps). length str - i"])
    show "(\<lambda>(i, ps). i \<le> length str) (0, [])" by simp
  qed (auto simp: case_prod_unfold loop_progress)
  then obtain i ps where r: "linkify_loop str = Some (i, ps)"
    by (auto simp: linkify_loop_def)
  from while_option_stop [OF r [unfolded linkify_loop_def]]
  have stop: "find_url (drop i str) = None" by (cases "find_url (drop i str)") (auto simp: loop_guard_def)
  have "(\<lambda>(i, ps). i \<le> length str) (i, ps)"
  proof (rule while_option_rule [OF _ r [unfolded linkify_loop_def]])
    show "(\<lambda>(i, ps). i \<le> length str) (0, [])" by simp
  qed (auto simp: case_prod_unfold loop_progress)
  with r stop show ?thesis by auto
qed

text \<open>
  C18. The loop with its final push computes exactly the parts of the recursive definition:
  the imperative and the recursive reading of \<^verbatim>\<open>linkify\<close> agree on every text.
\<close>

theorem linkify_imp_eq: "linkify_imp str = Some (linkify str)"
  using loop_from [of str 0 "[]"] by (simp add: linkify_imp_def linkify_loop_def linkify_def)

end
