(* ===== verification/Chat_View.thy ===== *)
theory Chat_View
  imports Chat_Window
begin

text \<open>
  What the chat window of \<^verbatim>\<open>src/src/components/ChatWindow.jsx\<close> shows and how it follows
  the conversation.
  \<^item> \<open>render_message\<close> and \<open>render_messages\<close> are the elements the component returns for its
    messages (lines 55 to 71): the key, the two class names and the label with their
    fall-backs for a message without sender, and the content cut into text and links.
  \<^item> \<open>scroll_box\<close> holds the three measures of the scrolling container that the component
    reads; \<open>scrollEffect\<close> is the effect that runs after a render in which the messages
    changed (lines 37 to 45): when the container is near its bottom the end marker is
    scrolled into view.
  \<^item> \<open>grow\<close> and \<open>userScroll\<close> are what the browser does to the container when content is
    added below and when the reader scrolls; \<open>window_step\<close> puts the growth of a render and
    the effect that follows it into one step.
  The smooth scrolling the component asks for is taken at its end position.
\<close>

section \<open>Rendered messages\<close>

record message_view =
  mv_key :: js_string
  mv_class :: js_string
  mv_avatar :: js_string
  mv_label :: js_string
  mv_content :: "part list"

definition sender_or :: "js_string \<Rightarrow> chat_message \<Rightarrow> js_string" where
  "sender_or d msg = (case sender msg of Some s \<Rightarrow> s | None \<Rightarrow> d)"

definition render_message :: "nat \<Rightarrow> chat_message \<Rightarrow> message_view" where
  "render_message idx msg =
     \<lparr>mv_key = message_key idx msg,
      mv_class = ''chat-message '' @ sender_or [] msg,
      mv_avatar = ''avatar '' @ sender_or [] msg,
      mv_label = sender_or ''user'' msg,
      mv_content = linkify (msg_text msg)\<rparr>"

definition render_messages :: "chat_message list \<Rightarrow> message_view list" where
  "render_messages msgs = map (\<lambda>(idx, msg). render_message idx msg) (List.enumerate 0 msgs)"

section \<open>The scrolling container\<close>

record scroll_box =
  scrollHeight :: int
  scrollTop :: int
  clientHeight :: int

definition measures :: "scroll_box \<Rightarrow> int \<times> int \<times> int" where
  "measures b = (scrollHeight b, scrollTop b, clientHeight b)"

definition distance :: "scroll_box \<Rightarrow> int" where
  "distance b = scrollHeight b - scrollTop b - clientHeight b"

definition scrollIntoView :: "scroll_box \<Rightarrow> scroll_box" where
  "scrollIntoView b = b\<lparr>scrollTop := max 0 (scrollHeight b - clientHeight b)\<rparr>"

definition scrollEffect :: "scroll_box option \<Rightarrow> bool \<Rightarrow> scroll_box option" where
  "scrollEffect container chatEnd =
     (case container of
        None \<Rightarrow> None
      | Some b \<Rightarrow>
          if isNearBottom (Some (measures b)) 120
          then (if chatEnd then Some (scrollIntoView b) else Some b)
          else Some b)"

definition grow :: "int \<Rightarrow> scroll_box \<Rightarrow> scroll_box" where
  "grow h b = b\<lparr>scrollHeight := scrollHeight b + h\<rparr>"

definition userScroll :: "int \<Rightarrow> scroll_box \<Rightarrow> scroll_box" where
  "userScroll t b = b\<lparr>scrollTop := min (max 0 t) (max 0 (scrollHeight b - clientHeight b))\<rparr>"

datatype window_event = NewMessages int | UserScroll int

fun window_step :: "scroll_box \<Rightarrow> window_event \<Rightarrow> scroll_box" where
  "window_step b (NewMessages h) = the (scrollEffect (Some (grow h b)) True)"
| "window_step b (UserScroll t) = userScroll t b"

definition window_run :: "scroll_box \<Rightarrow> window_event list \<Rightarrow> scroll_box" where
  "window_run b es = foldl window_step b es"

definition box_ok :: "scroll_box \<Rightarrow> bool" where
  "box_ok b \<longleftrightarrow>
     0 \<le> clientHeight b \<and> clientHeight b \<le> scrollHeight b \<and>
     0 \<le> scrollTop b \<and> scrollTop b \<le> scrollHeight b - clientHeight b"

definition event_ok :: "window_event \<Rightarrow> bool" where
  "event_ok e = (case e of NewMessages h \<Rightarrow> 0 \<le> h | UserScroll t \<Rightarrow> True)"

definition arrival :: "window_event \<Rightarrow> bool" where
  "arrival e = (case e of NewMessages h \<Rightarrow> 0 \<le> h | UserScroll t \<Rightarrow> False)"

definition short_arrival :: "window_event \<Rightarrow> bool" where
  "short_arrival e = (case e of NewMessages h \<Rightarrow> 0 \<le> h \<and> h \<le> 120 | UserScroll t \<Rightarrow> False)"

lemmas view_eval [js_eval] =
  sender_or_def render_message_def render_messages_def measures_def distance_def
  scrollIntoView_def scrollEffect_def grow_def userScroll_def window_run_def box_ok_def
  event_ok_def arrival_def short_arrival_def

section \<open>Rendered messages\<close>

lemma length_render_messages [simp]: "length (render_messages msgs) = length msgs"
  by (simp add: render_messages_def)

lemma keys_render_messages: "map mv_key (render_messages msgs) = message_keys msgs"
  by (simp add: render_messages_def message_keys_def render_message_def case_prod_unfold)

lemma render_messages_nth:
  "i < length msgs \<Longrightarrow> render_messages msgs ! i = render_message i (msgs ! i)"
  by (simp add: render_messages_def nth_enumerate_eq)

text \<open>
  The window shows every message, in order, under the key of its position, and the
  content it shows reads as the text of the message: cutting a text into segments and links
  neither loses nor adds a code unit.
\<close>

theorem render_messages_content:
  "map (\<lambda>v. concat (map part_text (mv_content v))) (render_messages msgs) = map msg_text msgs \<and>
   map mv_key (render_messages msgs) = message_keys msgs"
proof -
  have "concat (map part_text (linkify s)) = s" for s
    using concat_linkify_from [of 0 s] by (simp add: linkify_def)
  then have "map (\<lambda>v. concat (map part_text (mv_content v))) (render_messages msgs) =
      map (\<lambda>p. msg_text (snd p)) (List.enumerate 0 msgs)"
    by (simp add: render_messages_def render_message_def case_prod_unfold)
  also have "\<dots> = map msg_text (map snd (List.enumerate 0 msgs))"
    by (simp only: map_map comp_def)
  also have "\<dots> = map msg_text msgs"
    by simp
  finally show ?thesis
    by (simp add: keys_render_messages)
qed

section \<open>Following the conversation\<close>

lemma near_iff [simp]: "isNearBottom (Some (measures b)) t \<longleftrightarrow> distance b \<le> t"
  by (simp add: isNearBottom_def measures_def distance_def)

lemma arrive_near:
  "distance b + h \<le> 120 \<Longrightarrow> window_step b (NewMessages h) = scrollIntoView (grow h b)"
  by (simp add: scrollEffect_def distance_def grow_def)

lemma arrive_far:
  "120 < distance b + h \<Longrightarrow> window_step b (NewMessages h) = grow h b"
  by (simp add: scrollEffect_def distance_def grow_def)

lemma box_ok_step: "box_ok b \<Longrightarrow> event_ok e \<Longrightarrow> box_ok (window_step b e)"
  by (cases e)
    (auto simp: box_ok_def event_ok_def scrollEffect_def scrollIntoView_def grow_def
      userScroll_def distance_def)

lemma far_stays_far:
  assumes "120 < distance b" and "arrival e"
  shows "scrollTop (window_step b e) = scrollTop b \<and> distance b \<le> distance (window_step b e)"
proof (cases e)
  case (NewMessages h)
  with assms have "120 < distance b + h" by (simp add: arrival_def)
  from arrive_far [OF this] NewMessages assms show ?thesis
    by (simp add: grow_def distance_def arrival_def)
next
  case (UserScroll t)
  with assms show ?thesis by (simp add: arrival_def)
qed

lemma far_run:
  "120 < distance b \<Longrightarrow> list_all arrival es \<Longrightarrow>
   scrollTop (window_run b es) = scrollTop b \<and> distance b \<le> distance (window_run b es)"
  unfolding window_run_def
proof (induction es arbitrary: b)
  case Nil
  then show ?case by simp
next
  case (Cons e es)
  from far_stays_far [OF Cons.prems(1), of e] Cons.prems(2)
  have s: "scrollTop (window_step b e) = scrollTop b" "distance b \<le> distance (window_step b e)"
    by simp_all
  with Cons.prems(1) have "120 < distance (window_step b e)" by simp
  from Cons.IH [OF this] Cons.prems(2) s show ?case by simp
qed

text \<open>
  C21. A reader who is within the threshold of the bottom after the new content is added is
  taken to the end of the conversation: the distance to the bottom is zero after the step.
\<close>

theorem follows_when_near:
  "box_ok b \<Longrightarrow> 0 \<le> h \<Longrightarrow> distance b + h \<le> 120 \<Longrightarrow>
   distance (window_step b (NewMessages h)) = 0"
  by (simp add: scrollEffect_def scrollIntoView_def grow_def distance_def box_ok_def)

theorem follows_when_near_witness:
  "box_ok \<lparr>scrollHeight = 1000, scrollTop = 580, clientHeight = 400\<rparr> \<and>
   distance (window_step \<lparr>scrollHeight = 1000, scrollTop = 580, clientHeight = 400\<rparr>
     (NewMessages 100)) = 0"
  using follows_when_near [of "\<lparr>scrollHeight = 1000, scrollTop = 580, clientHeight = 400\<rparr>" 100]
  by (simp add: js_eval)

lemma step_to_bottom:
  "box_ok b \<Longrightarrow> 0 \<le> h \<Longrightarrow> distance b + h \<le> 120 \<Longrightarrow>
   distance (window_step b (NewMessages h)) = 0"
  by (simp add: scrollEffect_def scrollIntoView_def grow_def distance_def box_ok_def)

text \<open>
  C22. Following is stable: a reader who is at the bottom stays at the bottom through any
  sequence of arrivals none of which is taller than the threshold. After every one of
  them the view is at the end of the conversation.
\<close>

theorem following_is_stable:
  "box_ok b \<Longrightarrow> distance b = 0 \<Longrightarrow> list_all short_arrival es \<Longrightarrow>
   distance (window_run b es) = 0 \<and> box_ok (window_run b es)"
  unfolding window_run_def
proof (induction es arbitrary: b)
  case Nil
  then show ?case by simp
next
  case (Cons e es)
  from Cons.prems(3) have se: "short_arrival e" and rest: "list_all short_arrival es"
    by simp_all
  from se obtain h where e: "e = NewMessages h" and h: "0 \<le> h" "h \<le> 120"
    by (cases e) (simp_all add: short_arrival_def)
  from Cons.prems(2) h have "distance b + h \<le> 120" by simp
  from step_to_bottom [OF Cons.prems(1) h(1) this]
  have d: "distance (window_step b e) = 0" by (simp add: e)
  from h(1) have "event_ok e" by (simp add: e event_ok_def)
  from box_ok_step [OF Cons.prems(1) this] have "box_ok (window_step b e)" .
  from Cons.IH [OF this d rest] show ?case by simp
qed

theorem following_is_stable_witness:
  "box_ok \<lparr>scrollHeight = 1000, scrollTop = 600, clientHeight = 400\<rparr> \<and>
   distance \<lparr>scrollHeight = 1000, scrollTop = 600, clientHeight = 400\<rparr> = 0 \<and>
   list_all short_arrival [NewMessages 100, NewMessages 120, NewMessages 20] \<and>
   window_run \<lparr>scrollHeight = 1000, scrollTop = 600, clientHeight = 400\<rparr>
     [NewMessages 100, NewMessages 120, NewMessages 20] =
     \<lparr>scrollHeight = 1240, scrollTop = 840, clientHeight = 400\<rparr>"
  using following_is_stable [of "\<lparr>scrollHeight = 1000, scrollTop = 600, clientHeight = 400\<rparr>"
      "[NewMessages 100, NewMessages 120, NewMessages 20]"]
  by (simp add: js_eval)

text \<open>
  C20. The effect measures the distance after the new content is in place. A message
  taller than the threshold therefore ends the following even for a reader who was at the
  very bottom: the view stays where it was for that message and for every message that
  arrives after it, until the reader scrolls.
\<close>

theorem tall_message_ends_following:
  "box_ok b \<Longrightarrow> distance b = 0 \<Longrightarrow> 120 < h \<Longrightarrow> list_all arrival es \<Longrightarrow>
   scrollTop (window_run b (NewMessages h # es)) = scrollTop b \<and>
   h \<le> distance (window_run b (NewMessages h # es))"
proof -
  assume a: "box_ok b" "distance b = 0" "120 < h" "list_all arrival es"
  then have far: "120 < distance b + h" by simp
  let ?b = "window_step b (NewMessages h)"
  from arrive_far [OF far] a have s: "scrollTop ?b = scrollTop b" "distance ?b = h"
    by (simp_all add: grow_def distance_def)
  with a have "120 < distance ?b" by simp
  from far_run [OF this a(4)] s show ?thesis
    by (simp add: window_run_def)
qed

theorem tall_message_ends_following_witness:
  "box_ok \<lparr>scrollHeight = 1000, scrollTop = 600, clientHeight = 400\<rparr> \<and>
   distance \<lparr>scrollHeight = 1000, scrollTop = 600, clientHeight = 400\<rparr> = 0 \<and>
   window_run \<lparr>scrollHeight = 1000, scrollTop = 600, clientHeight = 400\<rparr>
     [NewMessages 121, NewMessages 20] =
     \<lparr>scrollHeight = 1141, scrollTop = 600, clientHeight = 400\<rparr>"
  using tall_message_ends_following
    [of "\<lparr>scrollHeight = 1000, scrollTop = 600, clientHeight = 400\<rparr>" 121 "[NewMessages 20]"]
  by (simp add: js_eval)

end
