(* ===== verification/Search_Bar.thy ===== *)
theory Search_Bar
  imports JS_Prelude
begin

text \<open>
  The input of \<^verbatim>\<open>src/src/components/SearchBar.jsx\<close>. The component has no state of its
  own: it shows the value it is given and reports changes through \<^verbatim>\<open>onChange\<close>. The
  model keeps the props that decide its behaviour, the two handlers, and the conditions
  of the markup that depend on props. A handler returns what it does to its environment:
  \<^verbatim>\<open>handleKeyDown\<close> whether the default action was prevented and whether \<^verbatim>\<open>onSubmit\<close>
  was called, \<^verbatim>\<open>handleClear\<close> the value passed to \<^verbatim>\<open>onChange\<close> and whether the input was
  focused again. \<open>render_search\<close> is the element the component returns (lines 40 to 67):
  an input or a text area with the attributes that depend on props, and the clear button
  when it is shown. The props that only reach the markup (\<^verbatim>\<open>maxLength\<close>, \<^verbatim>\<open>autoFocus\<close>,
  \<^verbatim>\<open>className\<close>) are the record \<open>search_extras\<close>; the spread of \<^verbatim>\<open>inputProps\<close> is left out.
\<close>

section \<open>Props and handlers\<close>

record search_props =
  sb_value :: js_string
  sb_onSubmit :: bool
  sb_placeholder :: js_string
  sb_ariaLabel :: "js_string option"
  sb_disabled :: bool
  sb_showClear :: bool
  sb_multiline :: bool
  sb_ref :: bool

definition default_search :: "js_string \<Rightarrow> search_props" where
  "default_search v =
     \<lparr>sb_value = v, sb_onSubmit = False, sb_placeholder = ''Type a message...'',
      sb_ariaLabel = None, sb_disabled = False, sb_showClear = True, sb_multiline = False,
      sb_ref = False\<rparr>"

record key_event =
  key :: js_string
  shiftKey :: bool

record key_result =
  prevented :: bool
  submitted :: bool

definition handleKeyDown :: "search_props \<Rightarrow> key_event \<Rightarrow> key_result" where
  "handleKeyDown p e =
     (if key e = ''Enter'' \<and> \<not> shiftKey e \<and> \<not> sb_multiline p
      then \<lparr>prevented = True, submitted = sb_onSubmit p\<rparr>
      else \<lparr>prevented = False, submitted = False\<rparr>)"

record clear_result =
  changed :: "js_string option"
  focused :: bool

definition handleClear :: "search_props \<Rightarrow> clear_result" where
  "handleClear p =
     (if sb_disabled p then \<lparr>changed = None, focused = False\<rparr>
      else \<lparr>changed = Some [], focused = sb_ref p\<rparr>)"

definition clear_shown :: "search_props \<Rightarrow> bool" where
  "clear_shown p \<longleftrightarrow>
     sb_showClear p \<and> \<not> sb_disabled p \<and> truthy (sb_value p) \<and> length (sb_value p) > 0"

definition aria_label :: "search_props \<Rightarrow> js_string" where
  "aria_label p =
     (case sb_ariaLabel p of
        Some a \<Rightarrow> if truthy a then a else sb_placeholder p
      | None \<Rightarrow> sb_placeholder p)"

definition rows :: "search_props \<Rightarrow> nat option" where
  "rows p = (if sb_multiline p then Some 3 else None)"

section \<open>The rendered elements\<close>

datatype input_component = InputElement | TextareaElement

record search_extras =
  sb_maxLength :: "nat option"
  sb_autoFocus :: bool
  sb_className :: js_string

definition default_extras :: search_extras where
  "default_extras = \<lparr>sb_maxLength = None, sb_autoFocus = False, sb_className = []\<rparr>"

record search_view =
  sv_class :: js_string
  sv_component :: input_component
  sv_value :: js_string
  sv_placeholder :: js_string
  sv_aria_label :: js_string
  sv_disabled :: bool
  sv_maxLength :: "nat option"
  sv_autoFocus :: bool
  sv_rows :: "nat option"
  sv_clear :: bool

definition InputComponent :: "search_props \<Rightarrow> input_component" where
  "InputComponent p = (if sb_multiline p then TextareaElement else InputElement)"

definition render_search :: "search_props \<Rightarrow> search_extras \<Rightarrow> search_view" where
  "render_search p x =
     \<lparr>sv_class = ''search-bar-container '' @ sb_className x,
      sv_component = InputComponent p,
      sv_value = sb_value p,
      sv_placeholder = sb_placeholder p,
      sv_aria_label = aria_label p,
      sv_disabled = sb_disabled p,
      sv_maxLength = sb_maxLength x,
      sv_autoFocus = sb_autoFocus x,
      sv_rows = rows p,
      sv_clear = clear_shown p\<rparr>"

lemmas search_eval [js_eval] =
  default_search_def handleKeyDown_def handleClear_def clear_shown_def aria_label_def rows_def
  default_extras_def InputComponent_def render_search_def

section \<open>Behaviour\<close>

text \<open>
  The clear button is shown exactly for a non-empty value of an enabled input that
  asks for it; clicking it reports the empty value unless the input is disabled, and with
  the empty value the button is gone.
\<close>

theorem clear_button:
  "clear_shown p = (sb_showClear p \<and> \<not> sb_disabled p \<and> sb_value p \<noteq> []) \<and>
   changed (handleClear p) = (if sb_disabled p then None else Some []) \<and>
   \<not> clear_shown (p\<lparr>sb_value := []\<rparr>)"
  by (auto simp: clear_shown_def handleClear_def truthy_def)

text \<open>
  Enter submits only in a single-line input, without Shift, and only when the parent
  passed \<^verbatim>\<open>onSubmit\<close>; the default action of the key is prevented in a single-line input
  whether or not there is anything to call. With the props of the page, which passes no
  \<^verbatim>\<open>onSubmit\<close>, no key submits.
\<close>

theorem enter_submits:
  "submitted (handleKeyDown p e) =
     (key e = ''Enter'' \<and> \<not> shiftKey e \<and> \<not> sb_multiline p \<and> sb_onSubmit p) \<and>
   prevented (handleKeyDown p e) = (key e = ''Enter'' \<and> \<not> shiftKey e \<and> \<not> sb_multiline p) \<and>
   \<not> submitted (handleKeyDown (default_search v) e)"
  by (simp add: handleKeyDown_def default_search_def)

text \<open>
  The component renders a text area with three rows exactly in multi-line mode, and in
  that mode no key is taken from it: Enter inserts a line break. The clear button is only
  rendered beside an enabled input that holds something, so a click on it always reports
  the empty value.
\<close>

theorem search_view_consistent:
  "(sv_component (render_search p x) = TextareaElement) = (sv_rows (render_search p x) = Some 3) \<and>
   (sv_component (render_search p x) = TextareaElement) = (\<forall>e. \<not> prevented (handleKeyDown p e)) \<and>
   sv_clear (render_search p x) =
     (sb_showClear p \<and> changed (handleClear p) = Some [] \<and> \<not> sv_disabled (render_search p x) \<and>
      sv_value (render_search p x) \<noteq> [])"
proof -
  have "(\<forall>e. \<not> prevented (handleKeyDown p e)) = sb_multiline p"
  proof
    assume a: "\<forall>e. \<not> prevented (handleKeyDown p e)"
    from a [rule_format, of "\<lparr>key = ''Enter'', shiftKey = False\<rparr>"] show "sb_multiline p"
      by (simp add: handleKeyDown_def split: if_splits)
  qed (simp add: handleKeyDown_def)
  then show ?thesis
    by (auto simp: render_search_def InputComponent_def rows_def clear_shown_def handleClear_def
        truthy_def)
qed

end
