(* ===== verification/Persona_Selector.thy ===== *)
theory Persona_Selector
  imports JS_Prelude
begin

text \<open>
  The role selector of \<^verbatim>\<open>src/src/components/PersonaSelector.jsx\<close>: the text of its badge,
  its change handler, and the element it returns (\<open>render_persona\<close>, lines 20 to 48) with
  one option per role; the identifier that \<^verbatim>\<open>useId\<close> generates is a parameter.
  \<^verbatim>\<open>toUpperCase\<close> on one code unit below U+0100 gives one code
  unit for the letters \<open>a\<close>--\<open>z\<close> and U+00E0--U+00FE without U+00F7 (32 lower), two for
  U+00DF (\<^verbatim>\<open>SS\<close>), and a code unit outside the modelled range for U+00B5 and U+00FF, for
  which the model has no value (\<open>None\<close>).
\<close>

section \<open>Definitions\<close>

definition upper_unit :: "char \<Rightarrow> js_string option" where
  "upper_unit c =
     (let n = (of_char c :: nat)
      in if (97 \<le> n \<and> n \<le> 122) \<or> (224 \<le> n \<and> n \<le> 254 \<and> n \<noteq> 247) then Some [char_of (n - 32)]
         else if n = 223 then Some ''SS''
         else if n = 181 \<or> n = 255 then None
         else Some [c])"

definition badgeText :: "js_string \<Rightarrow> js_string option" where
  "badgeText selectedRole =
     (if truthy selectedRole then upper_unit (hd selectedRole) else Some ''?'')"

record persona_props =
  ps_roles :: "js_string list"
  ps_selectedRole :: js_string
  ps_onChange :: bool

definition select_change :: "persona_props \<Rightarrow> js_string \<Rightarrow> js_string option" where
  "select_change p v = (if ps_onChange p then Some v else None)"

section \<open>The rendered elements\<close>

record persona_option =
  po_key :: js_string
  po_value :: js_string
  po_text :: js_string

record persona_view =
  pv_id :: js_string
  pv_label :: js_string
  pv_badge :: "js_string option"
  pv_value :: js_string
  pv_aria_label :: js_string
  pv_options :: "persona_option list"

definition default_label :: js_string where
  "default_label = ''Persona''"

definition selectId :: "js_string \<Rightarrow> js_string" where
  "selectId generatedId = ''persona-select-'' @ generatedId"

definition render_persona :: "js_string \<Rightarrow> js_string \<Rightarrow> persona_props \<Rightarrow> persona_view" where
  "render_persona generatedId label p =
     \<lparr>pv_id = selectId generatedId,
      pv_label = label,
      pv_badge = badgeText (ps_selectedRole p),
      pv_value = ps_selectedRole p,
      pv_aria_label = label,
      pv_options = map (\<lambda>r. \<lparr>po_key = r, po_value = r, po_text = r\<rparr>) (ps_roles p)\<rparr>"

lemmas persona_eval [js_eval] =
  upper_unit_def badgeText_def select_change_def default_label_def selectId_def render_persona_def

section \<open>The badge\<close>

lemma upper_unit_ascii:
  "(of_char c :: nat) < 128 \<Longrightarrow>
   upper_unit c = Some [if 97 \<le> (of_char c :: nat) \<and> (of_char c :: nat) \<le> 122
                        then char_of ((of_char c :: nat) - 32) else c]"
  by (auto simp: upper_unit_def Let_def)

text \<open>
  The badge shows a question mark for the empty role and otherwise the upper case of
  the first code unit of the role, which is a single unit for every role that starts in
  ASCII; it never shows more of the role than its first unit.
\<close>

theorem badgeText_first_unit:
  "badgeText [] = Some ''?'' \<and>
   badgeText (c # rest) = upper_unit c \<and>
   badgeText (c # rest) = badgeText [c]"
  by (simp add: badgeText_def truthy_def)

section \<open>The options\<close>

lemma option_keys [simp]: "map po_key (pv_options (render_persona g l p)) = ps_roles p"
  by (simp add: render_persona_def comp_def)

lemma option_values [simp]: "map po_value (pv_options (render_persona g l p)) = ps_roles p"
  by (simp add: render_persona_def comp_def)

text \<open>
  The select offers the roles it is given, in their order, each under itself as key, value
  and text; the keys are pairwise distinct exactly when the roles are.
\<close>

theorem persona_options:
  "map po_value (pv_options (render_persona g l p)) = ps_roles p \<and>
   distinct (map po_key (pv_options (render_persona g l p))) = distinct (ps_roles p) \<and>
   pv_value (render_persona g l p) = ps_selectedRole p"
  by (simp add: render_persona_def comp_def)

end
