(* ===== verification/Home_Page.thy ===== *)
theory Home_Page
  imports Gateway URI_Encode Chat_Window Accept_Filter
begin

text \<open>
  The page of \<^verbatim>\<open>src/src/pages/Home.js\<close>: its state, every handler and effect that changes
  it, and the event loop in which the handlers, the answers of the network and the
  notification timer interleave.

  The state is the record \<open>home_state\<close>: the eleven \<^verbatim>\<open>useState\<close> cells of the component
  under their names, and two fields for what the browser holds on behalf of the page:
  \<open>pending\<close>, the asynchronous handlers suspended at an \<^verbatim>\<open>await\<close> (each with the values
  its closure captured when it was created), and \<open>timer\<close>, the milliseconds left on the
  timeout of the notification effect, if one is armed.

  An asynchronous handler is two definitions: the part that runs up to the \<^verbatim>\<open>await\<close>,
  which registers a \<open>pending\<close> entry, and the continuation that runs when the request is
  answered (\<open>sendDone\<close>, \<open>uploadDone\<close>, \<open>listDone\<close>, \<open>textDone\<close>, \<open>pdfDone\<close>), which takes
  the outcome of the awaited promise. A state setter that has an effect depending on the
  cell it sets is one definition with that effect (\<open>setMode\<close>, \<open>setRole\<close>,
  \<open>setNotification\<close>): React skips the render, and with it the effect, when the new value
  equals the old one. Each handler runs against the state of the latest render.
\<close>

section \<open>State\<close>

datatype mode = Chat | Documents

datatype pending =
    PSend js_string js_string
  | PUpload js_file js_string mode
  | PList js_string
  | PText js_string
  | PPdf js_string

record home_state =
  mode :: mode
  role :: js_string
  messages :: "chat_message list"
  input :: js_string
  sending :: bool
  documents :: "js_string list"
  previewFile :: "js_string option"
  previewText :: js_string
  processing :: bool
  docsLoading :: bool
  notification :: js_string
  pending :: "pending list"
  timer :: "nat option"

definition roles :: "js_string list" where
  "roles = [''HR'', ''Legal'', ''L1'', ''L2'']"

definition init_home :: home_state where
  "init_home =
     \<lparr>mode = Chat, role = ''HR'', messages = [], input = [], sending = False, documents = [],
      previewFile = None, previewText = [], processing = False, docsLoading = False,
      notification = [], pending = [], timer = None\<rparr>"

definition BASE_URL :: "js_string option \<Rightarrow> js_string" where
  "BASE_URL env =
     (case env of
        Some b \<Rightarrow> if truthy b then b else ''http://localhost:8000''
      | None \<Rightarrow> ''http://localhost:8000'')"

section \<open>The document list\<close>

definition fetchDocuments :: "js_string \<Rightarrow> home_state \<Rightarrow> home_state" where
  "fetchDocuments r s = s\<lparr>docsLoading := True, pending := pending s @ [PList r]\<rparr>"

definition listDone :: "files_value outcome \<Rightarrow> home_state \<Rightarrow> home_state" where
  "listDone res s =
     (case res of
        Resolved (FileArray files) \<Rightarrow> s\<lparr>documents := files, docsLoading := False\<rparr>
      | Resolved NotArray \<Rightarrow> s\<lparr>documents := [], docsLoading := False\<rparr>
      | Rejected \<Rightarrow> s\<lparr>documents := [], docsLoading := False\<rparr>)"

definition documentsEffect :: "home_state \<Rightarrow> home_state" where
  "documentsEffect s = (if mode s = Documents then fetchDocuments (role s) s else s)"

definition setMode :: "mode \<Rightarrow> home_state \<Rightarrow> home_state" where
  "setMode m s = (if m = mode s then s else documentsEffect (s\<lparr>mode := m\<rparr>))"

definition setRole :: "js_string \<Rightarrow> home_state \<Rightarrow> home_state" where
  "setRole r s = (if r = role s then s else documentsEffect (s\<lparr>role := r\<rparr>))"

section \<open>The notification and its timer\<close>

definition setNotification :: "js_string \<Rightarrow> home_state \<Rightarrow> home_state" where
  "setNotification n s =
     (if n = notification s then s
      else s\<lparr>notification := n, timer := (if truthy n then Some 3000 else None)\<rparr>)"

definition elapse :: "nat \<Rightarrow> home_state \<Rightarrow> home_state" where
  "elapse d s =
     (case timer s of
        None \<Rightarrow> s
      | Some t \<Rightarrow> if d < t then s\<lparr>timer := Some (t - d)\<rparr> else setNotification [] (s\<lparr>timer := None\<rparr>))"

section \<open>Chat\<close>

definition setInput :: "js_string \<Rightarrow> home_state \<Rightarrow> home_state" where
  "setInput v s = s\<lparr>input := v\<rparr>"

definition user_message :: "js_string \<Rightarrow> chat_message" where
  "user_message t = \<lparr>msg_id = None, sender = Some ''user'', msg_text = t\<rparr>"

definition bot_message :: "js_string \<Rightarrow> chat_message" where
  "bot_message t = \<lparr>msg_id = None, sender = Some ''bot'', msg_text = t\<rparr>"

definition handleSend :: "home_state \<Rightarrow> home_state" where
  "handleSend s =
     (let trimmed = trim (input s) in
      if \<not> truthy trimmed \<or> sending s then s
      else s\<lparr>messages := messages s @ [user_message trimmed], sending := True, input := [],
             pending := pending s @ [PSend trimmed (role s)]\<rparr>)"

definition sendDone :: "chat_data outcome \<Rightarrow> home_state \<Rightarrow> home_state" where
  "sendDone res s =
     (case res of
        Resolved d \<Rightarrow>
          s\<lparr>messages :=
               messages s @
               [bot_message (case reply d of Some t \<Rightarrow> t | None \<Rightarrow> ''No reply from server.'')],
            sending := False\<rparr>
      | Rejected \<Rightarrow>
          s\<lparr>messages := messages s @ [bot_message ''Error sending message.''],
            sending := False\<rparr>)"

section \<open>Upload\<close>

definition handleUpload :: "js_file option \<Rightarrow> home_state \<Rightarrow> home_state" where
  "handleUpload file s =
     (case file of
        None \<Rightarrow> s
      | Some f \<Rightarrow> s\<lparr>pending := pending s @ [PUpload f (role s) (mode s)]\<rparr>)"

definition uploadDone :: "js_string \<Rightarrow> mode \<Rightarrow> upload_data outcome \<Rightarrow> home_state \<Rightarrow> home_state" where
  "uploadDone r m res s =
     (case res of
        Rejected \<Rightarrow> s
      | Resolved d \<Rightarrow>
          (let s' = (case ud_message d of
                       Some t \<Rightarrow> if truthy t then setNotification t s
                                 else setNotification ''File uploaded'' s
                     | None \<Rightarrow> setNotification ''File uploaded'' s)
           in if m = Documents then fetchDocuments r s' else s'))"

section \<open>Preview\<close>

datatype 'a fetched = NetworkError | Http bool 'a

definition download_url :: "js_string \<Rightarrow> js_string \<Rightarrow> js_string \<Rightarrow> js_string" where
  "download_url base r filename = base @ ''/download/'' @ r @ ''/'' @ encodeURIComponent filename"

definition process_url :: "js_string \<Rightarrow> js_string \<Rightarrow> js_string \<Rightarrow> js_string" where
  "process_url base r filename = base @ ''/process_pdf/'' @ r @ ''/'' @ encodeURIComponent filename"

definition handlePreview :: "js_string \<Rightarrow> js_string \<Rightarrow> home_state \<Rightarrow> home_state" where
  "handlePreview base filename s =
     (if \<not> truthy filename then s
      else if endsWith (toLowerCase filename) ''.txt'' then
        s\<lparr>processing := True,
          pending := pending s @ [PText (download_url base (role s) filename)]\<rparr>
      else if endsWith (toLowerCase filename) ''.pdf'' then
        s\<lparr>processing := True, previewFile := Some (download_url base (role s) filename),
          previewText := [],
          pending := pending s @ [PPdf (process_url base (role s) filename)]\<rparr>
      else s\<lparr>previewFile := Some (download_url base (role s) filename), previewText := []\<rparr>)"

definition textDone :: "js_string fetched \<Rightarrow> home_state \<Rightarrow> home_state" where
  "textDone res s =
     (case res of
        Http ok body \<Rightarrow> s\<lparr>previewText := body, previewFile := None, processing := False\<rparr>
      | NetworkError \<Rightarrow> s\<lparr>previewText := [], previewFile := None, processing := False\<rparr>)"

definition pdfDone :: "js_string option outcome fetched \<Rightarrow> home_state \<Rightarrow> home_state" where
  "pdfDone res s =
     (case res of
        Http True (Resolved (Some t)) \<Rightarrow> s\<lparr>previewText := t, processing := False\<rparr>
      | Http True (Resolved None) \<Rightarrow> s\<lparr>previewText := [], processing := False\<rparr>
      | Http True Rejected \<Rightarrow> s\<lparr>processing := False\<rparr>
      | Http False body \<Rightarrow> s\<lparr>processing := False\<rparr>
      | NetworkError \<Rightarrow> s\<lparr>processing := False\<rparr>)"

definition closePreview :: "home_state \<Rightarrow> home_state" where
  "closePreview s = s\<lparr>previewFile := None, previewText := []\<rparr>"

definition overlayClick :: "home_state \<Rightarrow> home_state" where
  "overlayClick s = s\<lparr>previewFile := None, previewText := []\<rparr>"

definition truthy_opt :: "js_string option \<Rightarrow> bool" where
  "truthy_opt v = (case v of None \<Rightarrow> False | Some x \<Rightarrow> truthy x)"

definition modalOpen :: "home_state \<Rightarrow> bool" where
  "modalOpen s \<longleftrightarrow> truthy_opt (previewFile s) \<or> truthy (previewText s) \<or> processing s"

definition body_overflow :: "home_state \<Rightarrow> js_string" where
  "body_overflow s = (if modalOpen s then ''hidden'' else [])"

section \<open>What is rendered\<close>

datatype doc_view = LoadingDocuments | NoDocuments | DocumentItems "js_string list"

definition document_view :: "home_state \<Rightarrow> doc_view" where
  "document_view s =
     (if docsLoading s then LoadingDocuments
      else if length (documents s) = 0 then NoDocuments
      else DocumentItems (documents s))"

definition show_embed :: "home_state \<Rightarrow> bool" where
  "show_embed s \<longleftrightarrow>
     (case previewFile s of
        None \<Rightarrow> False
      | Some u \<Rightarrow> truthy u \<and> endsWith (toLowerCase u) ''.pdf'')"

definition show_image :: "home_state \<Rightarrow> bool" where
  "show_image s \<longleftrightarrow>
     (case previewFile s of
        None \<Rightarrow> False
      | Some u \<Rightarrow> truthy u \<and> \<not> endsWith (toLowerCase u) ''.pdf'')"

definition show_textarea :: "home_state \<Rightarrow> bool" where
  "show_textarea s \<longleftrightarrow> truthy (previewText s)"

definition send_label :: "home_state \<Rightarrow> js_string" where
  "send_label s = (if sending s then ''Sending...'' else ''Send'')"

section \<open>The event loop\<close>

datatype response =
    ChatResponse "chat_data outcome"
  | UploadResponse "upload_data outcome"
  | ListResponse "list_data outcome"
  | TextResponse "js_string fetched"
  | PdfResponse "js_string option outcome fetched"

datatype home_event =
    ClickMode mode
  | SelectRole js_string
  | TypeInput js_string
  | ClickSend
  | Upload js_file
  | ClickDocument js_string
  | ClickClose
  | ClickOverlay
  | Respond nat response
  | Elapse nat

fun continuation :: "pending \<Rightarrow> response \<Rightarrow> (home_state \<Rightarrow> home_state) option" where
  "continuation (PSend m r) (ChatResponse x) = Some (sendDone (Resolved (sendMessage x)))"
| "continuation (PUpload f r m) (UploadResponse x) = Some (uploadDone r m (Resolved (uploadFile x)))"
| "continuation (PList r) (ListResponse x) = Some (listDone (Resolved (listFiles x)))"
| "continuation (PText u) (TextResponse x) = Some (textDone x)"
| "continuation (PPdf u) (PdfResponse x) = Some (pdfDone x)"
| "continuation _ _ = None"

definition remove_nth :: "nat \<Rightarrow> 'a list \<Rightarrow> 'a list" where
  "remove_nth i xs = take i xs @ drop (Suc i) xs"

definition respond :: "nat \<Rightarrow> response \<Rightarrow> home_state \<Rightarrow> home_state" where
  "respond i x s =
     (if i < length (pending s) then
        (case continuation (pending s ! i) x of
           Some k \<Rightarrow> k (s\<lparr>pending := remove_nth i (pending s)\<rparr>)
         | None \<Rightarrow> s)
      else s)"

fun home_step :: "js_string \<Rightarrow> home_state \<Rightarrow> home_event \<Rightarrow> home_state" where
  "home_step base s (ClickMode m) = setMode m s"
| "home_step base s (SelectRole r) = setRole r s"
| "home_step base s (TypeInput v) = setInput v s"
| "home_step base s ClickSend = handleSend s"
| "home_step base s (Upload f) = handleUpload (Some f) s"
| "home_step base s (ClickDocument d) = handlePreview base d s"
| "home_step base s ClickClose = closePreview s"
| "home_step base s ClickOverlay = overlayClick s"
| "home_step base s (Respond i x) = respond i x s"
| "home_step base s (Elapse d) = elapse d s"

definition home_run :: "js_string \<Rightarrow> home_state \<Rightarrow> home_event list \<Rightarrow> home_state" where
  "home_run base = foldl (home_step base)"

fun offered :: "home_state \<Rightarrow> home_event \<Rightarrow> bool" where
  "offered s (ClickMode m) = True"
| "offered s (SelectRole r) = (r \<in> set roles)"
| "offered s (TypeInput v) = (mode s = Chat)"
| "offered s ClickSend = (mode s = Chat \<and> \<not> sending s)"
| "offered s (Upload f) = True"
| "offered s (ClickDocument d) =
     (mode s = Documents \<and> document_view s = DocumentItems (documents s) \<and> d \<in> set (documents s))"
| "offered s ClickClose = modalOpen s"
| "offered s ClickOverlay = modalOpen s"
| "offered s (Respond i x) = (i < length (pending s) \<and> continuation (pending s ! i) x \<noteq> None)"
| "offered s (Elapse d) = True"

inductive home_reachable :: "js_string \<Rightarrow> home_state \<Rightarrow> bool" for base :: js_string where
  start: "home_reachable base init_home"
| step: "home_reachable base s \<Longrightarrow> offered s e \<Longrightarrow> home_reachable base (home_step base s e)"

fun offered_run :: "js_string \<Rightarrow> home_state \<Rightarrow> home_event list \<Rightarrow> bool" where
  "offered_run base s [] = True"
| "offered_run base s (e # es) = (offered s e \<and> offered_run base (home_step base s e) es)"

section \<open>Invariants\<close>

definition is_send :: "pending \<Rightarrow> bool" where
  "is_send p = (case p of PSend m r \<Rightarrow> True | _ \<Rightarrow> False)"

definition is_list :: "pending \<Rightarrow> bool" where
  "is_list p = (case p of PList r \<Rightarrow> True | _ \<Rightarrow> False)"

definition is_preview :: "pending \<Rightarrow> bool" where
  "is_preview p = (case p of PText u \<Rightarrow> True | PPdf u \<Rightarrow> True | _ \<Rightarrow> False)"

fun alternating :: "chat_message list \<Rightarrow> bool" where
  "alternating [] = True"
| "alternating [u] = (sender u = Some ''user'')"
| "alternating (u # b # ms) = (sender u = Some ''user'' \<and> sender b = Some ''bot'' \<and> alternating ms)"

definition chat_ok :: "home_state \<Rightarrow> bool" where
  "chat_ok s \<longleftrightarrow>
     alternating (messages s) \<and> (sending s = odd (length (messages s))) \<and>
     length (filter is_send (pending s)) = (if sending s then 1 else 0)"

definition timer_ok :: "home_state \<Rightarrow> bool" where
  "timer_ok s \<longleftrightarrow>
     (case timer s of
        None \<Rightarrow> notification s = []
      | Some t \<Rightarrow> notification s \<noteq> [] \<and> 0 < t \<and> t \<le> 3000)"

definition busy_ok :: "home_state \<Rightarrow> bool" where
  "busy_ok s \<longleftrightarrow>
     (processing s \<longrightarrow> (\<exists>p \<in> set (pending s). is_preview p)) \<and>
     (docsLoading s \<longrightarrow> (\<exists>p \<in> set (pending s). is_list p))"

definition home_ok :: "home_state \<Rightarrow> bool" where
  "home_ok s \<longleftrightarrow> role s \<in> set roles \<and> chat_ok s \<and> timer_ok s \<and> busy_ok s"

lemmas home_eval [js_eval] =
  roles_def init_home_def BASE_URL_def fetchDocuments_def listDone_def documentsEffect_def
  setMode_def setRole_def setNotification_def elapse_def setInput_def user_message_def
  bot_message_def handleSend_def sendDone_def handleUpload_def uploadDone_def download_url_def
  process_url_def handlePreview_def textDone_def pdfDone_def closePreview_def overlayClick_def
  truthy_opt_def modalOpen_def body_overflow_def document_view_def show_embed_def
  show_image_def show_textarea_def send_label_def remove_nth_def respond_def home_run_def

section \<open>Lists of suspended handlers\<close>

lemma remove_nth_simps [simp]:
  "remove_nth i [] = []"
  "remove_nth 0 (x # xs) = xs"
  "remove_nth (Suc i) (x # xs) = x # remove_nth i xs"
  by (simp_all add: remove_nth_def)

lemma length_remove_nth [simp]: "i < length xs \<Longrightarrow> length (remove_nth i xs) = length xs - 1"
  by (simp add: remove_nth_def)

lemma remove_nth_append_last [simp]: "remove_nth (length xs) (xs @ [x]) = xs"
  by (simp add: remove_nth_def)

lemma filter_remove_nth:
  "i < length xs \<Longrightarrow>
   length (filter P (remove_nth i xs)) = length (filter P xs) - (if P (xs ! i) then 1 else 0)"
proof (induction xs arbitrary: i)
  case Nil
  then show ?case by simp
next
  case (Cons x xs)
  have pos: "P (xs ! j) \<Longrightarrow> j < length xs \<Longrightarrow> 0 < length (filter P xs)" for j
    by (cases "filter P xs") (auto simp: filter_empty_conv)
  from Cons show ?case by (cases i) (auto dest: pos)
qed

lemma set_remove_nth_subset: "set (remove_nth i xs) \<subseteq> set xs"
  by (auto simp: remove_nth_def dest: in_set_takeD in_set_dropD)

lemma set_remove_nth_keeps:
  "x \<in> set xs \<Longrightarrow> x \<noteq> xs ! i \<Longrightarrow> x \<in> set (remove_nth i xs)"
proof (induction xs arbitrary: i)
  case Nil
  then show ?case by simp
next
  case (Cons y ys)
  then show ?case by (cases i) auto
qed

lemma alternating_snoc:
  "alternating ms \<Longrightarrow>
   alternating (ms @ [m]) = (sender m = Some (if even (length ms) then ''user'' else ''bot''))"
  by (induction ms rule: alternating.induct) auto

section \<open>The chat invariant\<close>

lemmas setter_defs =
  fetchDocuments_def documentsEffect_def setMode_def setRole_def setNotification_def
  elapse_def setInput_def handleUpload_def handlePreview_def closePreview_def overlayClick_def

lemmas done_defs = listDone_def uploadDone_def textDone_def pdfDone_def sendDone_def

lemmas pending_kind_defs = is_send_def is_list_def is_preview_def

lemma chat_ok_init: "chat_ok init_home"
  by (simp add: chat_ok_def init_home_def)

lemma chat_ok_setters:
  "chat_ok (setMode m s) = chat_ok s"
  "chat_ok (setRole r s) = chat_ok s"
  "chat_ok (setInput v s) = chat_ok s"
  "chat_ok (setNotification n s) = chat_ok s"
  "chat_ok (elapse ms s) = chat_ok s"
  "chat_ok (fetchDocuments r s) = chat_ok s"
  "chat_ok (handleUpload f s) = chat_ok s"
  "chat_ok (handlePreview base fn s) = chat_ok s"
  "chat_ok (closePreview s) = chat_ok s"
  "chat_ok (overlayClick s) = chat_ok s"
  by (simp_all add: chat_ok_def setter_defs is_send_def Let_def split: option.splits)

lemma chat_ok_handleSend: "chat_ok s \<Longrightarrow> chat_ok (handleSend s)"
  by (auto simp: chat_ok_def handleSend_def Let_def alternating_snoc user_message_def is_send_def)

lemma chat_ok_dones:
  "chat_ok (listDone l s) = chat_ok s"
  "chat_ok (uploadDone r m u s) = chat_ok s"
  "chat_ok (textDone t s) = chat_ok s"
  "chat_ok (pdfDone p s) = chat_ok s"
  by (simp_all add: chat_ok_def done_defs setter_defs is_send_def Let_def
      split: option.splits outcome.splits files_value.splits fetched.splits bool.splits)

lemma chat_ok_respond: "chat_ok s \<Longrightarrow> chat_ok (respond i x s)"
proof (cases "i < length (pending s)")
  case False
  assume "chat_ok s"
  with False show ?thesis by (simp add: respond_def)
next
  case True
  assume ok: "chat_ok s"
  let ?s = "s\<lparr>pending := remove_nth i (pending s)\<rparr>"
  show ?thesis
  proof (cases "pending s ! i")
    case (PSend m r)
    from nth_mem [OF True] PSend have "PSend m r \<in> set (pending s)" by simp
    with ok have "sending s"
      by (auto simp: chat_ok_def filter_empty_conv is_send_def split: if_splits)
    with PSend True ok show ?thesis
      by (cases x)
        (auto simp: respond_def chat_ok_def sendDone_def filter_remove_nth alternating_snoc
          bot_message_def is_send_def sendMessage_def split: outcome.splits option.splits)
  next
    case (PUpload f r m)
    with True ok show ?thesis
      by (cases x) (auto simp: respond_def chat_ok_dones, auto simp: chat_ok_def filter_remove_nth is_send_def)
  next
    case (PList r)
    with True ok show ?thesis
      by (cases x) (auto simp: respond_def chat_ok_dones, auto simp: chat_ok_def filter_remove_nth is_send_def)
  next
    case (PText u)
    with True ok show ?thesis
      by (cases x) (auto simp: respond_def chat_ok_dones, auto simp: chat_ok_def filter_remove_nth is_send_def)
  next
    case (PPdf u)
    with True ok show ?thesis
      by (cases x) (auto simp: respond_def chat_ok_dones, auto simp: chat_ok_def filter_remove_nth is_send_def)
  qed
qed

lemma chat_ok_step: "chat_ok s \<Longrightarrow> chat_ok (home_step base s e)"
  by (cases e) (simp_all add: chat_ok_setters chat_ok_handleSend chat_ok_respond)

section \<open>The timer and busy invariants\<close>

lemma exists_remove_nth:
  "\<exists>p \<in> set xs. P p \<Longrightarrow> \<not> P (xs ! i) \<Longrightarrow> \<exists>p \<in> set (remove_nth i xs). P p"
proof -
  assume "\<exists>p \<in> set xs. P p" and n: "\<not> P (xs ! i)"
  then obtain p where p: "p \<in> set xs" "P p" by blast
  with n have "p \<noteq> xs ! i" by auto
  with p show ?thesis by (blast intro: set_remove_nth_keeps)
qed

lemma timer_ok_init: "timer_ok init_home"
  by (simp add: timer_ok_def init_home_def)

lemma timer_ok_setNotification: "timer_ok s \<Longrightarrow> timer_ok (setNotification n s)"
  by (auto simp: timer_ok_def setNotification_def truthy_def split: option.splits)

lemma timer_ok_elapse: "timer_ok s \<Longrightarrow> timer_ok (elapse ms s)"
  by (auto simp: timer_ok_def elapse_def setNotification_def truthy_def split: option.splits)

lemma timer_ok_setters:
  "timer_ok (setMode m s) = timer_ok s"
  "timer_ok (setRole r s) = timer_ok s"
  "timer_ok (setInput v s) = timer_ok s"
  "timer_ok (fetchDocuments r s) = timer_ok s"
  "timer_ok (handleUpload f s) = timer_ok s"
  "timer_ok (handlePreview base fn s) = timer_ok s"
  "timer_ok (closePreview s) = timer_ok s"
  "timer_ok (overlayClick s) = timer_ok s"
  "timer_ok (handleSend s) = timer_ok s"
  "timer_ok (listDone l s) = timer_ok s"
  "timer_ok (sendDone c s) = timer_ok s"
  "timer_ok (textDone t s) = timer_ok s"
  "timer_ok (pdfDone p s) = timer_ok s"
  "timer_ok (s\<lparr>pending := ps\<rparr>) = timer_ok s"
  by (simp_all add: timer_ok_def setter_defs done_defs handleSend_def Let_def
      split: option.splits outcome.splits files_value.splits fetched.splits bool.splits)

lemma timer_ok_uploadDone: "timer_ok s \<Longrightarrow> timer_ok (uploadDone r m u s)"
  by (auto simp: uploadDone_def timer_ok_setters timer_ok_setNotification Let_def
      split: outcome.splits option.splits)

lemma timer_ok_respond: "timer_ok s \<Longrightarrow> timer_ok (respond i x s)"
  by (cases "pending s ! i"; cases x)
    (simp_all add: respond_def timer_ok_setters timer_ok_uploadDone)

lemma timer_ok_step: "timer_ok s \<Longrightarrow> timer_ok (home_step base s e)"
  by (cases e)
    (simp_all add: timer_ok_setters timer_ok_elapse timer_ok_respond)

lemma busy_ok_init: "busy_ok init_home"
  by (simp add: busy_ok_def init_home_def)

lemma busy_ok_grow:
  "busy_ok s \<Longrightarrow> busy_ok (fetchDocuments r s)"
  "busy_ok s \<Longrightarrow> busy_ok (handleUpload f s)"
  "busy_ok s \<Longrightarrow> busy_ok (handlePreview base fn s)"
  "busy_ok s \<Longrightarrow> busy_ok (handleSend s)"
  "busy_ok s \<Longrightarrow> busy_ok (setInput v s)"
  "busy_ok s \<Longrightarrow> busy_ok (closePreview s)"
  "busy_ok s \<Longrightarrow> busy_ok (overlayClick s)"
  "busy_ok s \<Longrightarrow> busy_ok (setNotification n s)"
  by (auto simp: busy_ok_def setter_defs handleSend_def Let_def pending_kind_defs
      split: option.splits)

lemma busy_ok_effects:
  "busy_ok s \<Longrightarrow> busy_ok (setMode m s)"
  "busy_ok s \<Longrightarrow> busy_ok (setRole r s)"
  "busy_ok s \<Longrightarrow> busy_ok (elapse ms s)"
  by (auto simp: busy_ok_def setter_defs pending_kind_defs split: option.splits)

lemma busy_ok_remove:
  "busy_ok s \<Longrightarrow> is_preview (pending s ! i) \<Longrightarrow>
   busy_ok (s\<lparr>pending := remove_nth i (pending s), processing := False\<rparr>)"
  "busy_ok s \<Longrightarrow> is_list (pending s ! i) \<Longrightarrow>
   busy_ok (s\<lparr>pending := remove_nth i (pending s), docsLoading := False\<rparr>)"
  "busy_ok s \<Longrightarrow> \<not> is_preview (pending s ! i) \<Longrightarrow> \<not> is_list (pending s ! i) \<Longrightarrow>
   busy_ok (s\<lparr>pending := remove_nth i (pending s)\<rparr>)"
  by (auto simp: busy_ok_def pending_kind_defs intro!: exists_remove_nth
      split: pending.splits)

lemma busy_ok_dones:
  "busy_ok (sendDone c s) = busy_ok s"
  "busy_ok (s\<lparr>docsLoading := False\<rparr>) \<Longrightarrow> busy_ok (listDone l s)"
  "busy_ok (s\<lparr>processing := False\<rparr>) \<Longrightarrow> busy_ok (textDone t s)"
  "busy_ok (s\<lparr>processing := False\<rparr>) \<Longrightarrow> busy_ok (pdfDone p s)"
  "busy_ok s \<Longrightarrow> busy_ok (uploadDone r m u s)"
  by (auto simp: busy_ok_def done_defs setter_defs pending_kind_defs Let_def
      split: option.splits outcome.splits files_value.splits fetched.splits bool.splits)

lemma busy_ok_respond: "busy_ok s \<Longrightarrow> busy_ok (respond i x s)"
proof (cases "i < length (pending s)")
  case False
  assume "busy_ok s"
  with False show ?thesis by (simp add: respond_def)
next
  case True
  assume ok: "busy_ok s"
  show ?thesis
  proof (cases "pending s ! i")
    case (PSend m r)
    with ok busy_ok_remove(3) [of s i] show ?thesis
      by (cases x) (simp_all add: respond_def busy_ok_dones pending_kind_defs)
  next
    case (PUpload f r m)
    with ok busy_ok_remove(3) [of s i] show ?thesis
      by (cases x) (simp_all add: respond_def busy_ok_dones pending_kind_defs)
  next
    case (PList r)
    with ok busy_ok_remove(2) [of s i] show ?thesis
      by (cases x) (simp_all add: respond_def busy_ok_dones pending_kind_defs)
  next
    case (PText u)
    with ok busy_ok_remove(1) [of s i] show ?thesis
      by (cases x) (simp_all add: respond_def busy_ok_dones pending_kind_defs)
  next
    case (PPdf u)
    with ok busy_ok_remove(1) [of s i] show ?thesis
      by (cases x) (simp_all add: respond_def busy_ok_dones pending_kind_defs)
  qed
qed

lemma busy_ok_step: "busy_ok s \<Longrightarrow> busy_ok (home_step base s e)"
  by (cases e) (simp_all add: busy_ok_grow busy_ok_effects busy_ok_respond)

lemma role_step: "role s \<in> set roles \<Longrightarrow> offered s e \<Longrightarrow> role (home_step base s e) \<in> set roles"
proof (cases e)
  case (Respond i x)
  assume "role s \<in> set roles"
  with Respond show ?thesis
    by (cases "pending s ! i"; cases x)
      (simp_all add: respond_def done_defs setter_defs Let_def
        split: option.splits outcome.splits files_value.splits fetched.splits bool.splits)
qed (auto simp: setter_defs handleSend_def Let_def split: option.splits)

lemma home_ok_init: "home_ok init_home"
  by (simp add: home_ok_def chat_ok_init timer_ok_init busy_ok_init)
    (simp add: init_home_def roles_def)

lemma home_ok_step: "home_ok s \<Longrightarrow> offered s e \<Longrightarrow> home_ok (home_step base s e)"
  by (simp add: home_ok_def chat_ok_step timer_ok_step busy_ok_step role_step)

lemma home_run_simps [simp]:
  "home_run base s [] = s"
  "home_run base s (e # es) = home_run base (home_step base s e) es"
  "home_run base s (es @ es') = home_run base (home_run base s es) es'"
  by (simp_all add: home_run_def)

lemma home_reachable_ok: "home_reachable base s \<Longrightarrow> home_ok s"
  by (induction rule: home_reachable.induct) (simp_all add: home_ok_init home_ok_step)

lemma home_reachable_run:
  "home_reachable base s \<Longrightarrow> offered_run base s es \<Longrightarrow> home_reachable base (home_run base s es)"
  by (induction es arbitrary: s) (auto intro: home_reachable.step)

lemma home_ok_run: "home_ok s \<Longrightarrow> offered_run base s es \<Longrightarrow> home_ok (home_run base s es)"
  by (induction es arbitrary: s) (auto intro: home_ok_step)

text \<open>
  C2. Every sequence of events the page offers, started from the initial state, ends in a
  state that satisfies the page invariant: the role is one of the four roles; the messages
  alternate between user and bot, with exactly one send suspended while \<^verbatim>\<open>sending\<close> is
  set and none otherwise; the timer is armed exactly while a notification is shown, with
  at most 3000 ms to run; \<^verbatim>\<open>processing\<close> and \<^verbatim>\<open>docsLoading\<close> are only set while a preview
  or a listing request is suspended.
\<close>

theorem reachable_home_ok:
  "offered_run base init_home es \<Longrightarrow> home_ok (home_run base init_home es)"
  by (rule home_ok_run [OF home_ok_init])

theorem reachable_home_ok_witness:
  "offered_run ''http://localhost:8000'' init_home
     [TypeInput ''hi'', ClickSend, Respond 0 (ChatResponse Rejected)] \<and>
   home_ok (home_run ''http://localhost:8000'' init_home
     [TypeInput ''hi'', ClickSend, Respond 0 (ChatResponse Rejected)])"
proof -
  have h: "offered_run ''http://localhost:8000'' init_home
     [TypeInput ''hi'', ClickSend, Respond 0 (ChatResponse Rejected)]"
    by (simp add: js_eval)
  from h reachable_home_ok [OF h] show ?thesis by (simp only: simp_thms)
qed

section \<open>Behaviour of the handlers\<close>

lemma respond_last:
  "continuation p x = Some k \<Longrightarrow>
   respond (length (pending s)) x (s\<lparr>pending := pending s @ [p]\<rparr>) = k s"
  by (simp add: respond_def)

lemma handleSend_fields:
  "truthy (trim (input s)) \<Longrightarrow> \<not> sending s \<Longrightarrow>
   handleSend s =
     s\<lparr>messages := messages s @ [user_message (trim (input s))], sending := True, input := [],
       pending := pending s @ [PSend (trim (input s)) (role s)]\<rparr>"
  by (simp add: handleSend_def Let_def)

subsection \<open>Chat\<close>

text \<open>
  \<^verbatim>\<open>handleSend\<close> does nothing when the input is empty or holds only white space, and
  nothing while an earlier send is unanswered.
\<close>

theorem handleSend_ignored:
  "trim (input s) = [] \<or> sending s \<Longrightarrow> handleSend s = s"
  by (auto simp: handleSend_def Let_def truthy_def)

theorem handleSend_ignored_witness:
  "trim (input (init_home\<lparr>input := [CHR 0x20, CHR 0x09]\<rparr>)) = [] \<and>
   handleSend (init_home\<lparr>input := [CHR 0x20, CHR 0x09]\<rparr>) = init_home\<lparr>input := [CHR 0x20, CHR 0x09]\<rparr>"
proof -
  have h: "trim (input (init_home\<lparr>input := [CHR 0x20, CHR 0x09]\<rparr>)) = []"
    by (simp add: js_eval)
  from h handleSend_ignored [of "init_home\<lparr>input := [CHR 0x20, CHR 0x09]\<rparr>"] show ?thesis
    by (simp only: simp_thms)
qed

text \<open>
  C4. A send and its answer: from a state that is not sending and whose input is not
  blank, \<^verbatim>\<open>handleSend\<close> followed by the answer to its request appends the trimmed input as
  a user message and exactly one bot message, clears the input, and leaves the page not
  sending. The bot text is the reply of the response, \<^verbatim>\<open>No reply from server.\<close> when the
  response has no reply, and \<^verbatim>\<open>Failed to send message\<close> when the request failed: the text
  \<^verbatim>\<open>Error sending message.\<close> of the handler's own \<^verbatim>\<open>catch\<close> is never shown, because the
  gateway does not throw.
\<close>

theorem send_roundtrip:
  assumes "truthy (trim (input s))" and "\<not> sending s"
  shows "let s' = respond (length (pending s)) (ChatResponse x) (handleSend s) in
         messages s' =
           messages s @
           [user_message (trim (input s)),
            bot_message (case x of
                           Rejected \<Rightarrow> ''Failed to send message''
                         | Resolved d \<Rightarrow> (case reply d of Some t \<Rightarrow> t | None \<Rightarrow> ''No reply from server.''))] \<and>
         input s' = [] \<and> \<not> sending s' \<and> pending s' = pending s"
  using assms
  by (simp add: handleSend_fields respond_def sendDone_def Let_def
      split: outcome.splits option.splits)

theorem send_roundtrip_witness:
  "truthy (trim (input (init_home\<lparr>input := '' hello ''\<rparr>))) \<and>
   \<not> sending (init_home\<lparr>input := '' hello ''\<rparr>) \<and>
   messages (respond 0 (ChatResponse Rejected) (handleSend (init_home\<lparr>input := '' hello ''\<rparr>))) =
     [user_message ''hello'', bot_message ''Failed to send message'']"
proof -
  have h: "truthy (trim (input (init_home\<lparr>input := '' hello ''\<rparr>)))"
    "\<not> sending (init_home\<lparr>input := '' hello ''\<rparr>)"
    by (simp_all add: js_eval)
  have t: "trim '' hello '' = ''hello''"
    by (simp add: js_eval)
  from h send_roundtrip [OF h, where x = Rejected] show ?thesis
    by (simp add: Let_def init_home_def t)
qed

lemma prefix_messages_step: "prefix (messages s) (messages (home_step base s e))"
proof (cases e)
  case (Respond i x)
  then show ?thesis
    by (cases "pending s ! i"; cases x)
      (simp_all add: respond_def done_defs setter_defs Let_def
        split: option.splits outcome.splits files_value.splits fetched.splits bool.splits)
qed (auto simp: setter_defs handleSend_def Let_def split: option.splits)

text \<open>
  C27. The message history is append-only: whatever events happen, in whatever order, the
  messages before them are a prefix of the messages after them.
\<close>

theorem messages_append_only: "prefix (messages s) (messages (home_run base s es))"
proof (induction es arbitrary: s)
  case Nil
  then show ?case by simp
next
  case (Cons e es)
  from prefix_messages_step Cons show ?case
    by (simp) (rule prefix_order.trans)
qed

subsection \<open>Upload\<close>

text \<open>
  C7. A failed upload is announced as a success. The gateway turns the failure into an
  object with an \<^verbatim>\<open>error\<close> field and no \<^verbatim>\<open>message\<close>, and \<^verbatim>\<open>handleUpload\<close> shows
  \<^verbatim>\<open>File uploaded\<close> for every answer without a message.
\<close>

theorem upload_failure_reports_success:
  assumes "i < length (pending s)" and "pending s ! i = PUpload f r m"
  shows "notification (respond i (UploadResponse Rejected) s) = ''File uploaded''"
  using assms
  by (simp add: respond_def uploadDone_def setNotification_def fetchDocuments_def Let_def)

theorem upload_failure_reports_success_witness:
  "0 < length (pending (handleUpload
       (Some \<lparr>file_name = ''a.txt'', file_type = ''text/plain'', file_size = 3\<rparr>) init_home)) \<and>
   pending (handleUpload
       (Some \<lparr>file_name = ''a.txt'', file_type = ''text/plain'', file_size = 3\<rparr>) init_home) ! 0 =
     PUpload \<lparr>file_name = ''a.txt'', file_type = ''text/plain'', file_size = 3\<rparr> ''HR'' Chat \<and>
   notification (respond 0 (UploadResponse Rejected) (handleUpload
       (Some \<lparr>file_name = ''a.txt'', file_type = ''text/plain'', file_size = 3\<rparr>) init_home)) =
     ''File uploaded''"
proof -
  let ?s = "handleUpload
       (Some \<lparr>file_name = ''a.txt'', file_type = ''text/plain'', file_size = 3\<rparr>) init_home"
  have h: "0 < length (pending ?s)"
    "pending ?s ! 0 =
       PUpload \<lparr>file_name = ''a.txt'', file_type = ''text/plain'', file_size = 3\<rparr> ''HR'' Chat"
    by (simp_all add: handleUpload_def init_home_def)
  from h upload_failure_reports_success [OF h] show ?thesis by (simp only: simp_thms)
qed

text \<open>
  The answer to an upload shows the message of the response, or \<^verbatim>\<open>File uploaded\<close> when it
  has none or an empty one, and asks for a new listing exactly when the page was in
  documents mode when the upload started, for the role of that moment.
\<close>

lemma uploadDone_refresh:
  "pending (uploadDone r m (Resolved d) s) = pending s @ (if m = Documents then [PList r] else []) \<and>
   notification (uploadDone r m (Resolved d) s) =
     (case ud_message d of Some t \<Rightarrow> if t = [] then ''File uploaded'' else t | None \<Rightarrow> ''File uploaded'')"
  by (simp add: uploadDone_def setNotification_def fetchDocuments_def Let_def truthy_def
      split: option.splits)

subsection \<open>The notification timer\<close>

text \<open>
  A notification that differs from the one shown gets its full window: it is shown for
  3000 ms and gone after that, whatever was shown before.
\<close>

theorem notification_window:
  assumes "n \<noteq> []" and "n \<noteq> notification s"
  shows "notification (elapse ms (setNotification n s)) = (if ms < 3000 then n else [])"
  using assms by (simp add: elapse_def setNotification_def truthy_def)

theorem notification_window_witness:
  "''File uploaded'' \<noteq> [] \<and> ''File uploaded'' \<noteq> notification init_home \<and>
   notification (elapse 2999 (setNotification ''File uploaded'' init_home)) = ''File uploaded'' \<and>
   notification (elapse 3000 (setNotification ''File uploaded'' init_home)) = []"
proof -
  have h: "''File uploaded'' \<noteq> []" "''File uploaded'' \<noteq> notification init_home"
    by (simp_all add: init_home_def)
  from h notification_window [OF h, of 2999] notification_window [OF h, of 3000]
  show ?thesis by simp
qed

text \<open>
  C10. Showing the same message again does not restart the countdown: when a message is
  shown, and shown again \<open>d1\<close> ms later, it disappears 3000 ms after the first call, so
  the second display lasts only \<open>3000 - d1\<close> ms.
\<close>

theorem notification_not_restarted:
  assumes "n \<noteq> []" and "n \<noteq> notification s" and "d1 < 3000" and "3000 \<le> d1 + d2"
  shows "notification (elapse d2 (setNotification n (elapse d1 (setNotification n s)))) = []"
  using assms by (simp add: elapse_def setNotification_def truthy_def)

theorem notification_not_restarted_witness:
  "''File uploaded'' \<noteq> [] \<and> ''File uploaded'' \<noteq> notification init_home \<and>
   (2900::nat) < 3000 \<and> (3000::nat) \<le> 2900 + 100 \<and>
   notification (elapse 100 (setNotification ''File uploaded''
      (elapse 2900 (setNotification ''File uploaded'' init_home)))) = []"
proof -
  have h: "''File uploaded'' \<noteq> []" "''File uploaded'' \<noteq> notification init_home"
    "(2900::nat) < 3000" "(3000::nat) \<le> 2900 + 100"
    by (simp_all add: init_home_def)
  from h notification_not_restarted [OF h] show ?thesis by (simp only: simp_thms)
qed

text \<open>Time is additive: two waits in a row are one wait of their sum.\<close>

lemma elapse_add: "timer_ok s \<Longrightarrow> elapse d2 (elapse d1 s) = elapse (d1 + d2) s"
  by (auto simp: elapse_def setNotification_def timer_ok_def truthy_def split: option.splits)

subsection \<open>The document list\<close>

text \<open>
  A listing is requested exactly when the mode changes to documents or the role changes
  in documents mode, for the role after the change; setting the mode or the role to the
  value it has requests nothing.
\<close>

theorem documents_fetch_on_change:
  "pending (setMode m s) = pending s @ (if m \<noteq> mode s \<and> m = Documents then [PList (role s)] else []) \<and>
   pending (setRole r s) = pending s @ (if r \<noteq> role s \<and> mode s = Documents then [PList r] else [])"
  by (simp add: setMode_def setRole_def documentsEffect_def fetchDocuments_def)

text \<open>
  C28. The last answer wins, also when it is stale. When the role changes while the listing
  for the old role is in flight and the answer for the new role arrives first, the page
  ends with the new role, no request in flight, and the documents of the old role.
\<close>

theorem stale_listing:
  assumes "mode s = Chat" and "role s = r1" and "r2 \<noteq> r1" and "pending s = []"
  shows "let t = home_run base s
           [ClickMode Documents, SelectRole r2,
            Respond 1 (ListResponse (Resolved (Some (FileArray fs2)))),
            Respond 0 (ListResponse (Resolved (Some (FileArray fs1))))] in
         role t = r2 \<and> documents t = fs1 \<and> pending t = [] \<and> \<not> docsLoading t"
  using assms
  by (simp add: setMode_def setRole_def documentsEffect_def fetchDocuments_def respond_def
      listDone_def remove_nth_def Let_def)

theorem stale_listing_witness:
  "mode init_home = Chat \<and> role init_home = ''HR'' \<and> ''Legal'' \<noteq> ''HR'' \<and> pending init_home = [] \<and>
   documents (home_run ''http://localhost:8000'' init_home
           [ClickMode Documents, SelectRole ''Legal'',
            Respond 1 (ListResponse (Resolved (Some (FileArray [''contract.pdf''])))),
            Respond 0 (ListResponse (Resolved (Some (FileArray [''payroll.txt'']))))]) =
     [''payroll.txt''] \<and>
   role (home_run ''http://localhost:8000'' init_home
           [ClickMode Documents, SelectRole ''Legal'',
            Respond 1 (ListResponse (Resolved (Some (FileArray [''contract.pdf''])))),
            Respond 0 (ListResponse (Resolved (Some (FileArray [''payroll.txt'']))))]) = ''Legal''"
proof -
  have h: "mode init_home = Chat" "role init_home = ''HR''" "''Legal'' \<noteq> ''HR''"
    "pending init_home = []"
    by (simp_all add: init_home_def)
  from h stale_listing [OF h, where base = "''http://localhost:8000''"
      and ?fs2.0 = "[''contract.pdf'']" and ?fs1.0 = "[''payroll.txt'']"]
  show ?thesis by (simp add: Let_def)
qed

subsection \<open>Preview\<close>

lemma prefix_through_sep:
  "prefix p (xs @ sep # ys) \<Longrightarrow> sep \<notin> set p \<Longrightarrow> prefix p xs"
  by (auto simp: prefix_append prefix_Cons)

lemma download_url_pdf:
  "endsWith (toLowerCase (download_url base r fn)) ''.pdf'' \<longleftrightarrow> endsWith (toLowerCase fn) ''.pdf''"
proof
  assume "endsWith (toLowerCase (download_url base r fn)) ''.pdf''"
  then have "prefix ''fdp.'' (rev (toLowerCase (encodeURIComponent fn)) @
      CHR ''/'' # rev (toLowerCase (base @ ''/download/'' @ r)))"
    by (simp add: download_url_def endsWith_iff_suffix suffix_to_prefix lower_char_def)
  then have "prefix ''fdp.'' (rev (toLowerCase (encodeURIComponent fn)))"
    by (rule prefix_through_sep) simp
  then have "endsWith (toLowerCase (encodeURIComponent fn)) ''.pdf''"
    by (simp add: endsWith_iff_suffix suffix_to_prefix)
  then show "endsWith (toLowerCase fn) ''.pdf''"
    by (rule pdf_suffix_reflect)
next
  assume "endsWith (toLowerCase fn) ''.pdf''"
  then have "endsWith (toLowerCase (encodeURIComponent fn)) ''.pdf''"
    by (rule encode_keeps_suffix) (simp add: unreserved_def)
  then have "suffix ''.pdf'' (toLowerCase (encodeURIComponent fn))"
    by (simp add: endsWith_iff_suffix)
  then have "suffix ''.pdf''
      (toLowerCase (base @ ''/download/'' @ r @ ''/'') @ toLowerCase (encodeURIComponent fn))"
    by (rule suffix_appendI)
  then show "endsWith (toLowerCase (download_url base r fn)) ''.pdf''"
    by (simp add: download_url_def endsWith_iff_suffix)
qed

lemma endsWith_truthy: "endsWith (toLowerCase fn) p \<Longrightarrow> p \<noteq> [] \<Longrightarrow> truthy fn"
  by (auto simp: endsWith_def truthy_def)

lemma txt_not_pdf: "endsWith s ''.pdf'' \<Longrightarrow> \<not> endsWith s ''.txt''"
  by (simp add: endsWith_def)

lemma download_url_truthy [simp]:
  "truthy (download_url base r fn)"
  "download_url base r fn \<noteq> []"
  by (simp_all add: download_url_def truthy_def)

text \<open>
  C38. Opening a \<^verbatim>\<open>.txt\<close> document (any case of the extension) sets \<^verbatim>\<open>processing\<close> and
  issues one request for the download URL, leaving the preview as it was; the answer ends
  processing with the body of the response as text, or with empty text when the request
  failed, and with no preview file, so neither the embedded viewer nor the image is shown.
  The body is shown whatever the status of the response.
\<close>

theorem txt_preview:
  assumes "endsWith (toLowerCase fn) ''.txt''"
  shows "let s1 = handlePreview base fn s;
             s2 = respond (length (pending s)) (TextResponse x) s1 in
         processing s1 \<and> previewFile s1 = previewFile s \<and> previewText s1 = previewText s \<and>
         pending s1 = pending s @ [PText (download_url base (role s) fn)] \<and>
         previewFile s2 = None \<and> \<not> processing s2 \<and> pending s2 = pending s \<and>
         previewText s2 = (case x of Http ok body \<Rightarrow> body | NetworkError \<Rightarrow> []) \<and>
         \<not> show_embed s2 \<and> \<not> show_image s2"
  using assms endsWith_truthy [OF assms]
  by (simp add: handlePreview_def respond_def textDone_def show_embed_def show_image_def Let_def
      split: fetched.splits)

theorem txt_preview_witness:
  "endsWith (toLowerCase ''Notes.TXT'') ''.txt'' \<and>
   previewText (respond 0 (TextResponse (Http False ''Not Found''))
      (handlePreview ''http://localhost:8000'' ''Notes.TXT'' init_home)) = ''Not Found'' \<and>
   previewFile (respond 0 (TextResponse (Http False ''Not Found''))
      (handlePreview ''http://localhost:8000'' ''Notes.TXT'' init_home)) = None"
proof -
  have h: "endsWith (toLowerCase ''Notes.TXT'') ''.txt''"
    by (simp add: js_eval)
  from h txt_preview [OF h, where base = "''http://localhost:8000''" and s = init_home
      and x = "Http False ''Not Found''"]
  show ?thesis by (simp add: Let_def) (simp add: init_home_def)
qed

text \<open>
  C29. Opening a \<^verbatim>\<open>.pdf\<close> document sets \<^verbatim>\<open>processing\<close>, installs the download URL as the
  preview file with empty text, and issues the extraction request; the page then shows the
  embedded viewer and not the image, because the URL built from the encoded name still
  ends in \<^verbatim>\<open>.pdf\<close>.
\<close>

theorem pdf_preview:
  assumes "endsWith (toLowerCase fn) ''.pdf''"
  shows "let s1 = handlePreview base fn s in
         processing s1 \<and> previewFile s1 = Some (download_url base (role s) fn) \<and>
         previewText s1 = [] \<and> show_embed s1 \<and> \<not> show_image s1 \<and>
         pending s1 = pending s @ [PPdf (process_url base (role s) fn)]"
  using assms endsWith_truthy [OF assms] txt_not_pdf [OF assms]
  by (simp add: handlePreview_def show_embed_def show_image_def Let_def download_url_pdf)

theorem pdf_preview_witness:
  "endsWith (toLowerCase ''Q3 report.PDF'') ''.pdf'' \<and>
   previewFile (handlePreview ''http://localhost:8000'' ''Q3 report.PDF'' init_home) =
     Some ''http://localhost:8000/download/HR/Q3%20report.PDF'' \<and>
   show_embed (handlePreview ''http://localhost:8000'' ''Q3 report.PDF'' init_home)"
proof -
  have h: "endsWith (toLowerCase ''Q3 report.PDF'') ''.pdf''"
    by (simp add: js_eval)
  have u: "download_url ''http://localhost:8000'' (role init_home) ''Q3 report.PDF'' =
      ''http://localhost:8000/download/HR/Q3%20report.PDF''"
    by (simp add: js_eval)
  from h pdf_preview [OF h, where base = "''http://localhost:8000''" and s = init_home]
  show ?thesis by (simp add: Let_def u)
qed

text \<open>
  C36. The answer to the extraction request ends processing and keeps the preview file;
  the text becomes the extracted text when the response is successful and holds one, and
  stays empty on every failure (no connection, a status outside 2xx, a body that is not
  JSON, a body without text).
\<close>

theorem pdf_extraction:
  assumes "endsWith (toLowerCase fn) ''.pdf''"
  shows "let s2 = respond (length (pending s)) (PdfResponse x) (handlePreview base fn s) in
         previewFile s2 = Some (download_url base (role s) fn) \<and> \<not> processing s2 \<and>
         pending s2 = pending s \<and>
         previewText s2 = (case x of Http True (Resolved (Some t)) \<Rightarrow> t | _ \<Rightarrow> [])"
  using assms endsWith_truthy [OF assms] txt_not_pdf [OF assms]
  by (simp add: handlePreview_def respond_def pdfDone_def Let_def
      split: fetched.splits outcome.splits option.splits bool.splits)

theorem pdf_extraction_witness:
  "endsWith (toLowerCase ''report.pdf'') ''.pdf'' \<and>
   previewText (respond 0 (PdfResponse (Http True (Resolved (Some ''Quarterly figures''))))
      (handlePreview ''http://localhost:8000'' ''report.pdf'' init_home)) = ''Quarterly figures'' \<and>
   previewText (respond 0 (PdfResponse (Http False Rejected))
      (handlePreview ''http://localhost:8000'' ''report.pdf'' init_home)) = [] \<and>
   \<not> processing (respond 0 (PdfResponse (Http False Rejected))
      (handlePreview ''http://localhost:8000'' ''report.pdf'' init_home))"
proof -
  have h: "endsWith (toLowerCase ''report.pdf'') ''.pdf''"
    by (simp add: js_eval)
  from h
    pdf_extraction [OF h, where base = "''http://localhost:8000''" and s = init_home
      and x = "Http True (Resolved (Some ''Quarterly figures''))"]
    pdf_extraction [OF h, where base = "''http://localhost:8000''" and s = init_home
      and x = "Http False Rejected"]
  show ?thesis by (simp add: Let_def) (simp add: init_home_def)
qed

text \<open>
  C37. Opening a document with any other extension installs the download URL as the
  preview file, with empty text and no request; the page shows it as an image and not in
  the embedded viewer, because encoding the name cannot make the URL end in \<^verbatim>\<open>.pdf\<close>.
\<close>

theorem other_preview:
  assumes "fn \<noteq> []" and "\<not> endsWith (toLowerCase fn) ''.txt''"
    and "\<not> endsWith (toLowerCase fn) ''.pdf''"
  shows "let s1 = handlePreview base fn s in
         previewFile s1 = Some (download_url base (role s) fn) \<and> previewText s1 = [] \<and>
         processing s1 = processing s \<and> pending s1 = pending s \<and>
         show_image s1 \<and> \<not> show_embed s1"
  using assms
  by (simp add: handlePreview_def show_embed_def show_image_def Let_def download_url_pdf truthy_def)

theorem other_preview_witness:
  "''logo.png'' \<noteq> [] \<and> \<not> endsWith (toLowerCase ''logo.png'') ''.txt'' \<and>
   \<not> endsWith (toLowerCase ''logo.png'') ''.pdf'' \<and>
   show_image (handlePreview ''http://localhost:8000'' ''logo.png'' init_home) \<and>
   pending (handlePreview ''http://localhost:8000'' ''logo.png'' init_home) = []"
proof -
  have h: "''logo.png'' \<noteq> []" "\<not> endsWith (toLowerCase ''logo.png'') ''.txt''"
    "\<not> endsWith (toLowerCase ''logo.png'') ''.pdf''"
    by (simp_all add: js_eval)
  from h other_preview [OF h, where base = "''http://localhost:8000''" and s = init_home]
  show ?thesis by (simp add: Let_def) (simp add: init_home_def)
qed

text \<open>
  Closing the preview clears the file and the text but not \<^verbatim>\<open>processing\<close>: the modal
  is still open after a close exactly when a preview request is being processed. The
  overlay and the close button run the same handler.
\<close>

theorem close_unless_processing:
  "modalOpen (closePreview s) = processing s \<and> overlayClick s = closePreview s"
  by (simp add: modalOpen_def closePreview_def overlayClick_def truthy_opt_def truthy_def)

text \<open>
  C8. The result of an extraction that is answered after the preview was closed is not
  discarded: it is installed as the preview text, without a preview file, and it opens the
  modal again when the text is not empty.
\<close>

theorem stale_extraction_reopens:
  assumes "i < length (pending s)" and "pending s ! i = PPdf u"
  shows "let s' = respond i (PdfResponse (Http True (Resolved (Some t)))) (closePreview s) in
         previewFile s' = None \<and> previewText s' = t \<and> modalOpen s' = (t \<noteq> [])"
  using assms
  by (simp add: respond_def closePreview_def pdfDone_def modalOpen_def truthy_opt_def truthy_def
      Let_def)

theorem stale_extraction_reopens_witness:
  "0 < length (pending (handlePreview ''http://localhost:8000'' ''report.pdf'' init_home)) \<and>
   pending (handlePreview ''http://localhost:8000'' ''report.pdf'' init_home) ! 0 =
     PPdf ''http://localhost:8000/process_pdf/HR/report.pdf'' \<and>
   modalOpen (respond 0 (PdfResponse (Http True (Resolved (Some ''Quarterly figures''))))
      (closePreview (handlePreview ''http://localhost:8000'' ''report.pdf'' init_home)))"
proof -
  let ?s = "handlePreview ''http://localhost:8000'' ''report.pdf'' init_home"
  have h: "0 < length (pending ?s)"
    "pending ?s ! 0 = PPdf ''http://localhost:8000/process_pdf/HR/report.pdf''"
    by (simp_all add: js_eval)
  from h stale_extraction_reopens [OF h, where t = "''Quarterly figures''"]
  show ?thesis by (simp add: Let_def)
qed

end
