(* ===== verification/Message_Keys.thy ===== *)
theory Message_Keys
  imports Home_Page Decimal
begin

text \<open>
  The keys the chat window gives to the messages of the page. The window builds the key
  of a message without \<^verbatim>\<open>id\<close> from its sender, its index and the start of its text
  (\<^verbatim>\<open>src/src/components/ChatWindow.jsx\<close>, lines 56 to 58); the page only creates messages
  without \<^verbatim>\<open>id\<close> whose sender is \<^verbatim>\<open>user\<close> or \<^verbatim>\<open>bot\<close> (\<^verbatim>\<open>src/src/pages/Home.js\<close>, lines
  83, 89 and 92). For such messages the index can be read back from the key (with the
  reader of decimal numerals of \<open>Decimal\<close>), so the keys of one list are pairwise distinct,
  as React requires of the children of a list.
\<close>

section \<open>Reading a key\<close>

definition key_index :: "js_string \<Rightarrow> nat" where
  "key_index k =
     read_nat (takeWhile is_digit (drop (if startsWith k ''user-'' then 5 else 4) k))"

definition home_message :: "chat_message \<Rightarrow> bool" where
  "home_message m \<longleftrightarrow> msg_id m = None \<and> (sender m = Some ''user'' \<or> sender m = Some ''bot'')"

section \<open>Keys of the page's messages\<close>

lemma key_index_message_key: "home_message m \<Longrightarrow> key_index (message_key i m) = i"
  by (auto simp: home_message_def message_key_def key_index_def startsWith_def takeWhile_digits
      read_show_nat)

lemma message_keys_inj:
  assumes "list_all home_message msgs"
  shows "distinct (message_keys msgs)"
proof -
  have "inj_on (\<lambda>(idx, msg). message_key idx msg) (set (List.enumerate 0 msgs))"
  proof (rule inj_onI, clarify)
    fix i m j m'
    assume a: "(i, m) \<in> set (List.enumerate 0 msgs)" "(j, m') \<in> set (List.enumerate 0 msgs)"
      and k: "message_key i m = message_key j m'"
    from a assms have hm: "home_message m" "home_message m'"
      by (auto simp: list_all_iff in_set_enumerate_eq)
    from k key_index_message_key [OF hm(1), of i] key_index_message_key [OF hm(2), of j]
    have "i = j" by simp
    with a show "i = j \<and> m = m'"
      by (auto simp: in_set_enumerate_eq)
  qed
  then show ?thesis
    by (simp add: message_keys_def distinct_map)
qed

lemma home_message_step:
  "list_all home_message (messages s) \<Longrightarrow> list_all home_message (messages (home_step base s e))"
proof (cases e)
  case (Respond i x)
  assume "list_all home_message (messages s)"
  with Respond show ?thesis
    by (cases "pending s ! i"; cases x)
      (simp_all add: respond_def done_defs setter_defs Let_def home_message_def bot_message_def
        split: option.splits outcome.splits files_value.splits fetched.splits bool.splits)
qed (auto simp: setter_defs handleSend_def Let_def home_message_def user_message_def
    split: option.splits)

lemma home_message_reachable: "home_reachable base s \<Longrightarrow> list_all home_message (messages s)"
  by (induction rule: home_reachable.induct) (simp_all add: init_home_def home_message_step)

text \<open>
  C30. In every reachable state of the page the keys the chat window gives to the messages
  are pairwise distinct.
\<close>

theorem message_keys_distinct:
  "home_reachable base s \<Longrightarrow> distinct (message_keys (messages s))"
  by (rule message_keys_inj) (rule home_message_reachable)

theorem message_keys_distinct_witness:
  "home_reachable ''http://localhost:8000''
     (home_run ''http://localhost:8000'' init_home
        [TypeInput ''hi'', ClickSend, Respond 0 (ChatResponse Rejected)]) \<and>
   message_keys (messages (home_run ''http://localhost:8000'' init_home
        [TypeInput ''hi'', ClickSend, Respond 0 (ChatResponse Rejected)])) =
     [''user-0-hi'', ''bot-1-Failed to send message''] \<and>
   distinct (message_keys (messages (home_run ''http://localhost:8000'' init_home
        [TypeInput ''hi'', ClickSend, Respond 0 (ChatResponse Rejected)])))"
proof -
  let ?s = "home_run ''http://localhost:8000'' init_home
        [TypeInput ''hi'', ClickSend, Respond 0 (ChatResponse Rejected)]"
  have r: "home_reachable ''http://localhost:8000'' ?s"
    by (rule home_reachable_run [OF home_reachable.start]) (simp add: js_eval)
  have k: "message_keys (messages ?s) = [''user-0-hi'', ''bot-1-Failed to send message'']"
    by (simp add: js_eval enumerate_eq_zip)
  from r k message_keys_distinct [OF r] show ?thesis by (simp only: simp_thms)
qed

end
