(* ===== verification/Upload_Refresh.thy ===== *)
theory Upload_Refresh
  imports Home_Page
begin

text \<open>
  The refresh of the document list after an upload (\<^verbatim>\<open>src/src/pages/Home.js\<close>, line 107).
  The handler \<^verbatim>\<open>handleUpload\<close> reads \<^verbatim>\<open>mode\<close> and calls \<^verbatim>\<open>fetchDocuments\<close> after its
  \<^verbatim>\<open>await\<close>, so both are the ones of the render in which the upload started: the mode and
  the role of that moment, which the suspended handler \<open>PUpload\<close> of the model carries.
  This theory follows an upload through a change of mode or role that happens while the
  upload is in flight; every answer in the runs below arrives in the order in which the
  requests were made.
\<close>

section \<open>The step that answers an upload\<close>

lemma respond_upload:
  assumes "i < length (pending s)" and "pending s ! i = PUpload f r m"
  shows "home_step base s (Respond i (UploadResponse x)) =
           uploadDone r m (Resolved (uploadFile x)) (s\<lparr>pending := remove_nth i (pending s)\<rparr>)"
  using assms by (simp add: respond_def)

lemma uploadDone_cells:
  "mode (uploadDone r m res s) = mode s \<and> role (uploadDone r m res s) = role s \<and>
   documents (uploadDone r m res s) = documents s"
  by (simp add: uploadDone_def setNotification_def fetchDocuments_def Let_def
      split: outcome.splits option.splits)

text \<open>
  C24. Whether an upload refreshes the document list, and for which role, is decided when
  the upload starts: the answer of an upload that started in documents mode asks for the
  listing of the role of that moment, and the answer of an upload that started in chat mode
  asks for nothing, whatever the mode and the role are when the answer arrives.
\<close>

theorem upload_refresh_captured:
  assumes "i < length (pending s)" and "pending s ! i = PUpload f r m"
  shows "pending (home_step base s (Respond i (UploadResponse x))) =
           remove_nth i (pending s) @ (if m = Documents then [PList r] else []) \<and>
         docsLoading (home_step base s (Respond i (UploadResponse x))) =
           (m = Documents \<or> docsLoading s) \<and>
         documents (home_step base s (Respond i (UploadResponse x))) = documents s"
  unfolding respond_upload [OF assms]
  by (simp add: uploadDone_def setNotification_def fetchDocuments_def Let_def split: option.splits)

theorem upload_refresh_captured_witness:
  "pending (home_run ''http://localhost:8000'' init_home
      [Upload \<lparr>file_name = ''a.txt'', file_type = ''text/plain'', file_size = 3\<rparr>,
       ClickMode Documents,
       Respond 0 (UploadResponse (Resolved \<lparr>ud_message = Some ''ok'', ud_error = None\<rparr>))]) =
     [PList ''HR''] \<and>
   mode (home_run ''http://localhost:8000'' init_home
      [Upload \<lparr>file_name = ''a.txt'', file_type = ''text/plain'', file_size = 3\<rparr>,
       ClickMode Documents]) = Documents"
proof -
  let ?f = "\<lparr>file_name = ''a.txt'', file_type = ''text/plain'', file_size = 3\<rparr>"
  let ?s = "home_run ''http://localhost:8000'' init_home [Upload ?f, ClickMode Documents]"
  have p: "pending ?s = [PUpload ?f ''HR'' Chat, PList ''HR'']" and m: "mode ?s = Documents"
    by (simp_all add: js_eval)
  then have h: "0 < length (pending ?s)" "pending ?s ! 0 = PUpload ?f ''HR'' Chat"
    by simp_all
  from upload_refresh_captured [OF h, of "''http://localhost:8000''"
      "Resolved \<lparr>ud_message = Some ''ok'', ud_error = None\<rparr>"] p m
  show ?thesis by simp
qed

section \<open>An upload that outlives its role\<close>

text \<open>
  C23. An upload that starts in documents mode and is answered after the reader has chosen
  another role lists the documents of the old role under the new one. With every answer in
  the order of the requests, the page ends with the new role, nothing in flight, and the
  listing of the role that was selected when the upload started.
\<close>

theorem refresh_lists_old_role:
  assumes "mode s = Documents" and "role s = r1" and "r2 \<noteq> r1" and "pending s = []"
  shows "let t = home_run base s
           [Upload f, SelectRole r2,
            Respond 0 (UploadResponse (Resolved d)),
            Respond 0 (ListResponse (Resolved (Some (FileArray fs2)))),
            Respond 0 (ListResponse (Resolved (Some (FileArray fs1))))] in
         role t = r2 \<and> documents t = fs1 \<and> pending t = [] \<and> \<not> docsLoading t"
  using assms
  by (simp add: handleUpload_def setRole_def documentsEffect_def fetchDocuments_def respond_def
      uploadDone_def setNotification_def listDone_def remove_nth_def Let_def split: option.splits)

theorem refresh_lists_old_role_witness:
  "documents (home_run ''http://localhost:8000''
       (home_run ''http://localhost:8000'' init_home
          [ClickMode Documents, Respond 0 (ListResponse (Resolved (Some (FileArray [''payroll.txt'']))))])
       [Upload \<lparr>file_name = ''a.txt'', file_type = ''text/plain'', file_size = 3\<rparr>,
        SelectRole ''Legal'',
        Respond 0 (UploadResponse (Resolved \<lparr>ud_message = Some ''ok'', ud_error = None\<rparr>)),
        Respond 0 (ListResponse (Resolved (Some (FileArray [''contract.pdf''])))),
        Respond 0 (ListResponse (Resolved (Some (FileArray [''payroll.txt'', ''a.txt'']))))]) =
     [''payroll.txt'', ''a.txt''] \<and>
   role (home_run ''http://localhost:8000''
       (home_run ''http://localhost:8000'' init_home
          [ClickMode Documents, Respond 0 (ListResponse (Resolved (Some (FileArray [''payroll.txt'']))))])
       [Upload \<lparr>file_name = ''a.txt'', file_type = ''text/plain'', file_size = 3\<rparr>,
        SelectRole ''Legal'',
        Respond 0 (UploadResponse (Resolved \<lparr>ud_message = Some ''ok'', ud_error = None\<rparr>)),
        Respond 0 (ListResponse (Resolved (Some (FileArray [''contract.pdf''])))),
        Respond 0 (ListResponse (Resolved (Some (FileArray [''payroll.txt'', ''a.txt'']))))]) =
     ''Legal''"
proof -
  let ?s = "home_run ''http://localhost:8000'' init_home
          [ClickMode Documents, Respond 0 (ListResponse (Resolved (Some (FileArray [''payroll.txt'']))))]"
  have h: "mode ?s = Documents" "role ?s = ''HR''" "''Legal'' \<noteq> ''HR''" "pending ?s = []"
    by (simp_all add: js_eval)
  from refresh_lists_old_role [OF h, where base = "''http://localhost:8000''"
      and f = "\<lparr>file_name = ''a.txt'', file_type = ''text/plain'', file_size = 3\<rparr>"
      and d = "\<lparr>ud_message = Some ''ok'', ud_error = None\<rparr>"
      and ?fs2.0 = "[''contract.pdf'']" and ?fs1.0 = "[''payroll.txt'', ''a.txt'']"]
  show ?thesis by (simp only: Let_def)
qed

end
