(* ===== verification/Preview_Spec.thy ===== *)
theory Preview_Spec
  imports Home_Page
begin

text \<open>
  The preview of a document as a state machine, and the page as an implementation of it.
  \<^item> \<open>preview_state\<close> and \<open>spec_step\<close> are the machine the design describes: a view that is idle,
    a text or a binary document with its extracted text, a processing flag, and the answer
    that is awaited. Opening a document chooses the transition by the extension of its
    name; closing resets the machine and drops the awaited answer; an answer that is not
    awaited is ignored.
  \<^item> \<open>preview_of\<close> reads the state of the machine off the cells of the page
    (\<^verbatim>\<open>previewFile\<close>, \<^verbatim>\<open>previewText\<close>, \<^verbatim>\<open>processing\<close> of \<^verbatim>\<open>src/src/pages/Home.js\<close>) and its
    suspended handlers; \<open>abs_event\<close> reads the event of the machine off an event of the
    page.
  \<^item> \<open>fenced\<close> are the states in which at most one preview request is in flight, and
    \<open>conforming\<close> are the steps on which the page follows the machine: a document is opened
    only while the modal is closed, the preview is closed only while nothing is processed,
    and the text of a failed download is empty.
  The refinement lemma holds for every conforming step; on each kind of step that is
  excluded the page leaves the machine, which the last section shows.
\<close>

section \<open>The machine\<close>

datatype view_state = Idle | TextPreview js_string | BinaryPreview js_string js_string

datatype awaited = AwaitText | AwaitExtraction

record preview_state =
  p_processing :: bool
  p_view :: view_state
  p_awaited :: "awaited option"

datatype preview_event =
    Open js_string js_string
  | Close
  | TextResult "js_string option"
  | ExtractionResult "js_string option"
  | Other

definition idle :: preview_state where
  "idle = \<lparr>p_processing = False, p_view = Idle, p_awaited = None\<rparr>"

definition text_view :: "js_string \<Rightarrow> view_state" where
  "text_view t = (if t = [] then Idle else TextPreview t)"

definition merge_text :: "js_string option \<Rightarrow> view_state \<Rightarrow> view_state" where
  "merge_text r v =
     (case v of
        BinaryPreview u t \<Rightarrow> BinaryPreview u (case r of Some t' \<Rightarrow> t' | None \<Rightarrow> [])
      | _ \<Rightarrow> v)"

fun spec_step :: "preview_state \<Rightarrow> preview_event \<Rightarrow> preview_state" where
  "spec_step p (Open name uri) =
     (if endsWith (toLowerCase name) ''.txt''
      then \<lparr>p_processing = True, p_view = Idle, p_awaited = Some AwaitText\<rparr>
      else if endsWith (toLowerCase name) ''.pdf''
      then \<lparr>p_processing = True, p_view = BinaryPreview uri [], p_awaited = Some AwaitExtraction\<rparr>
      else \<lparr>p_processing = False, p_view = BinaryPreview uri [], p_awaited = None\<rparr>)"
| "spec_step p Close = idle"
| "spec_step p (TextResult r) =
     (if p_awaited p = Some AwaitText
      then \<lparr>p_processing = False, p_view = text_view (case r of Some t \<Rightarrow> t | None \<Rightarrow> []),
            p_awaited = None\<rparr>
      else p)"
| "spec_step p (ExtractionResult r) =
     (if p_awaited p = Some AwaitExtraction
      then \<lparr>p_processing = False, p_view = merge_text r (p_view p), p_awaited = None\<rparr>
      else p)"
| "spec_step p Other = p"

section \<open>The page as an implementation\<close>

definition awaited_of :: "pending list \<Rightarrow> awaited option" where
  "awaited_of ps =
     (case filter is_preview ps of
        [] \<Rightarrow> None
      | p # rest \<Rightarrow> (case p of PText u \<Rightarrow> Some AwaitText | PPdf u \<Rightarrow> Some AwaitExtraction | _ \<Rightarrow> None))"

definition preview_of :: "home_state \<Rightarrow> preview_state" where
  "preview_of s =
     \<lparr>p_processing = processing s,
      p_view = (if truthy_opt (previewFile s) then BinaryPreview (the (previewFile s)) (previewText s)
                else text_view (previewText s)),
      p_awaited = awaited_of (pending s)\<rparr>"

definition text_result :: "js_string fetched \<Rightarrow> js_string option" where
  "text_result r = (case r of Http ok body \<Rightarrow> if ok then Some body else None | NetworkError \<Rightarrow> None)"

definition extraction_result :: "js_string option outcome fetched \<Rightarrow> js_string option" where
  "extraction_result r = (case r of Http True (Resolved (Some t)) \<Rightarrow> Some t | _ \<Rightarrow> None)"

fun result_event :: "pending \<Rightarrow> response \<Rightarrow> preview_event" where
  "result_event (PText u) (TextResponse r) = TextResult (text_result r)"
| "result_event (PPdf u) (PdfResponse r) = ExtractionResult (extraction_result r)"
| "result_event _ _ = Other"

fun abs_event :: "js_string \<Rightarrow> home_state \<Rightarrow> home_event \<Rightarrow> preview_event" where
  "abs_event base s (ClickDocument d) = Open d (download_url base (role s) d)"
| "abs_event base s ClickClose = Close"
| "abs_event base s ClickOverlay = Close"
| "abs_event base s (Respond i x) = result_event (pending s ! i) x"
| "abs_event base s _ = Other"

definition fenced :: "home_state \<Rightarrow> bool" where
  "fenced s \<longleftrightarrow>
     (case filter is_preview (pending s) of
        [] \<Rightarrow> \<not> processing s
      | [p] \<Rightarrow>
          processing s \<and> previewText s = [] \<and>
          (case p of
             PText u \<Rightarrow> \<not> truthy_opt (previewFile s)
           | PPdf u \<Rightarrow> truthy_opt (previewFile s)
           | _ \<Rightarrow> False)
      | _ \<Rightarrow> False)"

fun conforming :: "home_state \<Rightarrow> home_event \<Rightarrow> bool" where
  "conforming s (ClickDocument d) = (\<not> modalOpen s \<and> truthy d)"
| "conforming s ClickClose = (\<not> processing s)"
| "conforming s ClickOverlay = (\<not> processing s)"
| "conforming s (Respond i (TextResponse (Http ok body))) = (ok \<or> body = [])"
| "conforming s _ = True"

fun conforming_run :: "js_string \<Rightarrow> home_state \<Rightarrow> home_event list \<Rightarrow> bool" where
  "conforming_run base s [] = True"
| "conforming_run base s (e # es) =
     (offered s e \<and> conforming s e \<and> conforming_run base (home_step base s e) es)"

fun spec_run :: "js_string \<Rightarrow> home_state \<Rightarrow> preview_state \<Rightarrow> home_event list \<Rightarrow> preview_state" where
  "spec_run base s p [] = p"
| "spec_run base s p (e # es) =
     spec_run base (home_step base s e) (spec_step p (abs_event base s e)) es"

lemmas preview_spec_eval [js_eval] =
  idle_def text_view_def merge_text_def awaited_of_def preview_of_def text_result_def
  extraction_result_def fenced_def

section \<open>Suspended handlers\<close>

lemma filter_remove_other:
  "i < length xs \<Longrightarrow> \<not> P (xs ! i) \<Longrightarrow> filter P (remove_nth i xs) = filter P xs"
proof (induction xs arbitrary: i)
  case Nil
  then show ?case by simp
next
  case (Cons y ys)
  then show ?case by (cases i) simp_all
qed

lemma filter_remove_only:
  "i < length xs \<Longrightarrow> P (xs ! i) \<Longrightarrow> filter P xs = [p] \<Longrightarrow>
   xs ! i = p \<and> filter P (remove_nth i xs) = []"
proof (induction xs arbitrary: i)
  case Nil
  then show ?case by simp
next
  case (Cons y ys)
  show ?case
  proof (cases i)
    case 0
    with Cons.prems show ?thesis by simp
  next
    case (Suc j)
    show ?thesis
    proof (cases "P y")
      case True
      with Cons.prems(3) have "filter P ys = []" by simp
      then have "\<not> P (ys ! j)"
        using Cons.prems(1) Suc by (auto simp: filter_empty_conv)
      with Cons.prems(2) Suc show ?thesis by simp
    next
      case False
      with Cons.prems Suc Cons.IH [of j] show ?thesis by simp
    qed
  qed
qed

section \<open>Steps that leave the preview alone\<close>

lemma preview_cells:
  assumes "processing t = processing s" and "previewFile t = previewFile s"
    and "previewText t = previewText s"
    and "filter is_preview (pending t) = filter is_preview (pending s)"
  shows "preview_of t = preview_of s" and "fenced t = fenced s"
  using assms by (simp_all add: preview_of_def fenced_def awaited_of_def cong: list.case_cong pending.case_cong)

lemma respond_cells:
  assumes "i < length (pending s)" and "continuation (pending s ! i) x \<noteq> None"
    and "result_event (pending s ! i) x = Other"
  shows "processing (respond i x s) = processing s \<and> previewFile (respond i x s) = previewFile s \<and>
         previewText (respond i x s) = previewText s \<and>
         filter is_preview (pending (respond i x s)) = filter is_preview (pending s)"
proof -
  from assms(2,3) have n: "\<not> is_preview (pending s ! i)"
    by (cases "pending s ! i"; cases x) (simp_all add: is_preview_def)
  from assms(2,3) filter_remove_other [of i "pending s" is_preview, OF assms(1) n] show ?thesis
    by (cases "pending s ! i"; cases x)
      (simp_all add: respond_def assms(1) done_defs setNotification_def fetchDocuments_def Let_def
        is_preview_def split: outcome.splits files_value.splits option.splits)
qed

lemma other_cells:
  assumes "offered s e" and "abs_event base s e = Other"
  shows "processing (home_step base s e) = processing s \<and>
         previewFile (home_step base s e) = previewFile s \<and>
         previewText (home_step base s e) = previewText s \<and>
         filter is_preview (pending (home_step base s e)) = filter is_preview (pending s)"
proof (cases e)
  case (Respond i x)
  with assms respond_cells [of i s x] show ?thesis by simp
qed (insert assms, simp_all add: setter_defs handleSend_def Let_def is_preview_def split: option.splits)

section \<open>Steps of the preview\<close>

lemma closed_cells:
  "\<not> modalOpen s \<Longrightarrow> \<not> processing s \<and> \<not> truthy_opt (previewFile s) \<and> previewText s = []"
  by (simp add: modalOpen_def truthy_def)

lemma fenced_idle: "fenced s \<Longrightarrow> \<not> processing s \<Longrightarrow> filter is_preview (pending s) = []"
  by (auto simp: fenced_def split: list.splits)

lemma open_refines:
  assumes "fenced s" and "\<not> modalOpen s" and "truthy d"
  shows "preview_of (handlePreview base d s) =
           spec_step (preview_of s) (Open d (download_url base (role s) d)) \<and>
         fenced (handlePreview base d s)"
proof -
  from closed_cells [OF assms(2)] have c: "\<not> processing s" "\<not> truthy_opt (previewFile s)"
    "previewText s = []" by simp_all
  from fenced_idle [OF assms(1) c(1)] have p: "filter is_preview (pending s) = []" .
  from c p assms(3) show ?thesis
    by (simp add: handlePreview_def preview_of_def fenced_def awaited_of_def is_preview_def
        truthy_opt_def text_view_def txt_not_pdf)
qed

lemma close_refines:
  assumes "fenced s" and "\<not> processing s"
  shows "preview_of (closePreview s) = idle \<and> fenced (closePreview s) \<and>
         preview_of (overlayClick s) = idle \<and> fenced (overlayClick s)"
  using assms fenced_idle [OF assms]
  by (simp add: closePreview_def overlayClick_def preview_of_def fenced_def awaited_of_def idle_def
      truthy_opt_def text_view_def)

lemma text_refines:
  assumes "fenced s" and "i < length (pending s)" and "pending s ! i = PText u"
    and "conforming s (Respond i (TextResponse r))"
  shows "preview_of (respond i (TextResponse r) s) = spec_step (preview_of s) (TextResult (text_result r)) \<and>
         fenced (respond i (TextResponse r) s)"
proof -
  from assms(1,3) obtain p where f: "filter is_preview (pending s) = [p]"
    using assms(2) by (auto simp: fenced_def filter_empty_conv is_preview_def split: list.splits dest!: nth_mem) 
  from filter_remove_only [OF assms(2) _ f] assms(3)
  have o: "p = PText u" "filter is_preview (remove_nth i (pending s)) = []"
    by (simp_all add: is_preview_def)
  from assms(1) f o have c: "processing s" "previewText s = []" "\<not> truthy_opt (previewFile s)"
    by (simp_all add: fenced_def)
  from assms(2,3,4) f o c show ?thesis
    by (cases r)
      (auto simp: respond_def textDone_def preview_of_def fenced_def awaited_of_def
        text_result_def text_view_def truthy_opt_def)
qed

lemma extraction_refines:
  assumes "fenced s" and "i < length (pending s)" and "pending s ! i = PPdf u"
  shows "preview_of (respond i (PdfResponse r) s) =
           spec_step (preview_of s) (ExtractionResult (extraction_result r)) \<and>
         fenced (respond i (PdfResponse r) s)"
proof -
  from assms(1,3) obtain p where f: "filter is_preview (pending s) = [p]"
    using assms(2) by (auto simp: fenced_def filter_empty_conv is_preview_def split: list.splits dest!: nth_mem)
  from filter_remove_only [OF assms(2) _ f] assms(3)
  have o: "p = PPdf u" "filter is_preview (remove_nth i (pending s)) = []"
    by (simp_all add: is_preview_def)
  from assms(1) f o have c: "processing s" "previewText s = []" "truthy_opt (previewFile s)"
    by (simp_all add: fenced_def)
  from assms(2,3) f o c show ?thesis
    by (simp add: respond_def pdfDone_def preview_of_def fenced_def awaited_of_def
        extraction_result_def merge_text_def
        split: fetched.splits outcome.splits option.splits bool.splits)
qed

section \<open>Refinement\<close>

lemma step_refines:
  assumes "fenced s" and "offered s e" and "conforming s e"
  shows "preview_of (home_step base s e) = spec_step (preview_of s) (abs_event base s e) \<and>
         fenced (home_step base s e)"
proof (cases "abs_event base s e = Other")
  case True
  from other_cells [OF assms(2) True] have c:
    "processing (home_step base s e) = processing s"
    "previewFile (home_step base s e) = previewFile s"
    "previewText (home_step base s e) = previewText s"
    "filter is_preview (pending (home_step base s e)) = filter is_preview (pending s)"
    by simp_all
  from preview_cells [OF c] assms(1) True show ?thesis by simp
next
  case False
  show ?thesis
  proof (cases e)
    case (ClickDocument d)
    with assms(3) have "\<not> modalOpen s" "truthy d" by simp_all
    from open_refines [OF assms(1) this, of base] ClickDocument show ?thesis by simp
  next
    case ClickClose
    with assms(3) have "\<not> processing s" by simp
    from close_refines [OF assms(1) this] ClickClose show ?thesis by simp
  next
    case ClickOverlay
    with assms(3) have "\<not> processing s" by simp
    from close_refines [OF assms(1) this] ClickOverlay show ?thesis by simp
  next
    case (Respond i x)
    with False have ne: "result_event (pending s ! i) x \<noteq> Other" by simp
    from assms(2) Respond have i: "i < length (pending s)" by simp
    show ?thesis
    proof (cases "pending s ! i")
      case (PText u)
      with ne obtain r where x: "x = TextResponse r" by (cases x) simp_all
      from assms(3) Respond x have "conforming s (Respond i (TextResponse r))" by simp
      from text_refines [OF assms(1) i PText this] Respond PText x show ?thesis by simp
    next
      case (PPdf u)
      with ne obtain r where x: "x = PdfResponse r" by (cases x) simp_all
      from extraction_refines [OF assms(1) i PPdf, of r] Respond PPdf x show ?thesis by simp
    next
      case (PSend m r)
      with ne show ?thesis by simp
    next
      case (PUpload f r m)
      with ne show ?thesis by simp
    next
      case (PList r)
      with ne show ?thesis by simp
    qed
  next
    case (ClickMode m)
    with False show ?thesis by simp
  next
    case (SelectRole r)
    with False show ?thesis by simp
  next
    case (TypeInput v)
    with False show ?thesis by simp
  next
    case ClickSend
    with False show ?thesis by simp
  next
    case (Upload f)
    with False show ?thesis by simp
  next
    case (Elapse d)
    with False show ?thesis by simp
  qed
qed

lemma fenced_init: "fenced init_home"
  by (simp add: fenced_def init_home_def)

lemma run_refines:
  "fenced s \<Longrightarrow> conforming_run base s es \<Longrightarrow>
   preview_of (home_run base s es) = spec_run base s (preview_of s) es \<and>
   fenced (home_run base s es)"
proof (induction es arbitrary: s)
  case Nil
  then show ?case by simp
next
  case (Cons e es)
  from Cons.prems have "offered s e" "conforming s e" "conforming_run base (home_step base s e) es"
    by simp_all
  with step_refines [OF Cons.prems(1), of e base] Cons.IH [of "home_step base s e"]
  show ?case by simp
qed

text \<open>
  C11. The page implements the preview machine: along every run of conforming steps from
  the initial state, the preview that the cells of the page show is the state the machine
  reaches on the same events, and at most one preview request is in flight.
\<close>

theorem preview_refinement:
  "conforming_run base init_home es \<Longrightarrow>
   preview_of (home_run base init_home es) = spec_run base init_home idle es \<and>
   fenced (home_run base init_home es)"
proof -
  assume "conforming_run base init_home es"
  from run_refines [OF fenced_init this] show ?thesis
    by (simp add: preview_of_def init_home_def idle_def awaited_of_def truthy_opt_def text_view_def)
qed

theorem preview_refinement_witness:
  "conforming_run ''http://localhost:8000'' init_home
     [ClickMode Documents,
      Respond 0 (ListResponse (Resolved (Some (FileArray [''report.pdf''])))),
      ClickDocument ''report.pdf'',
      Respond 0 (PdfResponse (Http True (Resolved (Some ''Annual report''))))] \<and>
   preview_of (home_run ''http://localhost:8000'' init_home
     [ClickMode Documents,
      Respond 0 (ListResponse (Resolved (Some (FileArray [''report.pdf''])))),
      ClickDocument ''report.pdf'',
      Respond 0 (PdfResponse (Http True (Resolved (Some ''Annual report''))))]) =
     \<lparr>p_processing = False,
      p_view = BinaryPreview ''http://localhost:8000/download/HR/report.pdf'' ''Annual report'',
      p_awaited = None\<rparr>"
proof -
  let ?es = "[ClickMode Documents,
      Respond 0 (ListResponse (Resolved (Some (FileArray [''report.pdf''])))),
      ClickDocument ''report.pdf'',
      Respond 0 (PdfResponse (Http True (Resolved (Some ''Annual report''))))]"
  have c: "conforming_run ''http://localhost:8000'' init_home ?es"
    by (simp add: js_eval)
  have "spec_run ''http://localhost:8000'' init_home idle ?es =
      \<lparr>p_processing = False,
       p_view = BinaryPreview ''http://localhost:8000/download/HR/report.pdf'' ''Annual report'',
       p_awaited = None\<rparr>"
    by (simp add: js_eval)
  with preview_refinement [OF c] c show ?thesis by simp
qed

section \<open>Where the page leaves the machine\<close>

text \<open>
  C25. The steps excluded from the refinement are steps on which the page does not follow
  the machine. Closing while a document is processed leaves the page processing with its
  modal open, where the machine is idle; and the body of a failed text download is shown
  as the text of the document, where the machine shows nothing.
\<close>

theorem refinement_boundary:
  "(processing s \<longrightarrow>
      preview_of (home_step base s ClickClose) \<noteq> spec_step (preview_of s) (abs_event base s ClickClose) \<and>
      modalOpen (home_step base s ClickClose)) \<and>
   (fenced s \<and> i < length (pending s) \<and> pending s ! i = PText u \<and> body \<noteq> [] \<longrightarrow>
      p_view (preview_of (home_step base s (Respond i (TextResponse (Http False body))))) =
        TextPreview body \<and>
      p_view (spec_step (preview_of s)
        (abs_event base s (Respond i (TextResponse (Http False body))))) = Idle)"
proof (intro conjI impI)
  assume "processing s"
  then show "preview_of (home_step base s ClickClose) \<noteq>
      spec_step (preview_of s) (abs_event base s ClickClose)"
    by (simp add: closePreview_def preview_of_def idle_def)
  from \<open>processing s\<close> show "modalOpen (home_step base s ClickClose)"
    by (simp add: closePreview_def modalOpen_def)
next
  assume a: "fenced s \<and> i < length (pending s) \<and> pending s ! i = PText u \<and> body \<noteq> []"
  then have f: "\<exists>p. filter is_preview (pending s) = [p]"
    by (auto simp: fenced_def filter_empty_conv is_preview_def split: list.splits dest!: nth_mem)
  then obtain p where f: "filter is_preview (pending s) = [p]" ..
  from a filter_remove_only [of i "pending s" is_preview p] f
  have o: "p = PText u" by (simp add: is_preview_def)
  from a show "p_view (preview_of (home_step base s (Respond i (TextResponse (Http False body))))) =
      TextPreview body"
    by (simp add: respond_def textDone_def preview_of_def truthy_opt_def text_view_def)
  from a f o show "p_view (spec_step (preview_of s)
      (abs_event base s (Respond i (TextResponse (Http False body))))) = Idle"
    by (simp add: preview_of_def awaited_of_def text_result_def text_view_def)
qed

theorem refinement_boundary_witness:
  "processing (home_run ''http://localhost:8000'' init_home
     [ClickMode Documents,
      Respond 0 (ListResponse (Resolved (Some (FileArray [''notes.txt''])))),
      ClickDocument ''notes.txt'']) \<and>
   modalOpen (home_run ''http://localhost:8000'' init_home
     [ClickMode Documents,
      Respond 0 (ListResponse (Resolved (Some (FileArray [''notes.txt''])))),
      ClickDocument ''notes.txt'', ClickClose]) \<and>
   p_view (preview_of (home_run ''http://localhost:8000'' init_home
     [ClickMode Documents,
      Respond 0 (ListResponse (Resolved (Some (FileArray [''notes.txt''])))),
      ClickDocument ''notes.txt'',
      Respond 0 (TextResponse (Http False ''Not Found''))])) = TextPreview ''Not Found''"
proof -
  let ?s = "home_run ''http://localhost:8000'' init_home
     [ClickMode Documents,
      Respond 0 (ListResponse (Resolved (Some (FileArray [''notes.txt''])))),
      ClickDocument ''notes.txt'']"
  have p: "processing ?s" and f: "fenced ?s"
    and i: "0 < length (pending ?s)"
      "pending ?s ! 0 = PText ''http://localhost:8000/download/HR/notes.txt''"
    by (simp_all add: js_eval is_preview_def)
  from refinement_boundary [of ?s "''http://localhost:8000''" 0
      "''http://localhost:8000/download/HR/notes.txt''" "''Not Found''"] p f i
  show ?thesis by (simp add: home_run_def)
qed

end
