(* ===== verification/Download_Route.thy ===== *)
theory Download_Route
  imports Home_Page URI_Decode
begin

text \<open>
  The two request URLs that \<^verbatim>\<open>handlePreview\<close> builds (\<^verbatim>\<open>src/src/pages/Home.js\<close>, lines 118,
  119 and 140) read from the side of the service: \<open>route\<close> splits the path of a request
  into its operation, its role and its file name, decoding the name. The role is put into
  the path as it is and the name is encoded, so the path has exactly three segments
  whenever the role holds no slash, which is the case for the roles of the page.
\<close>

section \<open>Reading a request\<close>

definition segment :: "js_string \<Rightarrow> js_string" where
  "segment s = takeWhile (\<lambda>c. c \<noteq> CHR ''/'') s"

definition after_segment :: "js_string \<Rightarrow> js_string" where
  "after_segment s = drop (Suc (length (segment s))) s"

definition route :: "js_string \<Rightarrow> (js_string \<times> js_string \<times> js_string) option" where
  "route path =
     (case path of
        [] \<Rightarrow> None
      | c # rest \<Rightarrow>
          if c \<noteq> CHR ''/'' then None
          else
            let operation = segment rest;
                r = segment (after_segment rest);
                name = after_segment (after_segment rest)
            in if CHR ''/'' \<in> set name then None
               else map_option (\<lambda>f. (operation, r, f)) (decodeURIComponent name))"

definition request_path :: "js_string \<Rightarrow> js_string \<Rightarrow> js_string option" where
  "request_path base url = (if startsWith url base then Some (drop (length base) url) else None)"

section \<open>Segments\<close>

lemma segment_append:
  "CHR ''/'' \<notin> set s \<Longrightarrow> segment (s @ CHR ''/'' # t) = s \<and> after_segment (s @ CHR ''/'' # t) = t"
proof -
  assume "CHR ''/'' \<notin> set s"
  then have "x \<noteq> CHR ''/''" if "x \<in> set s" for x
    using that by auto
  then have "takeWhile (\<lambda>c. c \<noteq> CHR ''/'') (s @ CHR ''/'' # t) =
      s @ takeWhile (\<lambda>c. c \<noteq> CHR ''/'') (CHR ''/'' # t)"
    by (rule takeWhile_append2)
  then show ?thesis
    by (simp add: segment_def after_segment_def)
qed

lemma route_path:
  assumes "CHR ''/'' \<notin> set operation" and "CHR ''/'' \<notin> set r"
  shows "route (CHR ''/'' # operation @ CHR ''/'' # r @ CHR ''/'' # encodeURIComponent f) =
           Some (operation, r, f)"
  using segment_append [OF assms(1), of "r @ CHR ''/'' # encodeURIComponent f"]
    segment_append [OF assms(2), of "encodeURIComponent f"]
  by (simp add: route_def Let_def encode_no_slash decode_encode_eq)

lemma request_path_base: "request_path base (base @ p) = Some p"
  by (simp add: request_path_def startsWith_def)

lemma role_no_slash: "r \<in> set roles \<Longrightarrow> CHR ''/'' \<notin> set r"
  by (auto simp: roles_def)

text \<open>
  C19. The requests of a preview name the document that was clicked: for a role without
  a slash, the service reads the download request back as that role and that file name,
  and the extraction request likewise, for every file name of code units below U+0100 (the
  names the model has; a name with a lone surrogate makes \<^verbatim>\<open>encodeURIComponent\<close> throw).
\<close>

theorem preview_requests_route:
  "CHR ''/'' \<notin> set r \<Longrightarrow>
   map_option route (request_path base (download_url base r f)) = Some (Some (''download'', r, f)) \<and>
   map_option route (request_path base (process_url base r f)) = Some (Some (''process_pdf'', r, f))"
proof -
  assume r: "CHR ''/'' \<notin> set r"
  have d: "download_url base r f = base @ CHR ''/'' # ''download'' @ CHR ''/'' # r @ CHR ''/'' # encodeURIComponent f"
    and p: "process_url base r f = base @ CHR ''/'' # ''process_pdf'' @ CHR ''/'' # r @ CHR ''/'' # encodeURIComponent f"
    by (simp_all add: download_url_def process_url_def)
  have "route (CHR ''/'' # ''download'' @ CHR ''/'' # r @ CHR ''/'' # encodeURIComponent f) =
      Some (''download'', r, f)"
    by (rule route_path [OF _ r]) simp
  moreover have "route (CHR ''/'' # ''process_pdf'' @ CHR ''/'' # r @ CHR ''/'' # encodeURIComponent f) =
      Some (''process_pdf'', r, f)"
    by (rule route_path [OF _ r]) simp
  ultimately show ?thesis
    by (simp only: d p request_path_base option.map)
qed

theorem preview_requests_route_witness:
  "CHR ''/'' \<notin> set ''HR'' \<and>
   download_url ''http://localhost:8000'' ''HR'' ''a b/c.pdf'' =
     ''http://localhost:8000/download/HR/a%20b%2Fc.pdf'' \<and>
   map_option route (request_path ''http://localhost:8000''
     (download_url ''http://localhost:8000'' ''HR'' ''a b/c.pdf'')) =
     Some (Some (''download'', ''HR'', ''a b/c.pdf''))"
proof -
  have h: "CHR ''/'' \<notin> set ''HR''" by simp
  have u: "download_url ''http://localhost:8000'' ''HR'' ''a b/c.pdf'' =
     ''http://localhost:8000/download/HR/a%20b%2Fc.pdf''"
    by (simp add: js_eval)
  from preview_requests_route [OF h, of "''http://localhost:8000''" "''a b/c.pdf''"] h u
  show ?thesis by (simp only: simp_thms)
qed

text \<open>
  Two documents of a role never share a download URL: the URL of a document
  determines its name.
\<close>

theorem download_url_inj:
  "download_url base r f = download_url base r g \<longleftrightarrow> f = g"
  by (auto simp: download_url_def dest: encodeURIComponent_inj)

end
