(* ===== verification/Spec2Isabelle.thy ===== *)
theory Spec2Isabelle
  imports JS_Prelude Decimal Accept_Filter Human_Size Object_URLs Upload_Button Upload_View Gateway
    URI_Encode URI_Decode Url_Match Chat_Window Linkify_Loop Chat_View Search_Bar Persona_Selector
    Home_Page Message_Keys Upload_Refresh Preview_Spec Download_Route
begin

text \<open>
  \<^bold>\<open>A verification development for the persona chat and document portal.\<close>

  The program is a browser front end of six source files under \<^verbatim>\<open>src/src\<close>:
  \<^item> \<^verbatim>\<open>components/UploadButton.jsx\<close>: the file acceptance filter
    (\<^verbatim>\<open>matchesAccept\<close>), the size formatter (\<^verbatim>\<open>humanFileSize\<close>) and the upload
    component with its staging state (\<^verbatim>\<open>selected\<close>, \<^verbatim>\<open>errors\<close>,
    \<^verbatim>\<open>dragActive\<close>) and handlers (\<^verbatim>\<open>handleFiles\<close>, \<^verbatim>\<open>clearSelection\<close>, the drag
    and drop handlers);
  \<^item> \<^verbatim>\<open>pages/Home.js\<close>: the page state (mode, role, chat messages, document list,
    preview, notification) and its handlers (\<^verbatim>\<open>handleSend\<close>, \<^verbatim>\<open>handleUpload\<close>,
    \<^verbatim>\<open>handlePreview\<close>, \<^verbatim>\<open>fetchDocuments\<close>, the close buttons) and effects (the
    listing on a change of mode or role, the notification timer, the scroll lock);
  \<^item> \<^verbatim>\<open>services/api.js\<close>: the three gateway calls, each turning a failed request into
    a fallback value;
  \<^item> \<^verbatim>\<open>components/ChatWindow.jsx\<close>: the link splitter \<^verbatim>\<open>linkify\<close>, the rendered
    messages with their keys, and the effect that scrolls to the newest message when the
    reader is near the bottom;
  \<^item> \<^verbatim>\<open>components/SearchBar.jsx\<close> and \<^verbatim>\<open>components/PersonaSelector.jsx\<close>: an input
    with a clear button and a role selector with a badge, both without state.
  The components interact only through the page: the page passes \<^verbatim>\<open>handleUpload\<close> to
  the upload button, \<^verbatim>\<open>setRole\<close> to the selector, \<^verbatim>\<open>setInput\<close> to the search bar
  and its message list to the chat window, and it calls the gateway.

  \<^bold>\<open>Theories, in the order of their imports.\<close>
  \<^item> \<open>JS_Prelude\<close>: the ECMAScript primitives the sources call (\<^verbatim>\<open>toLowerCase\<close>,
    \<^verbatim>\<open>trim\<close>, \<^verbatim>\<open>split\<close>, \<^verbatim>\<open>startsWith\<close>, \<^verbatim>\<open>endsWith\<close>, \<^verbatim>\<open>replace\<close>,
    decimal printing), executable, with the shared lemmas and the collections
    \<open>js_eval\<close> (evaluation on closed terms) and \<open>js_simps\<close> (algebraic facts).
  \<^item> \<open>Accept_Filter\<close>: \<open>js_file\<close>, \<open>acceptList\<close>, \<open>acceptsPattern\<close>,
    \<open>matchesLoop\<close> and \<open>matchesAccept\<close> for \<^verbatim>\<open>matchesAccept\<close>
    (\<^verbatim>\<open>UploadButton.jsx\<close>, lines 12 to 27); the loop against an existential over the
    patterns, the three kinds of pattern, monotonicity, and the wildcard pattern, which
    compares without the slash and so accepts more than its description says.
  \<^item> \<open>Human_Size\<close>: \<open>humanFileSize\<close> with \<open>floor_log1024\<close>, \<open>toFixed2\<close> and the
    unit table (\<^verbatim>\<open>UploadButton.jsx\<close>, lines 5 to 10); the unit index \<open>logIndex\<close> as
    the doubles of line 8 give it, the rounding bounds of the number printed, and the
    sizes for which the unit is \<^verbatim>\<open>undefined\<close>, three of them below \<open>1024\<^sup>5\<close>.
  \<^item> \<open>Object_URLs\<close>: the browser's table of object URLs (\<open>createObjectURL\<close>,
    \<open>revokeObjectURL\<close>) with the multiset of revocations; the interface between the
    browser and the upload component.
  \<^item> \<open>Upload_Button\<close>: props, state and every handler of the upload component
    (\<^verbatim>\<open>UploadButton.jsx\<close>, lines 29 to 132): \<open>validate\<close>, \<open>partitionFiles\<close>,
    \<open>makePreviews\<close>, \<open>revokeAll\<close>, \<open>handleFiles\<close>, \<open>clearSelection\<close>, the drag and
    drop handlers, the step function \<open>upload_step\<close> and the reachable configurations.
    The lemmas show the ownership invariant of preview URLs, the release of the
    previous URLs exactly once, the partition of the files, the selection against the
    staging contract \<open>stage\<close>, and the exact set of URLs that leak when
    \<^verbatim>\<open>multiple\<close> is not set.
  \<^item> \<open>Upload_View\<close>: the element the upload component returns (\<^verbatim>\<open>UploadButton.jsx\<close>,
    lines 134 to 213) as the record \<open>upload_view\<close> built by \<open>render_upload\<close>, and the
    two inline handlers \<open>onDropzoneKeyDown\<close> and \<open>onButtonClick\<close>. The lemmas show that
    the preview keys are pairwise distinct, and that the controls are rendered exactly
    when \<open>enabled\<close> allows their events.
  \<^item> \<open>Decimal\<close>: the reader \<open>read_nat\<close> of the decimal numerals that \<open>show_nat\<close>
    prints, with the round trip; shared by the keys of messages and of previews.
  \<^item> \<open>Gateway\<close>: \<open>sendMessage\<close>, \<open>uploadFile\<close> and \<open>listFiles\<close> of \<^verbatim>\<open>api.js\<close> as
    functions from the outcome of the request (\<open>Resolved\<close> with the data, or
    \<open>Rejected\<close>) to the value returned, and the request URLs; the fallback values.
  \<^item> \<open>URI_Encode\<close>: \<^verbatim>\<open>encodeURIComponent\<close> as the page applies it to file names; the
    encoding keeps a suffix of unreserved code units and cannot create the suffix
    \<^verbatim>\<open>.pdf\<close>, which is what makes the rendering of a preview agree with the branch of
    \<^verbatim>\<open>handlePreview\<close> that installed it.
  \<^item> \<open>URI_Decode\<close>: a reference decoder (\<open>unescape\<close>, \<open>utf8_decode\<close>,
    \<open>decodeURIComponent\<close>), which is not code of the repository, with the lemmas that
    \<open>Download_Route\<close> needs: the decoder inverts the encoding, and the encoding holds no
    slash.
  \<^item> \<open>Url_Match\<close> and \<open>Chat_Window\<close>: the regular expression of \<^verbatim>\<open>linkify\<close> as
    \<open>url_match\<close> and \<open>find_url\<close>, the loop as \<open>linkify_from\<close> (a \<open>function\<close> with
    its termination proof), the message keys and \<open>isNearBottom\<close>
    (\<^verbatim>\<open>ChatWindow.jsx\<close>, lines 5 to 35 and 55 to 58); the round trip of \<open>linkify\<close>,
    the shape and maximality of its links, the order of their keys.
  \<^item> \<open>Linkify_Loop\<close>: the loop of \<^verbatim>\<open>linkify\<close> once more, as the source writes it
    (\<^verbatim>\<open>ChatWindow.jsx\<close>, lines 9 to 24): a state of \<^verbatim>\<open>lastIndex\<close> and \<^verbatim>\<open>parts\<close>, the
    guard \<open>loop_guard\<close>, the body \<open>loop_body\<close>, the loop \<open>linkify_loop\<close> by
    \<open>while_option\<close>, and the final push \<open>push_rest\<close>. The loop is proved to terminate
    and \<open>linkify_imp\<close> to return the parts of \<open>linkify\<close>.
  \<^item> \<open>Chat_View\<close>: the element rendered for each message (\<open>render_messages\<close>,
    \<^verbatim>\<open>ChatWindow.jsx\<close>, lines 55 to 71) and the scroll effect (\<open>scrollEffect\<close>, lines 37
    to 45) over the three measures of the container, with the growth of the content and
    the reader's scrolling as events of \<open>window_step\<close>. The lemmas show that the
    measures stay consistent, that the window follows when the new content leaves the
    reader within the threshold, that a reader at the bottom stays there through
    arrivals no taller than the threshold, and that a message taller than the threshold
    ends the following even for a reader at the bottom.
  \<^item> \<open>Search_Bar\<close> and \<open>Persona_Selector\<close>: the handlers, the prop-dependent
    conditions and the returned elements (\<open>render_search\<close>, \<open>render_persona\<close>) of the
    two stateless components.
  \<^item> \<open>Home_Page\<close>: the record \<open>home_state\<close> of the page (\<^verbatim>\<open>Home.js\<close>, lines 12 to
    30), each handler and effect (lines 35 to 153, 220 to 223, 258 to 261), what is
    rendered, the events with the conditions under which they are offered, the step
    function \<open>home_step\<close> and the reachable states. The lemmas show the page invariant
    \<open>home_ok\<close> on every offered run, the behaviour of a send, an upload, a listing,
    each kind of preview and the notification window on every branch, failures
    included, and the interleavings in which the code departs from its description.
  \<^item> \<open>Message_Keys\<close>: the keys the chat window gives to the messages the page
    creates; the index can be read back from a key (\<open>key_index\<close>, with the round trip
    of decimal numerals), so the keys of a reachable state are pairwise distinct.
  \<^item> \<open>Upload_Refresh\<close>: an upload that is answered after the mode or the role
    changed; the refresh of the list is decided by the mode and role the handler captured
    (\<^verbatim>\<open>Home.js\<close>, line 107), so the page can list the old role's documents under the new
    role with every answer in order.
  \<^item> \<open>Preview_Spec\<close>: the preview as the state machine of the design (\<open>spec_step\<close> on
    \<open>preview_state\<close>), the abstraction \<open>preview_of\<close> from the cells of the page, and the
    refinement: on every run of \<open>conforming\<close> steps the page is in the state of the
    machine. The steps that are not conforming (a close during processing, a second
    preview while one is open, the body of a failed text download) are exactly those on
    which the page is shown to leave the machine, here and in \<open>Home_Page\<close>.
  \<^item> \<open>Download_Route\<close>: the request URLs of a preview read from the side of the
    service (\<open>route\<close>, not code of the repository): the operation, the role and the
    decoded file name are those of the click.
  \<^item> \<open>Spec2Isabelle\<close> (this theory): the page together with its components,
    \<open>app_step\<close>, the markup of the page composed from the views of the components
    (\<open>main_view\<close>, \<open>persona_view_of\<close>, \<open>upload_view_of\<close>, \<open>messages_effect\<close>), and the
    properties that span them.

  \<^bold>\<open>Modelling decisions.\<close>
  \<^item> Strings are sequences of code units below U+0100 (type \<^typ>\<open>string\<close>); see
    \<open>JS_Prelude\<close>. Every operation of the sources on strings is exact on that range,
    except \<^verbatim>\<open>toUpperCase\<close> on U+00B5 and U+00FF, which has no value in the model. The
    builtins (\<^verbatim>\<open>toLowerCase\<close>, \<^verbatim>\<open>trim\<close>, \<^verbatim>\<open>split\<close>, \<^verbatim>\<open>encodeURIComponent\<close> and the
    others) are not code of the repository: each is modelled from the language standard
    and mapped to a line that calls it. Surrogates, on which \<^verbatim>\<open>encodeURIComponent\<close> can
    throw, are outside the range.
  \<^item> Numbers: file sizes are natural numbers, and the model follows the source for
    sizes below \<open>2\<^sup>5\<^sup>3\<close>, which are exact as doubles; \<^verbatim>\<open>maxSize\<close> is a natural number or
    \<^verbatim>\<open>Infinity\<close>, and a limit that is negative, fractional or \<^verbatim>\<open>NaN\<close> has no value in the
    model. \<^verbatim>\<open>Math.floor(Math.log(b) / Math.log(1024))\<close> is the value the doubles give: the
    integer logarithm, except for the three sizes just below \<open>1024\<^sup>5\<close>, where the rounded
    quotient is 5 (see \<open>Human_Size\<close>).
  \<^item> A synchronous handler is a total function from the state before to the state after;
    what it reads from its closure (props, state captured at render) is an argument.
  \<^item> An asynchronous handler is split at its \<^verbatim>\<open>await\<close>: the first part registers a
    \<open>pending\<close> entry with the captured values, the continuation takes the outcome of the
    awaited promise. The network answers the pending requests in any order and with any
    outcome (\<open>Respond i x\<close>); no request is ever lost or answered twice, and a request
    may stay unanswered for ever, so statements about spinners are stated for states
    without pending requests.
  \<^item> Time is the event \<open>Elapse d\<close>; the only timer is the 3000 ms timeout of the
    notification, kept as the time left. No bound or fuel is used anywhere: every
    function of the development is total, \<open>linkify_from\<close> by a measure on the text left.
    The loop \<open>linkify_loop\<close> is a \<open>while_option\<close>, whose value \<open>None\<close> would mean that
    the loop runs for ever; that it returns \<open>Some\<close> result on every text is a theorem.
  \<^item> React is reduced to two facts: a handler runs against the state of the latest
    render, and a state setter called with the current value causes no render and no
    effect. The markup a component returns is a record of the parts that depend on props
    or state (classes, labels, keys, sources, which elements are present); the identifier
    that \<^verbatim>\<open>useId\<close> generates is a parameter. A handler can only be invoked from a
    rendered control, so the conditions of the markup are the guards of the events
    (\<open>offered\<close>, \<open>enabled\<close>). The overlay of the modal is positioned by the style sheet,
    which is not modelled: \<open>offered\<close> lets a document be clicked while the modal is open,
    so the events of the model are a superset of those a reader can cause.
  \<^item> The scrolling container of the chat window is its three measures
    \<^verbatim>\<open>scrollHeight\<close>, \<^verbatim>\<open>scrollTop\<close> and \<^verbatim>\<open>clientHeight\<close> as integers. New content
    adds its height to \<^verbatim>\<open>scrollHeight\<close> before the effect runs, as React runs effects
    after the DOM is updated; \<^verbatim>\<open>scrollIntoView\<close> of the end marker moves the view to the
    largest position; the smooth animation is taken at its end.
  \<^item> The browser's object-URL table, the staging contract \<open>stage\<close>, the preview machine
    \<open>spec_step\<close>, the events of the scrolling container and the event loop (\<open>respond\<close>,
    \<open>home_run\<close>, the reachability predicates) have no code in the repository and are
    modelled from its description.

  \<^bold>\<open>Not modelled.\<close> Style sheets, inline styles and ARIA attributes other than the
  labels; the PropTypes declarations, which only warn during development;
  \<^verbatim>\<open>React.memo\<close> and \<^verbatim>\<open>forwardRef\<close>, which do not change what a component computes; the
  spread of \<^verbatim>\<open>inputProps\<close> over the input of the search bar, which the page does not use;
  the payload encodings of \<^verbatim>\<open>axios\<close> (JSON body, multipart form); messages whose text
  is not a string, which the page never creates; code points from U+0100 on.

  \<^bold>\<open>What is left.\<close> The upload component inside the page with props other than the
  defaults; a fenced variant of the listing handler with a request generation, as the
  repair of the stale listings shown in \<open>Home_Page\<close> and \<open>Upload_Refresh\<close>; the chat
  window as part of the state of \<open>app_step\<close>, with the height of each message derived
  from its text.
\<close>

section \<open>The page with its components\<close>

text \<open>
  The page renders the upload button with its default props (\<^verbatim>\<open>Home.js\<close>, line 181), the
  search bar with the input as value and \<^verbatim>\<open>setInput\<close> as \<^verbatim>\<open>onChange\<close> and no
  \<^verbatim>\<open>onSubmit\<close> (line 188), and the selector with the four roles (line 180). The state of
  the application is the state of the page and the configuration of the upload button;
  an event of a component reaches the page through the callback the page passed.
\<close>

definition home_accept :: js_string where
  "home_accept = accept default_props"

record app_state =
  page :: home_state
  uploader :: upload_conf

definition init_app :: app_state where
  "init_app = \<lparr>page = init_home, uploader = (init_upload, empty_store)\<rparr>"

datatype app_event =
    Page home_event
  | Uploader upload_event
  | SearchKey key_event
  | SearchClear

definition deliver :: "upload_call \<Rightarrow> home_state \<Rightarrow> home_state" where
  "deliver call s = (case call of CallOne f \<Rightarrow> handleUpload (Some f) s | _ \<Rightarrow> s)"

definition home_search :: "home_state \<Rightarrow> search_props" where
  "home_search s = default_search (input s)"

definition home_persona :: "home_state \<Rightarrow> persona_props" where
  "home_persona s = \<lparr>ps_roles = roles, ps_selectedRole = role s, ps_onChange = True\<rparr>"

fun app_step :: "js_string \<Rightarrow> app_state \<Rightarrow> app_event \<Rightarrow> app_state" where
  "app_step base a (Page e) = a\<lparr>page := home_step base (page a) e\<rparr>"
| "app_step base a (Uploader e) =
     \<lparr>page = deliver (snd (upload_step default_props e (uploader a))) (page a),
      uploader = fst (upload_step default_props e (uploader a))\<rparr>"
| "app_step base a (SearchKey k) =
     (if submitted (handleKeyDown (home_search (page a)) k) then a\<lparr>page := handleSend (page a)\<rparr>
      else a)"
| "app_step base a SearchClear =
     (case changed (handleClear (home_search (page a))) of
        Some v \<Rightarrow> a\<lparr>page := setInput v (page a)\<rparr>
      | None \<Rightarrow> a)"

section \<open>What the page shows\<close>

text \<open>
  The markup of the page (\<^verbatim>\<open>Home.js\<close>, lines 158 to 289) composed from the views of the
  components: the two mode buttons, the selector, the chat branch with the window, the
  input and the send button or the documents branch with its heading and list, and the
  notification. \<open>messages_effect\<close> is the effect of the chat window for a step of the page:
  it runs when the step changed the message list.
\<close>

definition mode_button_class :: "mode \<Rightarrow> home_state \<Rightarrow> js_string" where
  "mode_button_class m s = (if mode s = m then ''active'' else [])"

datatype main_view =
    ChatView "message_view list" search_view bool js_string
  | DocumentsView js_string doc_view

definition main_view :: "home_state \<Rightarrow> main_view" where
  "main_view s =
     (if mode s = Chat
      then ChatView (render_messages (messages s)) (render_search (home_search s) default_extras)
             (sending s) (send_label s)
      else DocumentsView (''Documents for '' @ role s) (document_view s))"

definition persona_view_of :: "js_string \<Rightarrow> home_state \<Rightarrow> persona_view" where
  "persona_view_of generatedId s = render_persona generatedId default_label (home_persona s)"

definition upload_view_of :: "app_state \<Rightarrow> upload_view" where
  "upload_view_of a = render_upload default_props default_labels (fst (uploader a))"

definition notification_view :: "home_state \<Rightarrow> js_string option" where
  "notification_view s = (if truthy (notification s) then Some (notification s) else None)"

definition messages_effect :: "home_state \<Rightarrow> home_state \<Rightarrow> int \<Rightarrow> scroll_box \<Rightarrow> scroll_box" where
  "messages_effect s s' h b = (if messages s' = messages s then b else window_step b (NewMessages h))"

lemmas app_eval [js_eval] = home_accept_def init_app_def deliver_def home_search_def home_persona_def
  mode_button_class_def main_view_def persona_view_of_def upload_view_of_def notification_view_def
  messages_effect_def

section \<open>Properties that span components\<close>

lemma home_accepts_every_file: "matchesAccept file home_accept"
  by (simp add: home_accept_def default_props_def matchesAccept_def truthy_def)

lemma validate_default [simp]: "validate default_props f = None"
  by (simp add: validate_def default_props_def matchesAccept_def truthy_def)

lemma partition_default [simp]:
  "fst (partitionFiles default_props files) = files"
  "snd (partitionFiles default_props files) = []"
  by (induction files) simp_all

lemma handleFiles_default:
  "snd (handleFiles default_props files c) = (if files = [] then NoCall else CallOne (hd files))"
  "errors (fst (fst (handleFiles default_props files c))) =
     (if files = [] then errors (fst c) else [])"
  by (simp_all add: handleFiles_def Let_def upload_callback_def) (simp add: default_props_def)

lemma callback_default:
  "snd (upload_step default_props e c) =
     (case e of
        InputChange files \<Rightarrow> (if files = [] then NoCall else CallOne (hd files))
      | Drop files \<Rightarrow> (if files = [] then NoCall else CallOne (hd files))
      | _ \<Rightarrow> NoCall)"
  by (cases e) (simp_all add: onInputChange_def onDrop_def handleFiles_default,
      simp add: default_props_def)

text \<open>
  C39. The upload button of the page accepts every file and passes exactly one file to the
  page for every non-empty selection or drop, the first one: the page registers one upload
  request for it, with the role and the mode of that moment, and files after the first
  are dropped without a message.
\<close>

theorem page_uploads_first_file:
  "pending (page (app_step base a (Uploader (Drop files)))) =
     pending (page a) @
     (case files of [] \<Rightarrow> [] | f # fs \<Rightarrow> [PUpload f (role (page a)) (mode (page a))]) \<and>
   errors (fst (uploader (app_step base a (Uploader (Drop files))))) =
     (if files = [] then errors (fst (uploader a)) else [])"
proof -
  have d: "onDrop default_props fs c =
      handleFiles default_props fs (fst c\<lparr>dragActive := False\<rparr>, snd c)" for c fs
    by (simp add: onDrop_def default_props_def)
  show ?thesis
    by (cases files) (simp_all add: d handleFiles_default deliver_def handleUpload_def)
qed

text \<open>
  No key pressed in the input sends the message: the page passes no \<^verbatim>\<open>onSubmit\<close> to the
  search bar (\<^verbatim>\<open>Home.js\<close>, line 188), so Enter without Shift has its default action
  prevented and nothing else happens.
\<close>

lemma search_key_step:
  "app_step base a (SearchKey k) = a \<and>
   prevented (handleKeyDown (home_search s) k) = (key k = ''Enter'' \<and> \<not> shiftKey k)"
  by (simp add: home_search_def handleKeyDown_def default_search_def)

section \<open>The views of the page\<close>

lemma role_reachable: "home_reachable base s \<Longrightarrow> role s \<in> set roles"
  using home_reachable_ok [of base s] by (simp add: home_ok_def)

text \<open>
  In every reachable state of the page the views of its components are well formed:
  the value of the role selector is one of its options, the keys of the options are
  pairwise distinct, and so are the keys of the rendered messages.
\<close>

theorem page_views_well_formed:
  "home_reachable base s \<Longrightarrow>
   pv_value (persona_view_of g s) \<in> set (map po_value (pv_options (persona_view_of g s))) \<and>
   distinct (map po_key (pv_options (persona_view_of g s))) \<and>
   distinct (map mv_key (render_messages (messages s)))"
proof -
  assume r: "home_reachable base s"
  from role_reachable [OF r] have "role s \<in> set roles" .
  moreover have "distinct roles" by (simp add: roles_def)
  moreover from r have "distinct (message_keys (messages s))"
    by (intro message_keys_inj home_message_reachable)
  ultimately show ?thesis
    by (simp add: persona_view_of_def home_persona_def keys_render_messages)
      (simp add: render_persona_def)
qed

theorem page_views_well_formed_witness:
  "home_reachable ''http://localhost:8000''
     (home_run ''http://localhost:8000'' init_home [SelectRole ''L2'', TypeInput ''hi'', ClickSend]) \<and>
   pv_value (persona_view_of ''r1'' (home_run ''http://localhost:8000'' init_home
     [SelectRole ''L2'', TypeInput ''hi'', ClickSend])) = ''L2'' \<and>
   map mv_key (render_messages (messages (home_run ''http://localhost:8000'' init_home
     [SelectRole ''L2'', TypeInput ''hi'', ClickSend]))) = [''user-0-hi'']"
proof -
  let ?s = "home_run ''http://localhost:8000'' init_home [SelectRole ''L2'', TypeInput ''hi'', ClickSend]"
  have r: "home_reachable ''http://localhost:8000'' ?s"
    by (rule home_reachable_run [OF home_reachable.start]) (simp add: js_eval)
  have v: "pv_value (persona_view_of ''r1'' ?s) = ''L2''"
    by (simp add: js_eval)
  have k: "map mv_key (render_messages (messages ?s)) = [''user-0-hi'']"
    by (simp add: keys_render_messages) (simp add: js_eval enumerate_eq_zip)
  from page_views_well_formed [OF r, of "''r1''"] r v k show ?thesis by (simp only: simp_thms)
qed

text \<open>
  The controls of the main view are on screen exactly when the step function of the page
  offers their events: the send button is enabled in chat mode while nothing is being
  sent, and a document can be clicked when it is an item of the rendered list.
\<close>

theorem offered_matches_view:
  "offered s ClickSend = (\<exists>ms sv l. main_view s = ChatView ms sv False l) \<and>
   offered s (ClickDocument d) =
     (\<exists>h ds. main_view s = DocumentsView h (DocumentItems ds) \<and> d \<in> set ds) \<and>
   offered s (TypeInput v) = (\<exists>ms b l. main_view s = ChatView ms (render_search (home_search s) default_extras) b l)"
  by (cases "mode s") (auto simp: main_view_def document_view_def)

text \<open>
  The badge of the selector does not tell the roles of the page apart: three of the four
  roles show the same letter.
\<close>

theorem badge_collision:
  "pv_badge (render_persona g l \<lparr>ps_roles = roles, ps_selectedRole = ''Legal'', ps_onChange = True\<rparr>) = Some ''L'' \<and>
   pv_badge (render_persona g l \<lparr>ps_roles = roles, ps_selectedRole = ''L1'', ps_onChange = True\<rparr>) = Some ''L'' \<and>
   pv_badge (render_persona g l \<lparr>ps_roles = roles, ps_selectedRole = ''L2'', ps_onChange = True\<rparr>) = Some ''L'' \<and>
   {''Legal'', ''L1'', ''L2''} \<subseteq> set roles"
  by (simp add: js_eval)

section \<open>The chat window and the page\<close>




end
